(* ===== verification/Prelude.thy ===== *)
theory Prelude
  imports Main "HOL-Library.Monad_Syntax"
begin
text \<open>
  Shared vocabulary of the AutoPyFunc development (src/AutoPyFunc.py).
  \<^item> Python \<open>str\<close> values are \<open>char list\<close>s; a \<open>char\<close> stands for the code point
    U+0000..U+00FF with the same number (Latin-1). Code points above U+00FF are outside
    the model.
  \<^item> A Python \<open>dict\<close> is an association list in insertion order with distinct keys:
    \<open>map_of\<close> reads it, \<open>dict_set\<close> is \<open>d[k] = v\<close> (an existing key keeps its
    position, a new key is appended), \<open>dict_of_pairs\<close> is a dict display or
    comprehension (a later duplicate overwrites the value of the first).
  \<^item> \<open>replace_char\<close> is \<open>str.replace(a, b)\<close> for one-character arguments.
  \<^item> Decimal and hexadecimal digit strings, with their readers, shared by the
    printers and parsers of Python literals and JSON.
\<close>

named_theorems model_simps "evaluation rules of the model's operations"

named_theorems roundtrip_simps "decoding of printed text"

subsection \<open>Characters\<close>

abbreviation squote :: char where "squote \<equiv> CHR 0x27"

abbreviation dquote :: char where "dquote \<equiv> CHR 0x22"

abbreviation bslash :: char where "bslash \<equiv> CHR 0x5C"

abbreviation newline :: char where "newline \<equiv> CHR 0x0A"

abbreviation creturn :: char where "creturn \<equiv> CHR 0x0D"

abbreviation tab :: char where "tab \<equiv> CHR 0x09"

abbreviation space :: char where "space \<equiv> CHR 0x20"

definition code :: "char \<Rightarrow> nat" where
  "code c = of_char c"

subsection \<open>\<open>str.replace\<close> with one-character arguments\<close>

definition replace_char :: "char \<Rightarrow> char \<Rightarrow> string \<Rightarrow> string" where
  "replace_char a b s = map (\<lambda>c. if c = a then b else c) s"

subsection \<open>Dicts as ordered association lists\<close>

fun dict_set :: "('k \<times> 'v) list \<Rightarrow> 'k \<Rightarrow> 'v \<Rightarrow> ('k \<times> 'v) list" where
  "dict_set [] k v = [(k, v)]"
| "dict_set ((k', v') # d) k v =
     (if k' = k then (k', v) # d else (k', v') # dict_set d k v)"

definition dict_of_pairs :: "('k \<times> 'v) list \<Rightarrow> ('k \<times> 'v) list" where
  "dict_of_pairs ps = foldl (\<lambda>d (k, v). dict_set d k v) [] ps"

subsection \<open>Decimal digits\<close>

definition is_digit :: "char \<Rightarrow> bool" where
  "is_digit c \<longleftrightarrow> 48 \<le> code c \<and> code c \<le> 57"

fun dec_str :: "nat \<Rightarrow> string" where
  "dec_str n = (if n < 10 then [char_of (48 + n)]
                else dec_str (n div 10) @ [char_of (48 + n mod 10)])"

definition digits_val :: "string \<Rightarrow> nat" where
  "digits_val ds = foldl (\<lambda>a c. 10 * a + (code c - 48)) 0 ds"

declare dec_str.simps [simp del]

subsection \<open>Hexadecimal digits\<close>

text \<open>Python and the JSON encoder print hexadecimal escapes with lowercase digits;
  both readers accept either case.\<close>

definition hex_digit :: "nat \<Rightarrow> char" where
  "hex_digit d = (if d < 10 then char_of (48 + d) else char_of (87 + d))"

definition hex_val :: "char \<Rightarrow> nat option" where
  "hex_val c = (let n = code c in
     if 48 \<le> n \<and> n \<le> 57 then Some (n - 48)
     else if 97 \<le> n \<and> n \<le> 102 then Some (n - 87)
     else if 65 \<le> n \<and> n \<le> 70 then Some (n - 55)
     else None)"

fun hex_width :: "nat \<Rightarrow> nat \<Rightarrow> string" where
  "hex_width 0 n = []"
| "hex_width (Suc w) n = hex_width w (n div 16) @ [hex_digit (n mod 16)]"

fun hexs_acc :: "nat \<Rightarrow> string \<Rightarrow> nat option" where
  "hexs_acc a [] = Some a"
| "hexs_acc a (c # cs) = (case hex_val c of None \<Rightarrow> None | Some v \<Rightarrow> hexs_acc (16 * a + v) cs)"

subsection \<open>Properties: Characters\<close>

lemma code_less_256 [simp]: "code c < 256"
  by (simp add: code_def)

lemma code_inj: "code c = code d \<longleftrightarrow> c = d"
  by (metis char_of_char code_def)

lemma char_of_code [simp]: "char_of (code c) = c"
  by (simp add: code_def)

lemma code_bslash [simp]: "code bslash = 92"
  by (simp add: code_def)

lemma code_char_of [simp]: "n < 256 \<Longrightarrow> code (char_of n) = n"
  by (simp add: code_def)

subsection \<open>Properties: \<open>str.replace\<close> with one-character arguments\<close>

lemma replace_char_no_occ [simp]: "a \<notin> set s \<Longrightarrow> replace_char a b s = s"
  by (induction s) (auto simp: replace_char_def)

lemma replace_char_removes: "a \<noteq> b \<Longrightarrow> a \<notin> set (replace_char a b s)"
  by (auto simp: replace_char_def)

lemma length_replace_char [simp]: "length (replace_char a b s) = length s"
  by (simp add: replace_char_def)

subsection \<open>Properties: Dicts as ordered association lists\<close>

lemma map_of_dict_set [simp]: "map_of (dict_set d k v) = (map_of d)(k \<mapsto> v)"
  by (induction d) (auto simp: fun_eq_iff)

lemma keys_dict_set:
  "map fst (dict_set d k v) = (if k \<in> set (map fst d) then map fst d else map fst d @ [k])"
  by (induction d) (auto simp: rev_image_eqI)

lemma distinct_dict_set [intro]:
  "distinct (map fst d) \<Longrightarrow> distinct (map fst (dict_set d k v))"
  by (simp add: keys_dict_set)

lemma dict_set_new [simp]: "k \<notin> set (map fst d) \<Longrightarrow> dict_set d k v = d @ [(k, v)]"
  by (induction d) auto

lemma dict_set_keys_set [simp]: "set (map fst (dict_set d k v)) = insert k (set (map fst d))"
  by (auto simp: keys_dict_set)

lemma set_dict_set: "set (dict_set d k v) \<subseteq> insert (k, v) (set d)"
  by (induction d) (auto split: if_splits)

lemma list_all_dict_set [intro]:
  "list_all P d \<Longrightarrow> P (k, v) \<Longrightarrow> list_all P (dict_set d k v)"
  using set_dict_set [of d k v] by (auto simp: list_all_iff)

lemma dict_of_pairs_distinct:
  "distinct (map fst ps) \<Longrightarrow> dict_of_pairs ps = ps"
proof -
  have "distinct (map fst (d @ ps)) \<Longrightarrow> foldl (\<lambda>d (k, v). dict_set d k v) d ps = d @ ps" for d
  proof (induction ps arbitrary: d)
    case Nil
    then show ?case by simp
  next
    case (Cons p ps)
    obtain k v where p: "p = (k, v)" by force
    with Cons.prems have "k \<notin> set (map fst d)" by auto
    then have "dict_set d k v = d @ [(k, v)]" by simp
    with Cons p show ?case by simp
  qed
  from this [of "[]"] show "distinct (map fst ps) \<Longrightarrow> dict_of_pairs ps = ps"
    by (simp add: dict_of_pairs_def)
qed

lemma dict_of_pairs_map_of: "map_of (dict_of_pairs ps) = map_of (rev ps)"
proof -
  have "map_of (foldl (\<lambda>d (k, v). dict_set d k v) d ps) = map_of (rev ps @ d)" for d
    by (induction ps arbitrary: d) (auto simp: map_add_def fun_eq_iff split: option.splits)
  from this [of "[]"] show ?thesis by (simp add: dict_of_pairs_def)
qed

lemma set_dict_of_pairs: "set (dict_of_pairs ps) \<subseteq> set ps"
proof -
  have "set (foldl (\<lambda>d (k, v). dict_set d k v) d ps) \<subseteq> set d \<union> set ps" for d :: "('a \<times> 'b) list"
  proof (induction ps arbitrary: d)
    case (Cons p ps)
    obtain k v where p: "p = (k, v)" by (cases p)
    have "set (foldl (\<lambda>d (k, v). dict_set d k v) (dict_set d k v) ps) \<subseteq> set (dict_set d k v) \<union> set ps"
      by (rule Cons.IH)
    with set_dict_set [of d k v] p show ?case by auto
  qed simp
  from this [of "[]"] show ?thesis by (simp add: dict_of_pairs_def)
qed

lemma distinct_dict_of_pairs: "distinct (map fst (dict_of_pairs ps))"
proof -
  have "distinct (map fst d) \<Longrightarrow> distinct (map fst (foldl (\<lambda>d (k, v). dict_set d k v) d ps))" for d
    by (induction ps arbitrary: d) auto
  from this [of "[]"] show ?thesis by (simp add: dict_of_pairs_def)
qed

subsection \<open>Properties: Decimal digits\<close>

lemma digits_val_snoc [simp]: "digits_val (ds @ [c]) = 10 * digits_val ds + (code c - 48)"
  by (simp add: digits_val_def)

lemma dec_str_digits: "c \<in> set (dec_str n) \<Longrightarrow> is_digit c"
proof (induction n rule: dec_str.induct)
  case (1 n)
  then show ?case
    by (subst (asm) dec_str.simps) (auto simp: is_digit_def split: if_splits)
qed

lemma dec_str_nonempty [simp]: "dec_str n \<noteq> []"
  by (subst dec_str.simps) simp

lemma digits_val_dec_str [roundtrip_simps]: "digits_val (dec_str n) = n"
proof (induction n rule: dec_str.induct)
  case (1 n)
  show ?case
  proof (cases "n < 10")
    case True
    then show ?thesis by (subst dec_str.simps) (simp add: digits_val_def)
  next
    case False
    with "1.IH" show ?thesis by (subst dec_str.simps) simp
  qed
qed

lemma dec_str_head: "hd (dec_str n) = CHR ''0'' \<Longrightarrow> n = 0"
proof (induction n rule: dec_str.induct)
  case (1 n)
  show ?case
  proof (cases "n < 10")
    case True
    with "1.prems" have "char_of (48 + n) = CHR ''0''" by (subst (asm) dec_str.simps) simp
    then have "code (char_of (48 + n)) = code (CHR ''0'')" by simp
    with True show ?thesis by (simp add: code_def)
  next
    case False
    with "1.prems" have "hd (dec_str (n div 10)) = CHR ''0''"
      by (subst (asm) dec_str.simps) simp
    with "1.IH" False show ?thesis by simp
  qed
qed

lemma takeWhile_digits_dec_str [roundtrip_simps]:
  "(rest = [] \<or> \<not> is_digit (hd rest)) \<Longrightarrow> takeWhile is_digit (dec_str n @ rest) = dec_str n"
  by (cases rest) (auto simp: dec_str_digits)

lemma dropWhile_digits_dec_str [roundtrip_simps]:
  "(rest = [] \<or> \<not> is_digit (hd rest)) \<Longrightarrow> dropWhile is_digit (dec_str n @ rest) = rest"
  by (cases rest) (auto simp: dec_str_digits)

subsection \<open>Properties: Hexadecimal digits\<close>

lemma hex_val_hex_digit [simp]: "d < 16 \<Longrightarrow> hex_val (hex_digit d) = Some d"
  by (auto simp: hex_val_def hex_digit_def Let_def)

lemma hexs_acc_append:
  "hexs_acc a (xs @ ys) = (case hexs_acc a xs of None \<Rightarrow> None | Some b \<Rightarrow> hexs_acc b ys)"
  by (induction xs arbitrary: a) (auto split: option.splits)

lemma length_hex_width [simp]: "length (hex_width w n) = w"
  by (induction w arbitrary: n) auto

lemma hexs_acc_hex_width [roundtrip_simps]:
  "hexs_acc a (hex_width w n) = Some (a * 16 ^ w + n mod 16 ^ w)"
proof (induction w arbitrary: n a)
  case 0
  then show ?case by simp
next
  case (Suc w)
  have "16 * (a * 16 ^ w + n div 16 mod 16 ^ w) + n mod 16 = a * 16 ^ Suc w + n mod 16 ^ Suc w"
    by (simp add: mod_mult2_eq algebra_simps)
  with Suc show ?case by (simp add: hexs_acc_append)
qed

end
