(* ===== verification/PyLiteral.thy ===== *)
theory PyLiteral
  imports Prelude
begin
text \<open>
  The cache key codec of \<open>SidFunctionTransformer\<close> (src/AutoPyFunc.py).
  \<open>save_cache\<close> (line 130) turns a key \<open>(fname, desc)\<close> into text with
  \<open>str((fname, desc))\<close>, which prints each component with Python's \<open>repr\<close>;
  \<open>load_cache\<close> (line 120) reads it back with \<open>eval(k)\<close>.
  \<^item> \<open>pyconst\<close> is the value of an \<open>ast.Constant\<close> argument of a marker call:
    a \<open>str\<close> or an \<open>int\<close> (other literal kinds are not modelled);
  \<^item> \<open>py_repr_str\<close> is CPython's \<open>unicode_repr\<close> on Latin-1 text: quote choice,
    backslash escapes, \<open>\xhh\<close> for non-printable characters;
  \<^item> \<open>decode_key\<close> is \<open>eval\<close> on the literal language of tuple displays of two
    str or decimal int literals with blanks between tokens; every escape sequence of
    Python string literals is read. Text outside this language (other expressions,
    string prefixes, implicit concatenation, code points above U+00FF) decodes to
    \<open>None\<close>, which the cache loader treats as the exception \<open>eval\<close> would raise.
  The main results are the round trip \<open>decode_key (encode_key k) = Some k\<close> and,
  from it, that the encoding is injective.
\<close>

datatype pyconst = PyStr string | PyInt int

type_synonym gen_key = "pyconst \<times> pyconst"

subsection \<open>Printing: \<open>repr\<close> and \<open>str\<close>\<close>

definition py_printable :: "char \<Rightarrow> bool" where
  "py_printable c \<longleftrightarrow> (32 \<le> code c \<and> code c < 127) \<or> (160 < code c \<and> code c \<noteq> 173)"

definition repr_quote :: "string \<Rightarrow> char" where
  "repr_quote s = (if squote \<in> set s \<and> dquote \<notin> set s then dquote else squote)"

definition repr_char :: "char \<Rightarrow> char \<Rightarrow> string" where
  "repr_char q c =
     (if c = q \<or> c = bslash then [bslash, c]
      else if c = tab then [bslash, CHR ''t'']
      else if c = newline then [bslash, CHR ''n'']
      else if c = creturn then [bslash, CHR ''r'']
      else if code c < 32 \<or> code c = 127 then bslash # CHR ''x'' # hex_width 2 (code c)
      else if code c < 127 then [c]
      else if py_printable c then [c]
      else bslash # CHR ''x'' # hex_width 2 (code c))"

definition py_repr_str :: "string \<Rightarrow> string" where
  "py_repr_str s = (let q = repr_quote s in q # concat (map (repr_char q) s) @ [q])"

definition py_repr_int :: "int \<Rightarrow> string" where
  "py_repr_int i = (if i < 0 then CHR ''-'' # dec_str (nat (- i)) else dec_str (nat i))"

fun py_repr :: "pyconst \<Rightarrow> string" where
  "py_repr (PyStr s) = py_repr_str s"
| "py_repr (PyInt i) = py_repr_int i"

text \<open>\<open>str(x)\<close>, and the value an f-string inserts.\<close>

fun py_str :: "pyconst \<Rightarrow> string" where
  "py_str (PyStr s) = s"
| "py_str (PyInt i) = py_repr_int i"

definition encode_key :: "gen_key \<Rightarrow> string" where
  "encode_key k = (case k of (a, b) \<Rightarrow> ''('' @ py_repr a @ '', '' @ py_repr b @ '')'')"

subsection \<open>Reading: \<open>eval\<close> on literal tuple displays\<close>

definition is_octal :: "char \<Rightarrow> bool" where
  "is_octal c \<longleftrightarrow> 48 \<le> code c \<and> code c \<le> 55"

definition octal_val :: "string \<Rightarrow> nat" where
  "octal_val ds = foldl (\<lambda>a c. 8 * a + (code c - 48)) 0 ds"

text \<open>\<open>\x\<close>, \<open>\u\<close> and \<open>\U\<close> take exactly 2, 4 and 8 hex digits (fewer is a
  SyntaxError); a code point above U+00FF is outside the model.\<close>

definition read_hex :: "nat \<Rightarrow> string \<Rightarrow> (string \<times> string) option" where
  "read_hex n s =
     (if length s < n then None
      else case hexs_acc 0 (take n s) of
        None \<Rightarrow> None
      | Some v \<Rightarrow> if v < 256 then Some ([char_of v], drop n s) else None)"

text \<open>One escape sequence, given the text after the backslash: the characters it
  stands for and the rest of the text. An unknown escape keeps the backslash.\<close>

fun esc :: "string \<Rightarrow> (string \<times> string) option" where
  "esc [] = None"
| "esc (e # r) =
     (if e = newline then Some ([], r)
      else if e = bslash \<or> e = squote \<or> e = dquote then Some ([e], r)
      else if e = CHR ''a'' then Some ([CHR 0x07], r)
      else if e = CHR ''b'' then Some ([CHR 0x08], r)
      else if e = CHR ''f'' then Some ([CHR 0x0C], r)
      else if e = CHR ''n'' then Some ([newline], r)
      else if e = CHR ''r'' then Some ([creturn], r)
      else if e = CHR ''t'' then Some ([tab], r)
      else if e = CHR ''v'' then Some ([CHR 0x0B], r)
      else if is_octal e then
        (let ds = e # takeWhile is_octal (take 2 r); v = octal_val ds in
         if v < 256 then Some ([char_of v], drop (length ds - 1) r) else None)
      else if e = CHR ''x'' then read_hex 2 r
      else if e = CHR ''u'' then read_hex 4 r
      else if e = CHR ''U'' then read_hex 8 r
      else if e = CHR ''N'' \<or> e = creturn then None
      else Some ([bslash, e], r))"

text \<open>The body of a literal opened by quote \<open>q\<close>: its value and the text after the
  closing quote. A raw line break before the closing quote is an unterminated literal.\<close>

function lit_body :: "char \<Rightarrow> string \<Rightarrow> (string \<times> string) option" where
  "lit_body q [] = None"
| "lit_body q (c # cs) =
     (if c = q then Some ([], cs)
      else if c = newline \<or> c = creturn then None
      else if c = bslash then
        (case esc cs of
          None \<Rightarrow> None
        | Some (out, r) \<Rightarrow> map_option (\<lambda>(v, r'). (out @ v, r')) (lit_body q r))
      else map_option (\<lambda>(v, r'). (c # v, r')) (lit_body q cs))"
  by pat_completeness auto

termination
  by (relation "measure (\<lambda>(q, s). length s)")
     (auto elim!: esc.elims simp: Let_def read_hex_def split: if_splits option.splits)

fun parse_str_lit :: "string \<Rightarrow> (string \<times> string) option" where
  "parse_str_lit [] = None"
| "parse_str_lit (c # cs) = (if c = squote \<or> c = dquote then lit_body c cs else None)"

text \<open>A decimal int literal, with an optional minus sign (a unary minus applied to
  it). Leading zeros are a SyntaxError unless every digit is zero.\<close>

definition parse_int_lit :: "string \<Rightarrow> (int \<times> string) option" where
  "parse_int_lit s =
     (let (neg, t) = (case s of c # r \<Rightarrow> if c = CHR ''-'' then (True, r) else (False, s)
                                | [] \<Rightarrow> (False, s));
          ds = takeWhile is_digit t;
          rest = dropWhile is_digit t
      in if ds = [] then None
         else if hd ds = CHR ''0'' \<and> (\<exists>c\<in>set ds. c \<noteq> CHR ''0'') then None
         else Some (if neg then - int (digits_val ds) else int (digits_val ds), rest))"

definition parse_const :: "string \<Rightarrow> (pyconst \<times> string) option" where
  "parse_const s =
     (case parse_str_lit s of
       Some (v, r) \<Rightarrow> Some (PyStr v, r)
     | None \<Rightarrow> (case parse_int_lit s of None \<Rightarrow> None | Some (i, r) \<Rightarrow> Some (PyInt i, r)))"

definition skip_blanks :: "string \<Rightarrow> string" where
  "skip_blanks s = dropWhile (\<lambda>c. c = space \<or> c = tab) s"

definition expect :: "char \<Rightarrow> string \<Rightarrow> string option" where
  "expect c s = (case skip_blanks s of d # r \<Rightarrow> if d = c then Some r else None | [] \<Rightarrow> None)"

definition decode_key :: "string \<Rightarrow> gen_key option" where
  "decode_key s =
     (if CHR 0x00 \<in> set s then None
      else do {
        r1 \<leftarrow> expect (CHR ''('') s;
        (a, r2) \<leftarrow> parse_const (skip_blanks r1);
        r3 \<leftarrow> expect (CHR '','') r2;
        (b, r4) \<leftarrow> parse_const (skip_blanks r3);
        r6 \<leftarrow> expect (CHR '')'') (case expect (CHR '','') r4 of Some r5 \<Rightarrow> r5 | None \<Rightarrow> r4);
        if skip_blanks r6 = [] then Some (a, b) else None
      })"

subsection \<open>The key codec is a round trip\<close>

lemma char_of_48: "char_of (48::nat) = CHR ''0''"
  by (subst code_inj [symmetric]) (simp add: code_def)

lemma hex_width_code: "c \<in> set (hex_width w n) \<Longrightarrow> 48 \<le> code c"
  by (induction w arbitrary: n) (auto simp: hex_digit_def)

lemma read_hex_width:
  "n < 256 \<Longrightarrow> read_hex 2 (hex_width 2 n @ r) = Some ([char_of n], r)"
  by (simp add: read_hex_def roundtrip_simps del: hex_width.simps)

lemma esc_hex: "esc (CHR ''x'' # hex_width 2 (code c) @ r) = Some ([c], r)"
  by (simp add: is_octal_def code_def read_hex_width [unfolded code_def] del: hex_width.simps)

lemma esc_plain: "e = bslash \<or> e = squote \<or> e = dquote \<Longrightarrow> esc (e # r) = Some ([e], r)"
  by (elim disjE) simp_all

lemma lit_body_repr_char:
  assumes q: "q = squote \<or> q = dquote"
  shows "lit_body q (repr_char q c @ r) = map_option (\<lambda>(v, r'). (c # v, r')) (lit_body q r)"
proof -
  consider (escq) "c = q \<or> c = bslash" | (tab) "c = tab" | (nl) "c = newline" | (cr) "c = creturn"
    | (hex) "\<not> (c = q \<or> c = bslash)" "c \<noteq> tab" "c \<noteq> newline" "c \<noteq> creturn"
            "code c < 32 \<or> code c = 127 \<or> (127 < code c \<and> \<not> py_printable c)"
    | (raw) "\<not> (c = q \<or> c = bslash)" "c \<noteq> tab" "c \<noteq> newline" "c \<noteq> creturn"
            "\<not> (code c < 32 \<or> code c = 127 \<or> (127 < code c \<and> \<not> py_printable c))"
    by blast
  moreover from q have bq: "bslash \<noteq> q" by auto
  ultimately show ?thesis
  proof cases
    case escq
    then have "repr_char q c = [bslash, c]" by (simp add: repr_char_def)
    moreover from escq q have "esc (c # r) = Some ([c], r)" by (intro esc_plain) blast
    ultimately show ?thesis using bq by (simp del: esc.simps)
  next
    case tab
    with q show ?thesis by (auto simp: repr_char_def)
  next
    case nl
    with q show ?thesis by (auto simp: repr_char_def)
  next
    case cr
    with q show ?thesis by (auto simp: repr_char_def)
  next
    case hex
    then have "repr_char q c = bslash # CHR ''x'' # hex_width 2 (code c)"
      by (auto simp: repr_char_def)
    with hex bq show ?thesis by (simp add: esc_hex del: hex_width.simps esc.simps)
  next
    case raw
    then have "repr_char q c = [c]"
      by (auto simp: repr_char_def)
    with raw show ?thesis by simp
  qed
qed

lemma lit_body_repr:
  assumes q: "q = squote \<or> q = dquote"
  shows "lit_body q (concat (map (repr_char q) s) @ q # rest) = Some (s, rest)"
proof (induction s)
  case Nil
  then show ?case by simp
next
  case (Cons c s)
  then show ?case by (simp add: lit_body_repr_char [OF q])
qed

lemma repr_quote_cases: "repr_quote s = squote \<or> repr_quote s = dquote"
  by (simp add: repr_quote_def)

lemma parse_str_lit_repr: "parse_str_lit (py_repr_str s @ rest) = Some (s, rest)"
  using repr_quote_cases [of s]
  by (auto simp: py_repr_str_def Let_def lit_body_repr)

lemma dec_str_zero: "dec_str 0 = [CHR ''0'']"
  by (subst dec_str.simps) (simp add: char_of_48)

lemma dec_str_no_leading_zero:
  "\<not> (hd (dec_str n) = CHR ''0'' \<and> (\<exists>c\<in>set (dec_str n). c \<noteq> CHR ''0''))"
  using dec_str_head [of n] by (auto simp: dec_str_zero)

lemma dec_str_hd_digit: "is_digit (hd (dec_str n))"
  using dec_str_digits [of "hd (dec_str n)" n] by simp

lemma dec_str_Cons: "\<exists>c cs. dec_str n = c # cs \<and> is_digit c"
  using dec_str_hd_digit [of n] by (cases "dec_str n") auto

lemma minus_not_digit [simp]: "\<not> is_digit (CHR ''-'')"
  by (simp add: is_digit_def code_def)

lemma parse_int_lit_repr:
  assumes rest: "rest = [] \<or> \<not> is_digit (hd rest)"
  shows "parse_int_lit (py_repr_int i @ rest) = Some (i, rest)"
proof (cases "i < 0")
  case True
  then show ?thesis
    using rest dec_str_no_leading_zero [of "nat (- i)"]
    by (simp add: py_repr_int_def parse_int_lit_def roundtrip_simps Let_def)
next
  case False
  obtain c cs where dc: "dec_str (nat i) = c # cs" and "is_digit c"
    using dec_str_Cons by blast
  then have "c \<noteq> CHR ''-''" by auto
  with dc have split: "(case dec_str (nat i) @ rest of
      c # r \<Rightarrow> if c = CHR ''-'' then (True, r) else (False, dec_str (nat i) @ rest)
    | [] \<Rightarrow> (False, dec_str (nat i) @ rest)) = (False, dec_str (nat i) @ rest)"
    by simp
  from False rest show ?thesis
    using dec_str_no_leading_zero [of "nat i"]
    by (simp add: py_repr_int_def parse_int_lit_def roundtrip_simps Let_def split)
qed

lemma py_repr_int_head: "\<exists>c cs. py_repr_int i = c # cs \<and> (c = CHR ''-'' \<or> is_digit c)"
  using dec_str_Cons [of "nat i"] dec_str_Cons [of "nat (- i)"]
  by (auto simp: py_repr_int_def)

lemma py_repr_head: "\<exists>c cs. py_repr a = c # cs \<and> c \<noteq> space \<and> c \<noteq> tab"
proof (cases a)
  case (PyStr s)
  then show ?thesis using repr_quote_cases [of s] by (auto simp: py_repr_str_def Let_def)
next
  case (PyInt i)
  with py_repr_int_head [of i] show ?thesis by (auto simp: is_digit_def code_def)
qed

lemma parse_const_repr [roundtrip_simps]:
  assumes rest: "rest = [] \<or> \<not> is_digit (hd rest)"
  shows "parse_const (py_repr a @ rest) = Some (a, rest)"
proof (cases a)
  case (PyStr s)
  then show ?thesis by (simp add: parse_const_def parse_str_lit_repr)
next
  case (PyInt i)
  obtain c cs where h: "py_repr_int i = c # cs" and "c = CHR ''-'' \<or> is_digit c"
    using py_repr_int_head by blast
  then have "c \<noteq> squote \<and> c \<noteq> dquote" by (auto simp: is_digit_def code_def)
  with h have "parse_str_lit (py_repr_int i @ rest) = None" by simp
  with PyInt rest show ?thesis by (simp add: parse_const_def parse_int_lit_repr)
qed

lemma skip_blanks_repr [roundtrip_simps]: "skip_blanks (py_repr a @ rest) = py_repr a @ rest"
  using py_repr_head [of a] by (auto simp: skip_blanks_def)

lemma repr_char_no_nul:
  assumes q: "q = squote \<or> q = dquote"
  shows "CHR 0x00 \<notin> set (repr_char q c)"
proof
  assume x: "CHR 0x00 \<in> set (repr_char q c)"
  have "code (CHR 0x00) = 0" by (simp add: code_def)
  with x q show False
    by (auto simp: repr_char_def dest: hex_width_code split: if_splits)
qed

lemma py_repr_no_nul: "CHR 0x00 \<notin> set (py_repr a)"
proof (cases a)
  case (PyStr s)
  then show ?thesis
    using repr_quote_cases [of s] repr_char_no_nul [of "repr_quote s"]
    by (auto simp: py_repr_str_def Let_def)
next
  case (PyInt i)
  have "CHR 0x00 \<notin> set (dec_str n)" for n
    using dec_str_digits [of "CHR 0x00" n] by (auto simp: is_digit_def code_def)
  with PyInt show ?thesis by (simp add: py_repr_int_def)
qed

lemma decode_encode_key [roundtrip_simps]: "decode_key (encode_key k) = Some k"
proof (cases k)
  case (Pair a b)
  have nul: "CHR 0x00 \<notin> set (encode_key (a, b))"
    using py_repr_no_nul [of a] py_repr_no_nul [of b] by (simp add: encode_key_def)
  have comma: "\<not> is_digit (CHR '','')" and paren: "\<not> is_digit (CHR '')'')"
    by (simp_all add: is_digit_def code_def)
  have pa: "parse_const (py_repr a @ '', '' @ py_repr b @ '')'') = Some (a, '', '' @ py_repr b @ '')'')"
    using parse_const_repr [of "'', '' @ py_repr b @ '')''" a] comma by simp
  have pb: "parse_const (py_repr b @ '')'') = Some (b, '')'')"
    using parse_const_repr [of "'')''" b] paren by simp
  have sa: "skip_blanks (py_repr a @ '', '' @ py_repr b @ '')'') = py_repr a @ '', '' @ py_repr b @ '')''"
    and sb: "skip_blanks (py_repr b @ '')'') = py_repr b @ '')''"
    by (simp_all add: skip_blanks_repr [of _ "_ @ _", simplified] skip_blanks_repr)
  show ?thesis
    using Pair nul pa pb sa sb
    by (simp add: decode_key_def encode_key_def expect_def skip_blanks_def)
qed

text \<open>C6: the text \<open>save_cache\<close> writes for a key identifies the key: two
  different \<open>(fname, desc)\<close> keys never print to the same \<open>str((fname, desc))\<close>, so
  the JSON object written by \<open>save_cache\<close> has one member per cache entry.\<close>

theorem encode_key_inj: "inj encode_key"
proof (rule injI)
  fix k1 k2
  assume "encode_key k1 = encode_key k2"
  then have "decode_key (encode_key k1) = decode_key (encode_key k2)" by simp
  then show "k1 = k2" by (simp add: decode_encode_key)
qed

end
