(* ===== verification/JsonRead.thy ===== *)
theory JsonRead
  imports Prelude
begin

text \<open>
  The JSON values of src/AutoPyFunc.py and their reader, \<open>json.load\<close> of
  \<open>load_cache\<close> (line 119) and \<open>response.json()\<close> (lines 36 and 106).
  \<^item> \<open>json\<close> is the Python value \<open>json.load\<close> produces: \<open>None\<close>, \<open>bool\<close>,
    \<open>int\<close>, \<open>str\<close>, \<open>list\<close>, \<open>dict\<close> (floats, NaN and Infinity are not modelled).
  \<^item> \<open>json_loads\<close> is \<open>json.loads\<close>: whitespace between tokens, strict strings (a raw
    control character is an error), the escapes of RFC 8259, integers without leading
    zeros, objects turned into dicts (a later duplicate key overwrites the value of the
    first), and an error on trailing data.
  \<^item> The recursive descent \<open>json_value\<close> carries fuel. Every successful read consumes
    a character (\<open>json_value_shorter\<close>), and a result obtained with some fuel is
    obtained with any fuel above the number of characters it consumed
    (\<open>json_value_fuel\<close>). So the fuel \<open>json_loads\<close> gives, the length of the text plus
    one, is enough for every text: no more fuel changes the answer.
  \<^item> \<open>json_wf\<close>: objects have distinct keys, at every depth. Every value the reader
    returns is well-formed (\<open>json_value_wf\<close>), because objects go through
    \<open>dict_of_pairs\<close>.
\<close>

datatype json = JNull | JBool bool | JInt int | JStr string | JArr "json list"
  | JObj "(string \<times> json) list"

subsection \<open>Parsing\<close>

definition is_json_ws :: "char \<Rightarrow> bool" where
  "is_json_ws c \<longleftrightarrow> c = space \<or> c = tab \<or> c = newline \<or> c = creturn"

definition skip_ws :: "string \<Rightarrow> string" where
  "skip_ws s = dropWhile is_json_ws s"

text \<open>The body of a string after its opening quote: the value and the text after the
  closing quote.\<close>

fun json_string :: "string \<Rightarrow> (string \<times> string) option" where
  "json_string [] = None"
| "json_string (c # r) =
     (if c = dquote then Some ([], r)
      else if code c < 32 then None
      else if c = bslash then
        (case r of
          [] \<Rightarrow> None
        | e # r' \<Rightarrow>
            if e = dquote \<or> e = bslash \<or> e = CHR ''/'' then
              map_option (\<lambda>(v, r''). (e # v, r'')) (json_string r')
            else if e = CHR ''b'' then map_option (\<lambda>(v, r''). (CHR 0x08 # v, r'')) (json_string r')
            else if e = CHR ''f'' then map_option (\<lambda>(v, r''). (CHR 0x0C # v, r'')) (json_string r')
            else if e = CHR ''n'' then map_option (\<lambda>(v, r''). (newline # v, r'')) (json_string r')
            else if e = CHR ''r'' then map_option (\<lambda>(v, r''). (creturn # v, r'')) (json_string r')
            else if e = CHR ''t'' then map_option (\<lambda>(v, r''). (tab # v, r'')) (json_string r')
            else if e = CHR ''u'' \<and> 4 \<le> length r' then
              (case hexs_acc 0 (take 4 r') of
                Some n \<Rightarrow> if n < 256
                          then map_option (\<lambda>(v, r''). (char_of n # v, r'')) (json_string (drop 4 r'))
                          else None
              | None \<Rightarrow> None)
            else None)
      else map_option (\<lambda>(v, r''). (c # v, r'')) (json_string r))"

text \<open>A number: \<open>-?(0|[1-9][0-9]*)\<close>. A fraction or exponent after it makes a
  float, which is outside the model.\<close>

definition json_number :: "string \<Rightarrow> (int \<times> string) option" where
  "json_number s =
     (let (neg, t) = (case s of c # r \<Rightarrow> if c = CHR ''-'' then (True, r) else (False, s)
                                | [] \<Rightarrow> (False, s));
          ds = (case t of c # _ \<Rightarrow> if c = CHR ''0'' then [c] else takeWhile is_digit t | [] \<Rightarrow> []);
          rest = drop (length ds) t
      in if ds = [] then None
         else if rest \<noteq> [] \<and> hd rest \<in> {CHR ''.'', CHR ''e'', CHR ''E''} then None
         else Some (if neg then - int (digits_val ds) else int (digits_val ds), rest))"

definition json_lit :: "string \<Rightarrow> string \<Rightarrow> json \<Rightarrow> (json \<times> string) option" where
  "json_lit w s v = (if take (length w) s = w then Some (v, drop (length w) s) else None)"

fun json_value :: "nat \<Rightarrow> string \<Rightarrow> (json \<times> string) option"
and json_elems :: "nat \<Rightarrow> json list \<Rightarrow> string \<Rightarrow> (json list \<times> string) option"
and json_members :: "nat \<Rightarrow> (string \<times> json) list \<Rightarrow> string \<Rightarrow> ((string \<times> json) list \<times> string) option"
where
  "json_value 0 s = None"
| "json_value (Suc n) s =
     (case s of
       [] \<Rightarrow> None
     | c # r \<Rightarrow>
         if c = dquote then map_option (\<lambda>(v, r'). (JStr v, r')) (json_string r)
         else if c = CHR ''{'' then
           (case skip_ws r of
             d # r' \<Rightarrow> if d = CHR ''}'' then Some (JObj [], r')
                       else if d = dquote then
                         map_option (\<lambda>(kvs, r''). (JObj (dict_of_pairs kvs), r'')) (json_members n [] r')
                       else None
           | [] \<Rightarrow> None)
         else if c = CHR ''['' then
           (case skip_ws r of
             d # r' \<Rightarrow> if d = CHR '']'' then Some (JArr [], r')
                       else map_option (\<lambda>(xs, r''). (JArr xs, r'')) (json_elems n [] (d # r'))
           | [] \<Rightarrow> None)
         else if c = CHR ''n'' then json_lit ''null'' s JNull
         else if c = CHR ''t'' then json_lit ''true'' s (JBool True)
         else if c = CHR ''f'' then json_lit ''false'' s (JBool False)
         else map_option (\<lambda>(i, r'). (JInt i, r')) (json_number s))"
| "json_elems 0 acc s = None"
| "json_elems (Suc n) acc s =
     (case json_value n s of
       None \<Rightarrow> None
     | Some (v, r) \<Rightarrow>
         (case skip_ws r of
           d # r' \<Rightarrow> if d = CHR '','' then json_elems n (acc @ [v]) (skip_ws r')
                     else if d = CHR '']'' then Some (acc @ [v], r')
                     else None
         | [] \<Rightarrow> None))"
| "json_members 0 acc s = None"
| "json_members (Suc n) acc s =
     (case json_string s of
       None \<Rightarrow> None
     | Some (k, r) \<Rightarrow>
         (case skip_ws r of
           d # r' \<Rightarrow>
             if d \<noteq> CHR '':'' then None
             else (case json_value n (skip_ws r') of
               None \<Rightarrow> None
             | Some (v, r'') \<Rightarrow>
                 (case skip_ws r'' of
                   e # r3 \<Rightarrow>
                     if e = CHR '','' then
                       (case skip_ws r3 of
                         f # r4 \<Rightarrow> if f = dquote then json_members n (acc @ [(k, v)]) r4 else None
                       | [] \<Rightarrow> None)
                     else if e = CHR ''}'' then Some (acc @ [(k, v)], r3)
                     else None
                 | [] \<Rightarrow> None))
         | [] \<Rightarrow> None))"

definition json_loads :: "string \<Rightarrow> json option" where
  "json_loads s =
     (case json_value (Suc (length s)) (skip_ws s) of
       None \<Rightarrow> None
     | Some (v, r) \<Rightarrow> if skip_ws r = [] then Some v else None)"

text \<open>Well-formed values: the dicts of Python have distinct keys.\<close>

fun json_wf :: "json \<Rightarrow> bool" where
  "json_wf (JArr xs) = list_all json_wf xs"
| "json_wf (JObj kvs) = (distinct (map fst kvs) \<and> list_all (\<lambda>kv. json_wf (snd kv)) kvs)"
| "json_wf _ = True"

subsection \<open>Properties: every read consumes input\<close>

lemma length_skip_ws: "length (skip_ws s) \<le> length s"
  by (simp add: skip_ws_def length_dropWhile_le)

lemma json_number_shorter: "json_number s = Some (i, r) \<Longrightarrow> length r < length s"
  by (auto simp: json_number_def Let_def split: list.splits if_splits)

lemma json_lit_shorter: "w \<noteq> [] \<Longrightarrow> json_lit w s v = Some (v', r) \<Longrightarrow> length r < length s"
proof -
  assume w: "w \<noteq> []" and l: "json_lit w s v = Some (v', r)"
  then have t: "take (length w) s = w" and r: "r = drop (length w) s"
    by (auto simp: json_lit_def split: if_splits)
  from t have "length w \<le> length s" by (metis length_take min.absorb_iff1 min.commute)
  moreover have "0 < length w" using w by simp
  ultimately show ?thesis using r w by (cases w) auto
qed

lemma json_string_shorter: "json_string s = Some (v, r) \<Longrightarrow> length r < length s"
proof (induction "length s" arbitrary: s v rule: less_induct)
  case less
  obtain c r0 where s: "s = c # r0" using less.prems by (cases s) auto
  have ih: "length r < length s" if "length t < length s" "json_string t = Some (v', r)" for t v'
    using that less.hyps by fastforce
  have key: "length r < length s"
    if "length t < length s" "map_option (\<lambda>(v, r''). (x # v, r'')) (json_string t) = Some (v', r)" for t x v'
    using that ih by fastforce
  consider (q) "c = dquote" | (ctl) "c \<noteq> dquote" "code c < 32"
    | (b) "c \<noteq> dquote" "\<not> code c < 32" "c = bslash" | (o) "c \<noteq> dquote" "\<not> code c < 32" "c \<noteq> bslash"
    by blast
  then show ?case
  proof cases
    case q
    then show ?thesis using less.prems s by simp
  next
    case ctl
    then show ?thesis using less.prems s by simp
  next
    case b
    show ?thesis
    proof (cases r0)
      case Nil
      then show ?thesis using less.prems s b by simp
    next
      case (Cons e r')
      have l: "length r' < length s" "length (drop 4 r') < length s" using s Cons by simp_all
      with less.prems s b Cons ih [OF l(1)] ih [OF l(2)] show ?thesis
        by (auto split: if_split_asm option.split_asm intro: key)
    qed
  next
    case o
    then show ?thesis using less.prems s key [of r0 c v] by simp
  qed
qed

lemma skip_ws_Cons_shorter: "skip_ws r0 = d # r' \<Longrightarrow> length r' < length r0"
  using length_skip_ws [of r0] by simp
lemma json_value_obj_shorter:
  assumes M: "\<And>macc s kvs r. json_members n macc s = Some (kvs, r) \<Longrightarrow> length r < length s"
      and h: "json_value (Suc n) (CHR ''{'' # r0) = Some (v, r)"
  shows "length r < Suc (length r0)"
proof (cases "skip_ws r0")
  case (Cons d r')
  have l: "length r' < length r0" using skip_ws_Cons_shorter [OF Cons] .
  show ?thesis
  proof (cases "d = CHR ''}''")
    case True
    then show ?thesis using h Cons l by simp
  next
    case False
    then obtain kvs where "json_members n [] r' = Some (kvs, r)" "d = dquote"
      using h Cons by (auto split: if_split_asm)
    then show ?thesis using M l by fastforce
  qed
qed (use h in simp)

lemma json_value_arr_shorter:
  assumes E: "\<And>acc s xs r. json_elems n acc s = Some (xs, r) \<Longrightarrow> length r < length s"
      and h: "json_value (Suc n) (CHR ''['' # r0) = Some (v, r)"
  shows "length r < Suc (length r0)"
proof (cases "skip_ws r0")
  case (Cons d r')
  have l: "length r' < length r0" using skip_ws_Cons_shorter [OF Cons] .
  show ?thesis
  proof (cases "d = CHR '']''")
    case True
    then show ?thesis using h Cons l by simp
  next
    case False
    then obtain xs where "json_elems n [] (d # r') = Some (xs, r)"
      using h Cons by auto
    then show ?thesis using E l by fastforce
  qed
qed (use h in simp)

lemma json_value_leaf_shorter:
  assumes c: "c \<noteq> dquote" "c \<noteq> CHR ''{''" "c \<noteq> CHR ''[''"
      and h: "json_value (Suc n) (c # r0) = Some (v, r)"
  shows "length r < Suc (length r0)"
  using h c json_number_shorter [of "c # r0"] json_lit_shorter [of "''null''" "c # r0"]
    json_lit_shorter [of "''true''" "c # r0"] json_lit_shorter [of "''false''" "c # r0"]
  by (auto split: if_split_asm)

lemma json_value_str_shorter:
  "json_value (Suc n) (dquote # r0) = Some (v, r) \<Longrightarrow> length r < Suc (length r0)"
  using json_string_shorter [of r0] by fastforce

lemma json_value_Suc_shorter:
  assumes E: "\<And>acc s xs r. json_elems n acc s = Some (xs, r) \<Longrightarrow> length r < length s"
      and M: "\<And>macc s kvs r. json_members n macc s = Some (kvs, r) \<Longrightarrow> length r < length s"
      and h: "json_value (Suc n) s = Some (v, r)"
  shows "length r < length s"
proof (cases s)
  case (Cons c r0)
  consider "c = dquote" | "c = CHR ''{''" | "c = CHR ''[''"
    | "c \<noteq> dquote" "c \<noteq> CHR ''{''" "c \<noteq> CHR ''[''" by blast
  then show ?thesis
    using h Cons json_value_str_shorter json_value_obj_shorter [OF M] json_value_arr_shorter [OF E]
      json_value_leaf_shorter
    by cases auto
qed (use h in simp)

lemma json_elems_Suc_shorter:
  assumes V: "\<And>s v r. json_value n s = Some (v, r) \<Longrightarrow> length r < length s"
      and E: "\<And>acc s xs r. json_elems n acc s = Some (xs, r) \<Longrightarrow> length r < length s"
      and h: "json_elems (Suc n) acc s = Some (xs, r)"
  shows "length r < length s"
proof -
  obtain v r1 d r' where v: "json_value n s = Some (v, r1)" and sk: "skip_ws r1 = d # r'"
    using h by (auto split: option.split_asm list.split_asm)
  have l: "length r' < length s" using V [OF v] skip_ws_Cons_shorter [OF sk] by simp
  show ?thesis
  proof (cases "d = CHR '',''")
    case True
    then have "json_elems n (acc @ [v]) (skip_ws r') = Some (xs, r)" using h v sk by simp
    then show ?thesis using E l length_skip_ws [of r'] by fastforce
  next
    case False
    then show ?thesis using h v sk l by (simp split: if_split_asm)
  qed
qed

lemma json_members_Suc_shorter:
  assumes V: "\<And>s v r. json_value n s = Some (v, r) \<Longrightarrow> length r < length s"
      and M: "\<And>macc s kvs r. json_members n macc s = Some (kvs, r) \<Longrightarrow> length r < length s"
      and h: "json_members (Suc n) macc s = Some (kvs, r)"
  shows "length r < length s"
proof -
  obtain k r1 d r' v r2 e r3 where k: "json_string s = Some (k, r1)" and sk: "skip_ws r1 = d # r'"
    and d: "d = CHR '':''" and v: "json_value n (skip_ws r') = Some (v, r2)" and sk2: "skip_ws r2 = e # r3"
    using h by (auto split: option.split_asm list.split_asm if_split_asm)
  have l: "length r3 < length s"
    using json_string_shorter [OF k] skip_ws_Cons_shorter [OF sk] V [OF v] length_skip_ws [of r']
      skip_ws_Cons_shorter [OF sk2] by simp
  show ?thesis
  proof (cases "e = CHR '',''")
    case True
    then obtain f r4 where sk3: "skip_ws r3 = f # r4" and "json_members n (macc @ [(k, v)]) r4 = Some (kvs, r)"
      using h k sk d v sk2 by (auto split: list.split_asm if_split_asm)
    then show ?thesis using M l skip_ws_Cons_shorter [OF sk3] by fastforce
  next
    case False
    then show ?thesis using h k sk d v sk2 l by (simp split: if_split_asm)
  qed
qed

lemma json_value_shorter:
  "(\<forall>s v r. json_value n s = Some (v, r) \<longrightarrow> length r < length s)
   \<and> (\<forall>acc s xs r. json_elems n acc s = Some (xs, r) \<longrightarrow> length r < length s)
   \<and> (\<forall>macc s kvs r. json_members n macc s = Some (kvs, r) \<longrightarrow> length r < length s)"
proof (induction n)
  case (Suc n)
  have V: "\<And>s v r. json_value n s = Some (v, r) \<Longrightarrow> length r < length s" using Suc.IH by blast
  have E: "\<And>acc s xs r. json_elems n acc s = Some (xs, r) \<Longrightarrow> length r < length s" using Suc.IH by blast
  have M: "\<And>macc s kvs r. json_members n macc s = Some (kvs, r) \<Longrightarrow> length r < length s" using Suc.IH by blast
  show ?case
  proof (intro conjI allI impI)
    fix s v r assume "json_value (Suc n) s = Some (v, r)"
    then show "length r < length s" using json_value_Suc_shorter E M by blast
  next
    fix acc s xs r assume "json_elems (Suc n) acc s = Some (xs, r)"
    then show "length r < length s" using json_elems_Suc_shorter V E by blast
  next
    fix macc s kvs r assume "json_members (Suc n) macc s = Some (kvs, r)"
    then show "length r < length s" using json_members_Suc_shorter V M by blast
  qed
qed simp

lemma json_value_Suc_fuel_indep:
  "c \<noteq> CHR ''{'' \<Longrightarrow> c \<noteq> CHR ''['' \<Longrightarrow> json_value (Suc n) (c # r0) = json_value (Suc m) (c # r0)"
  by simp

lemma json_value_Suc_fuel:
  assumes E: "\<And>acc s xs r m. json_elems n acc s = Some (xs, r) \<Longrightarrow> length s - length r < m
                 \<Longrightarrow> json_elems m acc s = Some (xs, r)"
      and M: "\<And>macc s kvs r m. json_members n macc s = Some (kvs, r) \<Longrightarrow> length s - length r < m
                 \<Longrightarrow> json_members m macc s = Some (kvs, r)"
      and h: "json_value (Suc n) s = Some (v, r)" and m: "length s - length r < Suc m"
  shows "json_value (Suc m) s = Some (v, r)"
proof (cases s)
  case (Cons c r0)
  note sc = this
  consider "c = CHR ''{''" | "c = CHR ''[''" | "c \<noteq> CHR ''{''" "c \<noteq> CHR ''[''" by blast
  then show ?thesis
  proof cases
    case 1
    show ?thesis
    proof (cases "skip_ws r0")
      case (Cons d r')
      have l: "length r' < length r0" using skip_ws_Cons_shorter [OF Cons] .
      show ?thesis
      proof (cases "d = CHR ''}''")
        case False
        then obtain kvs r'' where d: "d = dquote" and mem: "json_members n [] r' = Some (kvs, r'')"
          and v: "v = JObj (dict_of_pairs kvs)" and r: "r = r''"
          using h sc 1 Cons by (auto split: if_split_asm)
        have "length r'' < length r'" using mem json_value_shorter by blast
        then have "length r' - length r'' < m" using m l r sc by simp
        then have "json_members m [] r' = Some (kvs, r'')" by (rule M [OF mem])
        then show ?thesis using sc 1 Cons d v r by simp
      qed (use h sc 1 Cons in simp)
    qed (use h sc 1 in simp)
  next
    case 2
    show ?thesis
    proof (cases "skip_ws r0")
      case (Cons d r')
      have l: "length r' < length r0" using skip_ws_Cons_shorter [OF Cons] .
      show ?thesis
      proof (cases "d = CHR '']''")
        case False
        then obtain xs r'' where el: "json_elems n [] (d # r') = Some (xs, r'')"
          and v: "v = JArr xs" and r: "r = r''"
          using h sc 2 Cons by auto
        have "length r'' < length (d # r')" using el json_value_shorter by blast
        then have "length (d # r') - length r'' < m" using m l r sc by simp
        then have "json_elems m [] (d # r') = Some (xs, r'')" by (rule E [OF el])
        then show ?thesis using sc 2 Cons False v r by simp
      qed (use h sc 2 Cons in simp)
    qed (use h sc 2 in simp)
  next
    case 3
    then show ?thesis using h sc json_value_Suc_fuel_indep [of c n r0 m] by simp
  qed
qed (use h in simp)

lemma json_elems_Suc_fuel:
  assumes V: "\<And>s v r m. json_value n s = Some (v, r) \<Longrightarrow> length s - length r < m
                 \<Longrightarrow> json_value m s = Some (v, r)"
      and E: "\<And>acc s xs r m. json_elems n acc s = Some (xs, r) \<Longrightarrow> length s - length r < m
                 \<Longrightarrow> json_elems m acc s = Some (xs, r)"
      and h: "json_elems (Suc n) acc s = Some (xs, r)" and m: "length s - length r < Suc m"
  shows "json_elems (Suc m) acc s = Some (xs, r)"
proof -
  obtain v r1 d r' where v: "json_value n s = Some (v, r1)" and sk: "skip_ws r1 = d # r'"
    using h by (auto split: option.split_asm list.split_asm)
  have l1: "length r1 < length s" using v json_value_shorter by blast
  have l2: "length r' < length r1" using skip_ws_Cons_shorter [OF sk] .
  show ?thesis
  proof (cases "d = CHR '',''")
    case True
    then have el: "json_elems n (acc @ [v]) (skip_ws r') = Some (xs, r)" using h v sk by simp
    have l3: "length r < length (skip_ws r')" using el json_value_shorter by blast
    have l4: "length (skip_ws r') \<le> length r'" by (rule length_skip_ws)
    have "json_value m s = Some (v, r1)" using V [OF v] l1 l2 l3 l4 m by simp
    moreover have "json_elems m (acc @ [v]) (skip_ws r') = Some (xs, r)" using E [OF el] l1 l2 l3 l4 m by simp
    ultimately show ?thesis using sk True by simp
  next
    case False
    then have d: "d = CHR '']''" and r: "r = r'" and xs: "xs = acc @ [v]"
      using h v sk by (auto split: if_split_asm)
    have "json_value m s = Some (v, r1)" using V [OF v] l1 l2 m r by simp
    then show ?thesis using sk d r xs by simp
  qed
qed

lemma json_members_Suc_fuel:
  assumes V: "\<And>s v r m. json_value n s = Some (v, r) \<Longrightarrow> length s - length r < m
                 \<Longrightarrow> json_value m s = Some (v, r)"
      and M: "\<And>macc s kvs r m. json_members n macc s = Some (kvs, r) \<Longrightarrow> length s - length r < m
                 \<Longrightarrow> json_members m macc s = Some (kvs, r)"
      and h: "json_members (Suc n) macc s = Some (kvs, r)" and m: "length s - length r < Suc m"
  shows "json_members (Suc m) macc s = Some (kvs, r)"
proof -
  obtain k r1 d r' v r2 e r3 where k: "json_string s = Some (k, r1)" and sk: "skip_ws r1 = d # r'"
    and d: "d = CHR '':''" and v: "json_value n (skip_ws r') = Some (v, r2)" and sk2: "skip_ws r2 = e # r3"
    using h by (auto split: option.split_asm list.split_asm if_split_asm)
  have l1: "length r1 < length s" using json_string_shorter [OF k] .
  have l2: "length r' < length r1" using skip_ws_Cons_shorter [OF sk] .
  have l2': "length (skip_ws r') \<le> length r'" by (rule length_skip_ws)
  have l3: "length r2 < length (skip_ws r')" using v json_value_shorter by blast
  have l4: "length r3 < length r2" using skip_ws_Cons_shorter [OF sk2] .
  show ?thesis
  proof (cases "e = CHR '',''")
    case True
    then obtain f r4 where sk3: "skip_ws r3 = f # r4" and f: "f = dquote"
      and mem: "json_members n (macc @ [(k, v)]) r4 = Some (kvs, r)"
      using h k sk d v sk2 by (auto split: list.split_asm if_split_asm)
    have l5: "length r4 < length r3" using skip_ws_Cons_shorter [OF sk3] .
    have l6: "length r < length r4" using mem json_value_shorter by blast
    have "json_value m (skip_ws r') = Some (v, r2)" using V [OF v] l1 l2 l2' l3 l4 l5 l6 m by simp
    moreover have "json_members m (macc @ [(k, v)]) r4 = Some (kvs, r)"
      using M [OF mem] l1 l2 l2' l3 l4 l5 l6 m by simp
    ultimately show ?thesis using k sk d sk2 True sk3 f by simp
  next
    case False
    then have e: "e = CHR ''}''" and r: "r = r3" and kvs: "kvs = macc @ [(k, v)]"
      using h k sk d v sk2 by (auto split: if_split_asm)
    have "json_value m (skip_ws r') = Some (v, r2)" using V [OF v] l1 l2 l2' l3 l4 m r by simp
    then show ?thesis using k sk d sk2 e r kvs by simp
  qed
qed

lemma json_value_fuel:
  "(\<forall>s v r m. json_value n s = Some (v, r) \<longrightarrow> length s - length r < m \<longrightarrow> json_value m s = Some (v, r))
   \<and> (\<forall>acc s xs r m. json_elems n acc s = Some (xs, r) \<longrightarrow> length s - length r < m
        \<longrightarrow> json_elems m acc s = Some (xs, r))
   \<and> (\<forall>macc s kvs r m. json_members n macc s = Some (kvs, r) \<longrightarrow> length s - length r < m
        \<longrightarrow> json_members m macc s = Some (kvs, r))"
proof (induction n)
  case (Suc n)
  note V = Suc.IH [THEN conjunct1, rule_format]
  note E = Suc.IH [THEN conjunct2, THEN conjunct1, rule_format]
  note M = Suc.IH [THEN conjunct2, THEN conjunct2, rule_format]
  show ?case
  proof (intro conjI allI impI)
    fix s v r m assume h: "json_value (Suc n) s = Some (v, r)" and l: "length s - length r < m"
    then obtain m' where "m = Suc m'" by (cases m) auto
    with h l show "json_value m s = Some (v, r)"
      using json_value_Suc_fuel [where n = n and m = m', OF E M] by simp
  next
    fix acc s xs r m assume h: "json_elems (Suc n) acc s = Some (xs, r)" and l: "length s - length r < m"
    then obtain m' where "m = Suc m'" by (cases m) auto
    with h l show "json_elems m acc s = Some (xs, r)"
      using json_elems_Suc_fuel [where n = n and m = m', OF V E] by simp
  next
    fix macc s kvs r m assume h: "json_members (Suc n) macc s = Some (kvs, r)" and l: "length s - length r < m"
    then obtain m' where "m = Suc m'" by (cases m) auto
    with h l show "json_members m macc s = Some (kvs, r)"
      using json_members_Suc_fuel [where n = n and m = m', OF V M] by simp
  qed
qed simp

lemmas json_value_fuel_mono = json_value_fuel [THEN conjunct1, rule_format]

lemma json_value_fuel_Some:
  assumes "json_value k' s = Some x" and "length s < k"
  shows "json_value k s = Some x"
proof -
  obtain v r where x: "x = (v, r)" by (cases x)
  have "length s - length r < k" using assms(2) by linarith
  then show ?thesis using json_value_fuel_mono [of k' s v r k] assms(1) x by simp
qed

lemma json_value_wf:
  "(\<forall>s v r. json_value n s = Some (v, r) \<longrightarrow> json_wf v)
   \<and> (\<forall>acc s xs r. json_elems n acc s = Some (xs, r) \<longrightarrow> list_all json_wf acc \<longrightarrow> list_all json_wf xs)
   \<and> (\<forall>macc s kvs r. json_members n macc s = Some (kvs, r) \<longrightarrow> list_all (\<lambda>kv. json_wf (snd kv)) macc
        \<longrightarrow> list_all (\<lambda>kv. json_wf (snd kv)) kvs)"
proof (induction n)
  case (Suc n)
  note V = Suc.IH [THEN conjunct1, rule_format]
  note E = Suc.IH [THEN conjunct2, THEN conjunct1, rule_format]
  note M = Suc.IH [THEN conjunct2, THEN conjunct2, rule_format]
  show ?case
  proof (intro conjI allI impI)
    fix s v r assume h: "json_value (Suc n) s = Some (v, r)"
    show "json_wf v"
    proof (cases s)
      case (Cons c r0)
      note sc = this
      consider "c = CHR ''{''" | "c = CHR ''[''" | "c \<noteq> CHR ''{''" "c \<noteq> CHR ''[''" by blast
      then show ?thesis
      proof cases
        case 1
        show ?thesis
        proof (cases "skip_ws r0")
          case (Cons d r')
          show ?thesis
          proof (cases "d = CHR ''}''")
            case False
            then obtain kvs r'' where "json_members n [] r' = Some (kvs, r'')" "v = JObj (dict_of_pairs kvs)"
              using h sc 1 Cons by (auto split: if_split_asm)
            then show ?thesis
              using M [of "[]" r' kvs r''] set_dict_of_pairs [of kvs] distinct_dict_of_pairs [of kvs]
              by (auto simp: list_all_iff)
          qed (use h sc 1 Cons in auto)
        qed (use h sc 1 in simp)
      next
        case 2
        then obtain xs r' where "v = JArr xs \<and> (xs = [] \<or> json_elems n [] r' = Some (xs, r))"
          using h sc by (auto split: list.split_asm if_split_asm)
        then show ?thesis using E [of "[]" r' xs r] by auto
      next
        case 3
        then show ?thesis using h sc
          by (auto simp: json_lit_def split: if_split_asm)
      qed
    qed (use h in simp)
  next
    fix acc s xs r assume h: "json_elems (Suc n) acc s = Some (xs, r)" and a: "list_all json_wf acc"
    then obtain v r1 where v: "json_value n s = Some (v, r1)" by (auto split: option.split_asm)
    then have "list_all json_wf (acc @ [v])" using V [OF v] a by simp
    then show "list_all json_wf xs" using h v E by (auto split: list.split_asm if_split_asm)
  next
    fix macc s kvs r assume h: "json_members (Suc n) macc s = Some (kvs, r)"
      and a: "list_all (\<lambda>kv. json_wf (snd kv)) macc"
    then obtain k r1 d r' v r2 where "json_string s = Some (k, r1)" "skip_ws r1 = d # r'"
      and v: "json_value n (skip_ws r') = Some (v, r2)"
      by (auto split: option.split_asm list.split_asm if_split_asm)
    moreover have "list_all (\<lambda>kv. json_wf (snd kv)) (macc @ [(k, v)])" using V [OF v] a by simp
    ultimately show "list_all (\<lambda>kv. json_wf (snd kv)) kvs"
      using h M by (auto split: list.split_asm if_split_asm)
  qed
qed simp

lemma json_loads_wf: "json_loads s = Some v \<Longrightarrow> json_wf v"
  using json_value_wf [THEN conjunct1, rule_format, of "Suc (length s)" "skip_ws s" v]
  by (auto simp: json_loads_def split: option.split_asm if_split_asm)

subsection \<open>Properties: the fuel of the reader\<close>

text \<open>the reader's fuel is enough. For every text, \<open>json_value\<close> gives the same
  answer with every fuel greater than the length of the text, so the bounded model of the
  recursive descent computes what the unbounded \<open>json.loads\<close> computes: running out of
  fuel never turns a value into an error.\<close>

lemma json_value_fuel_enough:
  assumes "length s < m" and "length s < m'"
  shows "json_value m s = json_value m' s"
proof (cases "json_value m' s")
  case None
  show ?thesis
  proof (cases "json_value m s")
    case (Some x)
    then have "json_value m' s = Some x" by (rule json_value_fuel_Some [OF _ assms(2)])
    with None show ?thesis by simp
  qed (simp add: None)
next
  case (Some x)
  then show ?thesis by (simp add: json_value_fuel_Some [OF _ assms(1)])
qed

end
