(* ===== verification/Json.thy ===== *)
theory Json
  imports PyLiteral JsonRead
begin
text \<open>
  The persisted cache file (src/AutoPyFunc.py, \<open>CACHE_FILE\<close>, line 23) is JSON:
  \<open>save_cache\<close> writes it with \<open>json.dump\<close> (line 131) and \<open>load_cache\<close> reads
  it with \<open>json.load\<close> (line 119). The completion and token endpoints answer with JSON
  read by \<open>response.json()\<close> (lines 36 and 106).
  \<^item> \<open>json_dumps\<close> is \<open>json.dump\<close> with its defaults: \<open>ensure_ascii\<close> escapes
    (\<open>\"\<close>, \<open>\\\<close>, \<open>\b \f \n \r \t\<close>, \<open>\u00hh\<close> for control characters and
    everything from U+007F), separators \<open>", "\<close> and \<open>": "\<close>;
  \<^item> \<open>json_loads\<close> (theory \<open>JsonRead\<close>) reads back every well-formed value
    \<open>json_dumps\<close> prints (\<open>json_loads_dumps\<close>), using no more fuel than the length
    of the text (\<open>jfuel_le_length\<close>).
\<close>

subsection \<open>Printing\<close>

definition json_char :: "char \<Rightarrow> string" where
  "json_char c =
     (if c = dquote then [bslash, dquote]
      else if c = bslash then [bslash, bslash]
      else if c = newline then [bslash, CHR ''n'']
      else if c = creturn then [bslash, CHR ''r'']
      else if c = tab then [bslash, CHR ''t'']
      else if c = CHR 0x08 then [bslash, CHR ''b'']
      else if c = CHR 0x0C then [bslash, CHR ''f'']
      else if code c < 32 \<or> 127 \<le> code c then bslash # CHR ''u'' # hex_width 4 (code c)
      else [c])"

definition json_quote :: "string \<Rightarrow> string" where
  "json_quote s = dquote # concat (map json_char s) @ [dquote]"

text \<open>\<open>sep.join(xs)\<close>.\<close>

fun join :: "string \<Rightarrow> string list \<Rightarrow> string" where
  "join sep [] = []"
| "join sep [x] = x"
| "join sep (x # y # xs) = x @ sep @ join sep (y # xs)"

fun json_dumps :: "json \<Rightarrow> string" where
  "json_dumps JNull = ''null''"
| "json_dumps (JBool b) = (if b then ''true'' else ''false'')"
| "json_dumps (JInt i) = py_repr_int i"
| "json_dumps (JStr s) = json_quote s"
| "json_dumps (JArr xs) = ''['' @ join '', '' (map json_dumps xs) @ '']''"
| "json_dumps (JObj kvs) =
     ''{'' @ join '', '' (map (\<lambda>(k, v). json_quote k @ '': '' @ json_dumps v) kvs) @ ''}''"

subsection \<open>The fuel a printed value needs\<close>

definition json_follow :: "string \<Rightarrow> bool" where
  "json_follow r \<longleftrightarrow> r = [] \<or> (\<not> is_digit (hd r) \<and> hd r \<notin> {CHR ''.'', CHR ''e'', CHR ''E''})"

fun jfuel :: "json \<Rightarrow> nat" where
  "jfuel (JArr xs) = Suc (sum_list (map (\<lambda>x. Suc (jfuel x)) xs))"
| "jfuel (JObj kvs) = Suc (sum_list (map (\<lambda>kv. Suc (jfuel (snd kv))) kvs))"
| "jfuel JNull = 1"
| "jfuel (JBool b) = 1"
| "jfuel (JInt i) = 1"
| "jfuel (JStr s) = 1"

definition json_entry :: "string \<times> json \<Rightarrow> string" where
  "json_entry kv = json_quote (fst kv) @ '': '' @ json_dumps (snd kv)"

subsection \<open>The JSON codec is a round trip\<close>

lemma hexs_acc_hex4: "n < 256 \<Longrightarrow> hexs_acc 0 (hex_width 4 n) = Some n"
  by (simp add: roundtrip_simps del: hex_width.simps)

lemma json_string_char:
  "json_string (json_char c @ r) = map_option (\<lambda>(v, r'). (c # v, r')) (json_string r)"
proof -
  consider (dq) "c = dquote" | (bs) "c = bslash" | (nl) "c = newline" | (cr) "c = creturn"
    | (tb) "c = tab" | (bk) "c = CHR 0x08" | (ff) "c = CHR 0x0C"
    | (u) "c \<noteq> dquote" "c \<noteq> bslash" "c \<noteq> newline" "c \<noteq> creturn" "c \<noteq> tab"
          "c \<noteq> CHR 0x08" "c \<noteq> CHR 0x0C" "code c < 32 \<or> 127 \<le> code c"
    | (raw) "c \<noteq> dquote" "c \<noteq> bslash" "c \<noteq> newline" "c \<noteq> creturn" "c \<noteq> tab"
          "c \<noteq> CHR 0x08" "c \<noteq> CHR 0x0C" "\<not> (code c < 32 \<or> 127 \<le> code c)"
    by blast
  then show ?thesis
  proof cases
    case u
    then have "json_char c = bslash # CHR ''u'' # hex_width 4 (code c)"
      by (simp add: json_char_def)
    moreover have "take 4 (hex_width 4 (code c) @ r) = hex_width 4 (code c)"
      and "drop 4 (hex_width 4 (code c) @ r) = r"
      by (simp_all del: hex_width.simps)
    ultimately show ?thesis
      by (simp add: hexs_acc_hex4 code_def del: hex_width.simps)
  next
    case raw
    then have "json_char c = [c]" by (simp add: json_char_def)
    with raw show ?thesis by simp
  qed (simp_all add: json_char_def)
qed

lemma json_string_quote [roundtrip_simps]:
  "json_string (concat (map json_char s) @ dquote # rest) = Some (s, rest)"
  by (induction s) (simp_all add: json_string_char)

lemma json_digits:
  assumes f: "json_follow rest"
  shows "(case dec_str n @ rest of c # _ \<Rightarrow> if c = CHR ''0'' then [c]
            else takeWhile is_digit (dec_str n @ rest) | [] \<Rightarrow> []) = dec_str n"
proof (cases "n = 0")
  case True
  then show ?thesis by (simp add: dec_str_zero)
next
  case False
  obtain c cs where dc: "dec_str n = c # cs" using dec_str_Cons by blast
  with False have "c \<noteq> CHR ''0''" using dec_str_head [of n] by auto
  moreover have "takeWhile is_digit (dec_str n @ rest) = dec_str n"
    using f takeWhile_digits_dec_str [of rest n] by (auto simp: json_follow_def)
  ultimately show ?thesis using dc by simp
qed

lemma json_number_repr [roundtrip_simps]:
  assumes f: "json_follow rest"
  shows "json_number (py_repr_int i @ rest) = Some (i, rest)"
proof -
  have nd: "\<not> (drop (length (dec_str n)) (dec_str n @ rest) \<noteq> [] \<and>
      hd (drop (length (dec_str n)) (dec_str n @ rest)) \<in> {CHR ''.'', CHR ''e'', CHR ''E''})" for n
    using f by (auto simp: json_follow_def)
  show ?thesis
  proof (cases "i < 0")
    case True
    with nd [of "nat (- i)"] json_digits [OF f, of "nat (- i)"] show ?thesis
      by (simp add: json_number_def py_repr_int_def Let_def roundtrip_simps)
  next
    case False
    obtain c cs where dc: "dec_str (nat i) = c # cs" and "is_digit c" using dec_str_Cons by blast
    then have "c \<noteq> CHR ''-''" by auto
    with dc have split: "(case dec_str (nat i) @ rest of
        c # r \<Rightarrow> if c = CHR ''-'' then (True, r) else (False, dec_str (nat i) @ rest)
      | [] \<Rightarrow> (False, dec_str (nat i) @ rest)) = (False, dec_str (nat i) @ rest)"
      by simp
    from False nd [of "nat i"] json_digits [OF f, of "nat i"] show ?thesis
      by (simp add: json_number_def py_repr_int_def Let_def roundtrip_simps split)
  qed
qed

lemma skip_ws_nonws [simp]: "\<not> is_json_ws c \<Longrightarrow> skip_ws (c # r) = c # r"
  by (simp add: skip_ws_def)

lemma punct_not_ws [simp]:
  "\<not> is_json_ws (CHR '']'')" "\<not> is_json_ws (CHR ''}'')" "\<not> is_json_ws (CHR '','')"
  "\<not> is_json_ws (CHR '':'')" "\<not> is_json_ws dquote"
  by (simp_all add: is_json_ws_def)

lemma skip_ws_space [simp]: "skip_ws (space # r) = skip_ws r"
  by (simp add: skip_ws_def is_json_ws_def)

lemma json_dumps_head:
  "\<exists>c cs. json_dumps v = c # cs \<and> \<not> is_json_ws c \<and> c \<noteq> CHR '']'' \<and> c \<noteq> CHR ''}''"
proof (cases v)
  case (JInt i)
  obtain c cs where "py_repr_int i = c # cs" "c = CHR ''-'' \<or> is_digit c"
    using py_repr_int_head by blast
  with JInt show ?thesis by (auto simp: is_json_ws_def is_digit_def code_def)
qed (auto simp: json_quote_def is_json_ws_def)

lemma skip_ws_dumps [simp]: "skip_ws (json_dumps v @ r) = json_dumps v @ r"
  using json_dumps_head [of v] by auto

lemma follow_close [simp]:
  "json_follow (CHR '']'' # r)" "json_follow (CHR ''}'' # r)" "json_follow (CHR '','' # r)"
  by (simp_all add: json_follow_def is_digit_def code_def)

lemma json_elems_dumps:
  assumes IH: "\<And>x m r. x \<in> set xs \<Longrightarrow> jfuel x \<le> m \<Longrightarrow> json_follow r \<Longrightarrow>
                 json_value m (json_dumps x @ r) = Some (x, r)"
    and ne: "xs \<noteq> []" and fuel: "sum_list (map (\<lambda>x. Suc (jfuel x)) xs) \<le> m"
  shows "json_elems m acc (join '', '' (map json_dumps xs) @ CHR '']'' # rest) = Some (acc @ xs, rest)"
  using IH ne fuel
proof (induction xs arbitrary: acc m)
  case Nil
  then show ?case by simp
next
  case (Cons x xs)
  from Cons.prems(3) obtain m' where m: "m = Suc m'" and fx: "jfuel x \<le> m'"
    by (cases m) auto
  show ?case
  proof (cases xs)
    case Nil
    with Cons.prems(1) [of x m' "CHR '']'' # rest"] m fx show ?thesis by simp
  next
    case (Cons y ys)
    let ?t = "join '', '' (map json_dumps xs) @ CHR '']'' # rest"
    have vx: "json_value m' (json_dumps x @ '', '' @ ?t) = Some (x, '', '' @ ?t)"
      using Cons.prems(1) [of x m' "'', '' @ ?t"] fx by simp
    have jy: "join '', '' (map json_dumps xs) = json_dumps y @ (if ys = [] then [] else '', '' @ join '', '' (map json_dumps ys))"
      using Cons by (cases ys) auto
    have sk: "skip_ws ?t = ?t" by (simp add: jy)
    have "json_elems m' (acc @ [x]) ?t = Some (acc @ [x] @ xs, rest)"
      using \<open>x # xs \<noteq> []\<close> Cons.IH [of m' "acc @ [x]"] Cons.prems Cons m by simp
    with vx sk m \<open>xs = y # ys\<close> show ?thesis by simp
  qed
qed

lemma json_entry_quote:
  "json_entry (k, v) = dquote # concat (map json_char k) @ dquote # '': '' @ json_dumps v"
  by (simp add: json_entry_def json_quote_def)

lemma json_dumps_JObj: "json_dumps (JObj kvs) = ''{'' @ join '', '' (map json_entry kvs) @ ''}''"
proof -
  have "json_entry = (\<lambda>(k, v). json_quote k @ '': '' @ json_dumps v)"
    by (auto simp: json_entry_def fun_eq_iff)
  then show ?thesis by simp
qed

lemma join_Cons: "join sep (x # xs) = x @ (if xs = [] then [] else sep @ join sep xs)"
  by (cases xs) simp_all

lemma json_members_dumps:
  assumes IH: "\<And>kv m r. kv \<in> set kvs \<Longrightarrow> jfuel (snd kv) \<le> m \<Longrightarrow> json_follow r \<Longrightarrow>
                 json_value m (json_dumps (snd kv) @ r) = Some (snd kv, r)"
    and ne: "kvs \<noteq> []" and fuel: "sum_list (map (\<lambda>kv. Suc (jfuel (snd kv))) kvs) \<le> m"
    and tx: "join '', '' (map json_entry kvs) @ CHR ''}'' # rest = dquote # x"
  shows "json_members m acc x = Some (acc @ kvs, rest)"
  using IH ne fuel tx
proof (induction kvs arbitrary: acc m x)
  case Nil
  then show ?case by simp
next
  case (Cons kv kvs)
  obtain k v where kv: "kv = (k, v)" by force
  from Cons.prems(3) obtain m' where m: "m = Suc m'" and fv: "jfuel v \<le> m'"
    by (cases m) (auto simp: kv)
  let ?t = "join '', '' (map json_entry kvs) @ CHR ''}'' # rest"
  let ?after = "if kvs = [] then CHR ''}'' # rest else '', '' @ ?t"
  have x: "x = concat (map json_char k) @ dquote # '': '' @ json_dumps v @ ?after"
    using Cons.prems(4) kv by (cases kvs) (simp_all add: json_entry_quote)
  have fa: "json_follow ?after" by simp
  have vv: "json_value m' (json_dumps v @ ?after) = Some (v, ?after)"
    using Cons.prems(1) [of kv m' ?after] kv fv fa by simp
  show ?case
  proof (cases kvs)
    case Nil
    with x vv m kv show ?thesis by (simp add: roundtrip_simps)
  next
    case (Cons kv2 kvs2)
    have tq: "?t = dquote # tl ?t"
      using Cons by (cases kv2) (simp add: join_Cons json_entry_quote)
    have "json_members m' (acc @ [kv]) (tl ?t) = Some (acc @ [kv] @ kvs, rest)"
      using Cons.IH [of m' "tl ?t" "acc @ [kv]"] \<open>kv # kvs \<noteq> []\<close> Cons.prems m tq \<open>kvs = kv2 # kvs2\<close>
      by simp
    moreover have sk: "skip_ws ?t = dquote # tl ?t"
      using tq by (metis skip_ws_nonws punct_not_ws(5))
    ultimately show ?thesis
      using x vv m kv \<open>kvs = kv2 # kvs2\<close> by (simp add: roundtrip_simps)
  qed
qed

lemma json_value_dumps:
  "json_wf v \<Longrightarrow> jfuel v \<le> n \<Longrightarrow> json_follow rest \<Longrightarrow>
   json_value n (json_dumps v @ rest) = Some (v, rest)"
proof (induction v arbitrary: n rest rule: jfuel.induct)
  case (1 xs)
  then obtain m where n: "n = Suc m" and fm: "sum_list (map (\<lambda>x. Suc (jfuel x)) xs) \<le> m"
    by (cases n) auto
  show ?case
  proof (cases xs)
    case Nil
    with n show ?thesis by simp
  next
    case (Cons x xs')
    obtain c cs where h: "json_dumps x = c # cs" "\<not> is_json_ws c" "c \<noteq> CHR '']''"
      using json_dumps_head [of x] by blast
    have IH: "json_value m' (json_dumps y @ r) = Some (y, r)"
      if "y \<in> set xs" "jfuel y \<le> m'" "json_follow r" for y m' r
      using "1.IH" [OF that(1) _ that(2,3)] "1.prems"(1) that(1) by (simp add: list_all_iff)
    have el: "json_elems m [] (join '', '' (map json_dumps xs) @ CHR '']'' # rest) = Some (xs, rest)"
      using json_elems_dumps [of xs m "[]" rest, OF IH] fm Cons by simp
    have "join '', '' (map json_dumps xs) @ CHR '']'' # rest = c # (cs @ (if xs' = [] then [] else '', '' @ join '', '' (map json_dumps xs')) @ CHR '']'' # rest)"
      using Cons h by (simp add: join_Cons)
    with el h n show ?thesis by simp
  qed
next
  case (2 kvs)
  then obtain m where n: "n = Suc m" and fm: "sum_list (map (\<lambda>kv. Suc (jfuel (snd kv))) kvs) \<le> m"
    by (cases n) auto
  show ?case
  proof (cases kvs)
    case Nil
    with n show ?thesis by simp
  next
    case (Cons kv kvs')
    let ?t = "join '', '' (map json_entry kvs) @ CHR ''}'' # rest"
    have tq: "?t = dquote # tl ?t"
      using Cons by (cases kv) (simp add: join_Cons json_entry_quote)
    have IH: "json_value m' (json_dumps (snd y) @ r) = Some (snd y, r)"
      if "y \<in> set kvs" "jfuel (snd y) \<le> m'" "json_follow r" for y m' r
      using "2.IH" [OF that(1) _ that(2,3)] "2.prems"(1) that(1) by (simp add: list_all_iff)
    have mem: "json_members m [] (tl ?t) = Some (kvs, rest)"
      using json_members_dumps [of kvs m rest "tl ?t" "[]", OF IH] fm Cons tq by simp
    have "skip_ws ?t = dquote # tl ?t"
      using tq by (metis skip_ws_nonws punct_not_ws(5))
    with mem n "2.prems"(1) show ?thesis
      by (simp add: json_dumps_JObj dict_of_pairs_distinct del: json_dumps.simps(6))
  qed
next
  case 3
  then show ?case by (cases n) (simp_all add: json_lit_def)
next
  case (4 b)
  then show ?case by (cases n) (simp_all add: json_lit_def)
next
  case (5 i)
  obtain c cs where h: "py_repr_int i = c # cs" "c = CHR ''-'' \<or> is_digit c"
    using py_repr_int_head by blast
  then have "c \<noteq> dquote \<and> c \<noteq> CHR ''{'' \<and> c \<noteq> CHR ''['' \<and> c \<noteq> CHR ''n'' \<and> c \<noteq> CHR ''t'' \<and> c \<noteq> CHR ''f''"
    by (auto simp: is_digit_def code_def)
  with h "5.prems" show ?case
    using json_number_repr [of rest i] by (cases n) simp_all
next
  case (6 s)
  then show ?case by (cases n) (simp_all add: json_quote_def roundtrip_simps)
qed

lemma length_join: "xs \<noteq> [] \<Longrightarrow> length (join sep xs) + length sep = sum_list (map (\<lambda>x. length x + length sep) xs)"
  by (induction sep xs rule: join.induct) auto

lemma jfuel_le_length: "jfuel v \<le> length (json_dumps v)"
proof (induction v rule: jfuel.induct)
  case (1 xs)
  show ?case
  proof (cases xs)
    case Nil
    then show ?thesis by simp
  next
    case (Cons x xs')
    have A: "sum_list (map (\<lambda>x. Suc (jfuel x)) xs) \<le> sum_list (map (\<lambda>x. Suc (length (json_dumps x))) xs)"
      using "1.IH" by (intro sum_list_mono) simp
    have B: "sum_list (map (\<lambda>x. length x + 2) ys) = sum_list (map (\<lambda>x. Suc (length x)) ys) + length ys" for ys :: "string list"
      by (induction ys) auto
    from length_join [of "map json_dumps xs" "'', ''"] B [of "map json_dumps xs"] A Cons show ?thesis
      by (simp add: comp_def)
  qed
next
  case (2 kvs)
  show ?case
  proof (cases kvs)
    case Nil
    then show ?thesis by simp
  next
    case (Cons kv kvs')
    have le: "jfuel (snd kv) \<le> length (json_entry kv)" if "kv \<in> set kvs" for kv
      using "2.IH" [OF that] by (cases kv) (simp add: json_entry_quote)
    have A: "sum_list (map (\<lambda>kv. Suc (jfuel (snd kv))) kvs) \<le> sum_list (map (\<lambda>kv. Suc (length (json_entry kv))) kvs)"
      using le by (intro sum_list_mono) simp
    have B: "sum_list (map (\<lambda>x. length x + 2) ys) = sum_list (map (\<lambda>x. Suc (length x)) ys) + length ys" for ys :: "string list"
      by (induction ys) auto
    from length_join [of "map json_entry kvs" "'', ''"] B [of "map json_entry kvs"] A Cons show ?thesis
      by (simp add: json_dumps_JObj comp_def del: json_dumps.simps(6))
  qed
next
  case (5 i)
  obtain c cs where "py_repr_int i = c # cs" using py_repr_int_head by blast
  then show ?case by simp
qed (auto simp: json_quote_def)

lemma json_loads_dumps [roundtrip_simps]: "json_wf v \<Longrightarrow> json_loads (json_dumps v) = Some v"
  using json_value_dumps [of v "Suc (length (json_dumps v))" "[]"] jfuel_le_length [of v]
    skip_ws_dumps [of v "[]"]
  by (simp add: json_loads_def json_follow_def skip_ws_def)

text \<open>whatever \<open>json.load\<close> reads can be written back. Every value
  \<open>json_loads\<close> returns, from any text, is well-formed (its objects have distinct keys
  at every depth), and \<open>json_dumps\<close> prints it as a text that \<open>json_loads\<close> reads back
  as the same value.\<close>

lemma json_loads_dumps_loads:
  assumes "json_loads s = Some v"
  shows "json_wf v \<and> json_loads (json_dumps v) = Some v"
  using json_loads_wf [OF assms] json_loads_dumps by blast

end
