(* ===== verification/World.thy ===== *)
theory World
  imports Complex_Main Json
begin

text \<open>
  The environment of src/AutoPyFunc.py as an explicit state, threaded through every
  operation: the file system (the cache file, the input and output files), the clock
  read by \<open>time.time()\<close>, the HTTP endpoints called through \<open>requests\<close> and
  \<open>httpx\<close>, the log written by \<open>logging\<close>, standard input and output.
  \<^item> The clock and the endpoints are oracles: the \<open>n\<close>-th reading of the clock is
    \<open>clock w n\<close>, the \<open>n\<close>-th HTTP request \<open>req\<close> is answered by
    \<open>http w n req\<close>. Every request is recorded in \<open>requests\<close>, so that the number of
    calls to the generation backend is a function of the final state.
  \<^item> \<open>py_compiles\<close> is the answer of \<open>compile(code, '<string>', 'exec')\<close>,
    \<open>py_parse\<close> that of \<open>ast.parse\<close>, \<open>py_unparse\<close> that of
    \<open>astunparse.unparse\<close>: Python's grammar is a parameter of the model, not modelled.
  \<^item> An operation that may raise returns \<open>py_exc + 'a\<close> with the state after the
    effects performed before the exception; \<open>pbind\<close> sequences two such operations as
    consecutive Python statements do.
\<close>

datatype py_exc = AttributeError | TypeError | OSError | SyntaxError | SystemExit int

datatype fentry = Missing | Stored string | Unreadable

text \<open>The value of \<open>self.token\<close>: what \<open>get_token\<close> returned. \<open>TokNone\<close> is the
  implicit \<open>None\<close> of a 200 reply without a \<open>token\<close> field; \<open>TokError\<close> the
  \<open>{"error": ...}\<close> dict.\<close>

datatype token_error = ErrStatus int | ErrException
datatype token = TokValue json | TokNone | TokError token_error

datatype http_req = TokenRequest | CompletionRequest token string

datatype http_resp = HttpRaised | HttpReply int string

text \<open>One constructor per logging call of the source, in the order they appear.\<close>

datatype log_event =
    LogSite nat nat pyconst            \<comment> \<open>line 58\<close>
  | LogSiteNamed nat nat pyconst pyconst \<comment> \<open>line 63\<close>
  | LogWrongArity nat nat              \<comment> \<open>line 65\<close>
  | LogGenerated json                  \<comment> \<open>line 75\<close>
  | LogGenFailed                       \<comment> \<open>line 112\<close>
  | LogLoadFailed                      \<comment> \<open>line 122\<close>
  | LogSaveFailed                      \<comment> \<open>line 133\<close>
  | LogReadFailed                      \<comment> \<open>line 140\<close>
  | LogWriteFailed                     \<comment> \<open>line 153\<close>

datatype expr =
    Name pyconst
  | Constant pyconst
  | Call nat nat expr "expr list" "(string option \<times> expr) list"
  | Node string "expr list"

record world =
  files :: "string \<Rightarrow> fentry"
  read_only :: "string \<Rightarrow> bool"
  clock :: "nat \<Rightarrow> rat"
  clock_reads :: nat
  http :: "nat \<Rightarrow> http_req \<Rightarrow> http_resp"
  requests :: "http_req list"
  log :: "log_event list"
  stdin_line :: string
  stdout :: "string list"
  py_compiles :: "string \<Rightarrow> bool"
  py_parse :: "string \<Rightarrow> expr option"
  py_unparse :: "expr \<Rightarrow> string"

subsection \<open>Primitive effects\<close>

definition time_now :: "'z world_scheme \<Rightarrow> rat \<times> 'z world_scheme" where
  "time_now w = (clock w (clock_reads w), w\<lparr>clock_reads := Suc (clock_reads w)\<rparr>)"

definition http_send :: "http_req \<Rightarrow> 'z world_scheme \<Rightarrow> http_resp \<times> 'z world_scheme" where
  "http_send req w = (http w (length (requests w)) req, w\<lparr>requests := requests w @ [req]\<rparr>)"

definition log_append :: "log_event \<Rightarrow> 'z world_scheme \<Rightarrow> 'z world_scheme" where
  "log_append e w = w\<lparr>log := log w @ [e]\<rparr>"

definition path_exists :: "string \<Rightarrow> 'z world_scheme \<Rightarrow> bool" where
  "path_exists p w \<longleftrightarrow> files w p \<noteq> Missing"

text \<open>\<open>open(p, 'r').read()\<close>.\<close>

definition read_file :: "string \<Rightarrow> 'z world_scheme \<Rightarrow> py_exc + string" where
  "read_file p w = (case files w p of Stored t \<Rightarrow> Inr t | _ \<Rightarrow> Inl OSError)"

text \<open>\<open>open(p, 'w').write(t)\<close>: opening fails on a read-only path and leaves the
  file as it was.\<close>

definition write_file :: "string \<Rightarrow> string \<Rightarrow> 'z world_scheme \<Rightarrow> (py_exc + unit) \<times> 'z world_scheme" where
  "write_file p t w =
     (if read_only w p then (Inl OSError, w) else (Inr (), w\<lparr>files := (files w)(p := Stored t)\<rparr>))"

subsection \<open>Sequencing statements that may raise\<close>

definition pbind :: "('s \<Rightarrow> (py_exc + 'a) \<times> 's) \<Rightarrow> ('a \<Rightarrow> 's \<Rightarrow> (py_exc + 'b) \<times> 's)
    \<Rightarrow> 's \<Rightarrow> (py_exc + 'b) \<times> 's" where
  "pbind m f s = (case m s of (Inl e, s') \<Rightarrow> (Inl e, s') | (Inr a, s') \<Rightarrow> f a s')"

definition pret :: "'a \<Rightarrow> 's \<Rightarrow> (py_exc + 'a) \<times> 's" where
  "pret a s = (Inr a, s)"

text \<open>The calls to the generation backend among the requests a world has recorded.\<close>

fun is_completion :: "http_req \<Rightarrow> bool" where
  "is_completion (CompletionRequest t p) = True"
| "is_completion TokenRequest = False"

definition completions :: "'z world_scheme \<Rightarrow> nat" where
  "completions w = length (filter is_completion (requests w))"

definition token_requests :: "'z world_scheme \<Rightarrow> nat" where
  "token_requests w = length (filter (\<lambda>r. r = TokenRequest) (requests w))"


text \<open>The parts of the world no statement of the program changes: which paths are
  writable, the clock, the endpoints, and Python's compiler, parser and unparser.\<close>

definition oracles :: "'z world_scheme \<Rightarrow> (string \<Rightarrow> bool) \<times> (nat \<Rightarrow> rat)
    \<times> (nat \<Rightarrow> http_req \<Rightarrow> http_resp) \<times> (string \<Rightarrow> bool) \<times> (string \<Rightarrow> expr option) \<times> (expr \<Rightarrow> string)" where
  "oracles w = (read_only w, clock w, http w, py_compiles w, py_parse w, py_unparse w)"

subsection \<open>Properties of the effects\<close>

lemma oracles_update [simp]:
  "oracles (w\<lparr>files := f\<rparr>) = oracles w" "oracles (w\<lparr>clock_reads := n\<rparr>) = oracles w"
  "oracles (w\<lparr>requests := rs\<rparr>) = oracles w" "oracles (w\<lparr>log := l\<rparr>) = oracles w"
  "oracles (w\<lparr>stdout := out\<rparr>) = oracles w"
  by (simp_all add: oracles_def)

lemma oracles_effects [simp]:
  "oracles (snd (time_now w)) = oracles w" "oracles (snd (http_send req w)) = oracles w"
  "oracles (log_append e w) = oracles w" "oracles (snd (write_file p t w)) = oracles w"
  by (simp_all add: time_now_def http_send_def log_append_def write_file_def)

lemma oracles_eqD:
  assumes "oracles w' = oracles w"
  shows "read_only w' = read_only w" "clock w' = clock w" "http w' = http w"
    "py_compiles w' = py_compiles w" "py_parse w' = py_parse w" "py_unparse w' = py_unparse w"
  using assms by (simp_all add: oracles_def)


lemma pbind_Inr [simp]: "m s = (Inr a, s') \<Longrightarrow> pbind m f s = f a s'"
  by (simp add: pbind_def)

lemma pbind_Inl [simp]: "m s = (Inl e, s') \<Longrightarrow> pbind m f s = (Inl e, s')"
  by (simp add: pbind_def)

lemma pbind_pret [simp]: "pbind (pret a) f s = f a s"
  by (simp add: pbind_def pret_def)

lemma pbind_cases:
  assumes "pbind m f s = r"
  obtains e s' where "m s = (Inl e, s')" "r = (Inl e, s')"
        | a s' where "m s = (Inr a, s')" "f a s' = r"
  using assms by (cases "m s" rule: prod.exhaust; cases "fst (m s)") (auto simp: pbind_def)

lemmas world_simps [model_simps] =
  time_now_def http_send_def log_append_def path_exists_def read_file_def write_file_def

end
