(* ===== verification/CacheStore.thy ===== *)
theory CacheStore
  imports World
begin

text \<open>
  The Cache Store of src/AutoPyFunc.py: the \<open>function_cache\<close> dict of a
  \<open>SidFunctionTransformer\<close>, loaded from \<open>CACHE_FILE\<close> by \<open>load_cache\<close>
  (lines 115-125) and written back by \<open>save_cache\<close> (lines 127-133) after every miss.
  \<^item> \<open>tstate\<close> is the transformer object (\<open>function_codes\<close>,
    \<open>function_cache\<close>, \<open>token\<close>, \<open>token_time\<close>) together with the world it acts on,
    as a record extending \<open>world\<close>.
  \<^item> A cache entry maps a key \<open>(function_name, description)\<close> to the value stored for
    it: a \<open>str\<close> when generated, any JSON value when loaded from a hand-edited file.
  \<^item> \<open>load_cache\<close> falls back to an empty cache, logging an error, when the file cannot
    be read, is not JSON, is not an object, or has a key that \<open>eval\<close> does not turn
    into a key; a missing file gives an empty cache silently. \<open>save_cache\<close> logs and
    swallows a failed write.
  The main results: saving and loading again gives back the cache (the persisted cache
  survives a run), and each error branch leaves the state the code leaves.
\<close>

record tstate = world +
  function_codes :: "json list"
  function_cache :: "(gen_key \<times> json) list"
  token :: token
  token_time :: rat

definition CACHE_FILE :: string where
  "CACHE_FILE = ''function_cache.json''"

text \<open>\<open>{eval(k): v for k, v in read_cache.items()}\<close>, before the dict is built:
  \<open>None\<close> when some \<open>eval(k)\<close> raises.\<close>

fun decode_entries :: "(string \<times> json) list \<Rightarrow> (gen_key \<times> json) list option" where
  "decode_entries [] = Some []"
| "decode_entries ((k, v) # kvs) =
     (case decode_key k of
       None \<Rightarrow> None
     | Some key \<Rightarrow> map_option (\<lambda>ps. (key, v) # ps) (decode_entries kvs))"

definition load_failed :: "'z tstate_scheme \<Rightarrow> 'z tstate_scheme" where
  "load_failed s = (log_append LogLoadFailed s)\<lparr>function_cache := []\<rparr>"

definition load_cache :: "'z tstate_scheme \<Rightarrow> 'z tstate_scheme" where
  "load_cache s =
     (if path_exists CACHE_FILE s then
        (case read_file CACHE_FILE s of
          Inr txt \<Rightarrow>
            (case json_loads txt of
              Some (JObj kvs) \<Rightarrow>
                (case decode_entries kvs of
                  Some ps \<Rightarrow> s\<lparr>function_cache := dict_of_pairs ps\<rparr>
                | None \<Rightarrow> load_failed s)
            | _ \<Rightarrow> load_failed s)
        | Inl _ \<Rightarrow> load_failed s)
      else s\<lparr>function_cache := []\<rparr>)"

text \<open>The text \<open>json.dump\<close> writes for the dict
  \<open>{str((fname, desc)): code for (fname, desc), code in cache.items()}\<close>.\<close>

definition cache_text :: "(gen_key \<times> json) list \<Rightarrow> string" where
  "cache_text c = json_dumps (JObj (dict_of_pairs (map (\<lambda>(k, v). (encode_key k, v)) c)))"

definition save_cache :: "'z tstate_scheme \<Rightarrow> 'z tstate_scheme" where
  "save_cache s =
     (case write_file CACHE_FILE (cache_text (function_cache s)) s of
       (Inl _, s') \<Rightarrow> log_append LogSaveFailed s'
     | (Inr _, s') \<Rightarrow> s')"

text \<open>The invariant of the cache: a dict (distinct keys) of values \<open>json.dump\<close>
  prints and \<open>json.load\<close> reads back (objects inside with distinct keys).\<close>

definition cache_wf :: "(gen_key \<times> json) list \<Rightarrow> bool" where
  "cache_wf c \<longleftrightarrow> distinct (map fst c) \<and> list_all (\<lambda>kv. json_wf (snd kv)) c"

subsection \<open>Properties\<close>

lemma encode_key_eq_iff: "encode_key a = encode_key b \<longleftrightarrow> a = b"
  by (metis decode_encode_key option.inject)

lemma map_fst_encoded: "map fst (map (\<lambda>(k, v). (encode_key k, v)) c) = map encode_key (map fst c)"
  by (induction c) auto

lemma distinct_encoded_keys:
  "distinct (map fst c) \<Longrightarrow> distinct (map fst (map (\<lambda>(k, v). (encode_key k, v)) c))"
  unfolding map_fst_encoded distinct_map by (simp add: inj_on_def encode_key_eq_iff)

lemma decode_entries_encoded [roundtrip_simps]:
  "decode_entries (map (\<lambda>(k, v). (encode_key k, v)) c) = Some c"
proof (induction c)
  case (Cons kv c)
  then show ?case by (cases kv) (simp add: decode_encode_key)
qed simp

lemma cache_text_loads:
  assumes "cache_wf c"
  shows "json_loads (cache_text c) = Some (JObj (map (\<lambda>(k, v). (encode_key k, v)) c))"
proof -
  let ?kvs = "map (\<lambda>(k, v). (encode_key k, v)) c"
  have d: "distinct (map fst ?kvs)"
    using assms distinct_encoded_keys by (auto simp: cache_wf_def)
  moreover have "list_all (\<lambda>kv. json_wf (snd kv)) ?kvs"
    using assms by (auto simp: cache_wf_def list_all_iff)
  ultimately have "json_wf (JObj ?kvs)" by simp
  then have "json_loads (json_dumps (JObj ?kvs)) = Some (JObj ?kvs)" by (rule json_loads_dumps)
  with d show ?thesis
    by (simp only: cache_text_def dict_of_pairs_distinct)
qed

lemma save_cache_writes:
  "\<not> read_only s CACHE_FILE \<Longrightarrow>
   save_cache s = s\<lparr>files := (files s)(CACHE_FILE := Stored (cache_text (function_cache s)))\<rparr>"
  by (simp add: save_cache_def write_file_def)

lemma save_cache_read_only:
  "read_only s CACHE_FILE \<Longrightarrow> save_cache s = log_append LogSaveFailed s"
  by (simp add: save_cache_def write_file_def)

lemma save_cache_function_cache [simp]: "function_cache (save_cache s) = function_cache s"
  by (simp add: save_cache_def write_file_def log_append_def split: prod.splits sum.splits)

lemma save_cache_requests [simp]: "requests (save_cache s) = requests s"
  by (simp add: save_cache_def write_file_def log_append_def split: prod.splits sum.splits)

lemma log_save_cache:
  "log (save_cache s) = log s @ (if read_only s CACHE_FILE then [LogSaveFailed] else [])"
  by (simp add: save_cache_def write_file_def log_append_def)

lemma save_cache_function_codes [simp]: "function_codes (save_cache s) = function_codes s"
  by (simp add: save_cache_def write_file_def log_append_def split: prod.splits sum.splits)

lemma save_cache_token [simp]:
  "token (save_cache s) = token s" "token_time (save_cache s) = token_time s"
  "clock_reads (save_cache s) = clock_reads s" "http (save_cache s) = http s"
  "clock (save_cache s) = clock s" "read_only (save_cache s) = read_only s"
  "py_compiles (save_cache s) = py_compiles s"
  by (simp_all add: save_cache_def write_file_def log_append_def split: prod.splits sum.splits)

lemma cache_wf_dict_set: "cache_wf c \<Longrightarrow> json_wf v \<Longrightarrow> cache_wf (dict_set c k v)"
  by (auto simp: cache_wf_def)

lemma oracles_tstate [simp]:
  "oracles (s\<lparr>function_cache := c\<rparr>) = oracles s" "oracles (s\<lparr>function_codes := fs\<rparr>) = oracles s"
  "oracles (s\<lparr>token := t, token_time := tt\<rparr>) = oracles s"
  by (simp_all add: oracles_def)

lemma oracles_save_cache [simp]: "oracles (save_cache s) = oracles s"
  by (simp add: save_cache_def write_file_def)

lemma oracles_load_cache [simp]: "oracles (load_cache s) = oracles s"
  by (simp add: load_cache_def load_failed_def split: sum.split option.split json.split)

lemma files_save_cache: "p \<noteq> CACHE_FILE \<Longrightarrow> files (save_cache s) p = files s p"
  by (simp add: save_cache_def write_file_def log_append_def split: prod.split sum.split)

lemma files_load_cache [simp]: "files (load_cache s) = files s"
  by (simp add: load_cache_def load_failed_def log_append_def split: sum.split option.split json.split)

lemma load_cache_same_file:
  "files s CACHE_FILE = files s' CACHE_FILE \<Longrightarrow> function_cache (load_cache s) = function_cache (load_cache s')"
  by (simp add: load_cache_def path_exists_def read_file_def load_failed_def log_append_def
      split: fentry.split option.split json.split)

lemma load_cache_text:
  assumes "files s CACHE_FILE = Stored (cache_text c)" and "cache_wf c"
  shows "function_cache (load_cache s) = c"
proof -
  have "distinct (map fst c)" using assms(2) by (simp add: cache_wf_def)
  then show ?thesis
    using assms cache_text_loads [OF assms(2)]
    by (simp add: load_cache_def path_exists_def read_file_def decode_entries_encoded dict_of_pairs_distinct)
qed

lemma decode_entries_values: "decode_entries kvs = Some ps \<Longrightarrow> map snd ps = map snd kvs"
proof (induction kvs arbitrary: ps)
  case (Cons kv kvs)
  then show ?case by (cases kv) (auto split: option.split_asm)
qed simp

lemma load_cache_wf: "cache_wf (function_cache (load_cache s))"
proof -
  have "cache_wf (dict_of_pairs ps)" if "json_loads t = Some (JObj kvs)" "decode_entries kvs = Some ps" for t kvs ps
  proof -
    have "list_all (\<lambda>kv. json_wf (snd kv)) kvs" using json_loads_wf [OF that(1)] by simp
    then have "\<forall>x\<in>set (map snd ps). json_wf x"
      using decode_entries_values [OF that(2)] by (simp add: list_all_iff)
    then show ?thesis
      using set_dict_of_pairs [of ps] distinct_dict_of_pairs [of ps]
      by (auto simp: cache_wf_def list_all_iff)
  qed
  then show ?thesis
    by (auto simp: load_cache_def load_failed_def log_append_def cache_wf_def
        split: sum.split option.split json.split)
qed

text \<open>C4: the cache survives a run. After \<open>save_cache\<close> has written a well-formed
  cache to a writable \<open>CACHE_FILE\<close>, \<open>load_cache\<close> (the next run's constructor)
  reads back exactly the same entries in the same order, without logging an error; this
  holds for every key, whatever quotes, backslashes or separators its name and
  description contain.\<close>

theorem load_save_cache:
  assumes wf: "cache_wf (function_cache s)" and w: "\<not> read_only s CACHE_FILE"
  shows "function_cache (load_cache (save_cache s)) = function_cache s
         \<and> log (load_cache (save_cache s)) = log s"
proof -
  let ?c = "function_cache s"
  have "distinct (map fst ?c)" using wf by (simp add: cache_wf_def)
  then show ?thesis
    using cache_text_loads [OF wf] w
    by (simp add: save_cache_writes load_cache_def path_exists_def read_file_def
                  decode_entries_encoded dict_of_pairs_distinct)
qed

text \<open>C20: a cache file that is JSON but not an object is discarded. When
  \<open>CACHE_FILE\<close> holds a JSON list, string, number, boolean or \<open>null\<close>,
  \<open>read_cache.items()\<close> raises, and \<open>load_cache\<close> logs the failure and starts from an
  empty cache.\<close>

theorem load_cache_not_object:
  assumes "files s CACHE_FILE = Stored t" and "json_loads t = Some v" and "\<forall>kvs. v \<noteq> JObj kvs"
  shows "load_cache s = (log_append LogLoadFailed s)\<lparr>function_cache := []\<rparr>"
  using assms by (cases v) (simp_all add: load_cache_def path_exists_def read_file_def load_failed_def)

end
