(* ===== verification/Generation.thy ===== *)
theory Generation
  imports CacheStore
begin

text \<open>
  The Generation Client of src/AutoPyFunc.py: \<open>get_token\<close> (lines 25-42) and
  \<open>SidFunctionTransformer.generate_function\<close> (lines 81-113).
  \<^item> \<open>get_token\<close> asks the token endpoint once. A 200 reply whose JSON has a
    \<open>token\<close> member gives that value; a 200 reply without one falls off the end of the
    function and gives \<open>None\<close> (\<open>TokNone\<close>); any other status, and any exception,
    gives the \<open>{"error": ...}\<close> dict (\<open>TokError\<close>). \<open>'token' in json\<close> follows
    Python on every JSON value (key of a dict, element of a list, substring of a str,
    TypeError otherwise).
  \<^item> \<open>generate_function\<close> refreshes the token when more than 600 seconds have passed
    since \<open>token_time\<close>, sends one completion request carrying the token and the
    prompt, and returns: the text \<open>Response 404\<close> for any status other than 200;
    otherwise the first fenced code block of the reply's
    \<open>["choices"][0]["message"]["content"]\<close> (or the whole content) when it compiles;
    the empty string, logging an error, on every other failure.
  \<^item> \<open>extract_code_block\<close> is \<open>re.search(r'```.*?\n(.*?)```', code, re.DOTALL)\<close>
    with its first group: the leftmost fence decides, and both lazy stars stop at the
    first newline and the next fence.
\<close>

text \<open>The index of the first occurrence of \<open>needle\<close> in a text.\<close>

fun find_sub :: "string \<Rightarrow> string \<Rightarrow> nat option" where
  "find_sub needle [] = (if needle = [] then Some 0 else None)"
| "find_sub needle (c # cs) =
     (if take (length needle) (c # cs) = needle then Some 0 else map_option Suc (find_sub needle cs))"

definition fence :: string where
  "fence = ''```''"

definition extract_code_block :: "string \<Rightarrow> string" where
  "extract_code_block txt =
     (case find_sub fence txt of
       None \<Rightarrow> txt
     | Some i \<Rightarrow>
         (let t = drop (i + 3) txt in
          case find_sub [newline] t of
            None \<Rightarrow> txt
          | Some j \<Rightarrow>
              (let u = drop (j + 1) t in
               case find_sub fence u of
                 None \<Rightarrow> txt
               | Some k \<Rightarrow> take k u)))"

text \<open>The regex of line 107 as Python's matcher reads it. A match of
  \<open>```.*?\n(.*?)```\<close> under \<open>re.DOTALL\<close> is a triple \<open>(i, j, k)\<close>: the opening fence at
  \<open>i\<close>, the newline that ends \<open>.*?\<close> at \<open>j\<close>, and the closing fence at \<open>k\<close>. \<open>.\<close> matches
  every character, so nothing else is required of the text between them.\<close>

definition regex_match_at :: "string \<Rightarrow> nat \<Rightarrow> nat \<Rightarrow> nat \<Rightarrow> bool" where
  "regex_match_at txt i j k \<longleftrightarrow>
     take 3 (drop i txt) = fence \<and> i + 3 \<le> j \<and> take 1 (drop j txt) = [newline] \<and> j < k
     \<and> take 3 (drop k txt) = fence"

text \<open>\<open>re.search\<close> tries the start positions from the left. At each one, backtracking
  tries the lazy \<open>.*?\<close> with the fewest characters first, and then the lazy group with
  the fewest. The match it returns is therefore the first triple in lexicographic order.\<close>

definition regex_search :: "string \<Rightarrow> (nat \<times> nat \<times> nat) option" where
  "regex_search txt =
     (let ns = [0..<Suc (length txt)]
      in find (\<lambda>(i, j, k). regex_match_at txt i j k) [(i, j, k). i \<leftarrow> ns, j \<leftarrow> ns, k \<leftarrow> ns])"

text \<open>Line 108: \<open>code_blocks.group(1) if code_blocks else code\<close>.\<close>

definition extract_code_block_ref :: "string \<Rightarrow> string" where
  "extract_code_block_ref txt =
     (case regex_search txt of
       None \<Rightarrow> txt
     | Some (i, j, k) \<Rightarrow> take (k - Suc j) (drop (Suc j) txt))"

text \<open>\<open>'token' in j\<close>; \<open>None\<close> is the TypeError of a value that is not a container.\<close>

fun token_in :: "json \<Rightarrow> bool option" where
  "token_in (JObj kvs) = Some (''token'' \<in> set (map fst kvs))"
| "token_in (JArr xs) = Some (JStr ''token'' \<in> set xs)"
| "token_in (JStr s) = Some (find_sub ''token'' s \<noteq> None)"
| "token_in _ = None"

text \<open>\<open>j[k]\<close> with a str key and \<open>j[0]\<close>; \<open>None\<close> is the KeyError, IndexError or
  TypeError Python raises.\<close>

fun py_getitem :: "json \<Rightarrow> string \<Rightarrow> json option" where
  "py_getitem (JObj kvs) k = map_of kvs k"
| "py_getitem _ k = None"

fun py_getitem_0 :: "json \<Rightarrow> json option" where
  "py_getitem_0 (JArr (x # xs)) = Some x"
| "py_getitem_0 (JStr (c # cs)) = Some (JStr [c])"
| "py_getitem_0 _ = None"

definition get_token :: "'z world_scheme \<Rightarrow> token \<times> 'z world_scheme" where
  "get_token w =
     (let (r, w') = http_send TokenRequest w in
      (case r of
         HttpRaised \<Rightarrow> TokError ErrException
       | HttpReply st body \<Rightarrow>
           if st = 200 then
             (case json_loads body of
               None \<Rightarrow> TokError ErrException
             | Some j \<Rightarrow>
                 (case token_in j of
                   None \<Rightarrow> TokError ErrException
                 | Some False \<Rightarrow> TokNone
                 | Some True \<Rightarrow>
                     (case py_getitem j ''token'' of
                       Some v \<Rightarrow> TokValue v
                     | None \<Rightarrow> TokError ErrException)))
           else TokError (ErrStatus st),
       w'))"

definition prompt :: "pyconst \<Rightarrow> pyconst \<Rightarrow> string" where
  "prompt n d =
     ''Below is a python function with the name '' @ py_str n @ '' that does the following: ''
     @ py_str d @ ''. No code blocks/formatting are allowed. Assume any uncertainties.''"

definition completion_content :: "json \<Rightarrow> json option" where
  "completion_content j =
     Option.bind (py_getitem j ''choices'') (\<lambda>cs.
     Option.bind (py_getitem_0 cs) (\<lambda>c.
     Option.bind (py_getitem c ''message'') (\<lambda>m. py_getitem m ''content'')))"

text \<open>The token refresh at the top of the \<open>try\<close> block (lines 83-85).\<close>

definition refresh_token :: "'z tstate_scheme \<Rightarrow> 'z tstate_scheme" where
  "refresh_token s =
     (let (t, s1) = time_now s in
      if t - token_time s1 > 600 then
        (let (tok, s2) = get_token s1; (t', s3) = time_now s2 in
         s3\<lparr>token := tok, token_time := t'\<rparr>)
      else s1)"

definition generate_function :: "pyconst \<Rightarrow> pyconst \<Rightarrow> 'z tstate_scheme \<Rightarrow> string \<times> 'z tstate_scheme" where
  "generate_function n d s =
     (let s2 = refresh_token s;
          (r, s3) = http_send (CompletionRequest (token s2) (prompt n d)) s2
      in case r of
           HttpRaised \<Rightarrow> ([], log_append LogGenFailed s3)
         | HttpReply st body \<Rightarrow>
             if st \<noteq> 200 then (''Response 404'', s3)
             else (case Option.bind (json_loads body) completion_content of
                     Some (JStr txt) \<Rightarrow>
                       (let c = extract_code_block txt in
                        if py_compiles s3 c then (c, s3) else ([], log_append LogGenFailed s3))
                   | _ \<Rightarrow> ([], log_append LogGenFailed s3)))"

subsection \<open>Properties: what a generation changes\<close>

lemma get_token_state: "snd (get_token w) = w\<lparr>requests := requests w @ [TokenRequest]\<rparr>"
  by (simp add: get_token_def http_send_def)

lemma refresh_token_state:
  "refresh_token s =
     (if 600 < clock s (clock_reads s) - token_time s
      then s\<lparr>clock_reads := Suc (Suc (clock_reads s)), requests := requests s @ [TokenRequest],
             token := fst (get_token (s\<lparr>clock_reads := Suc (clock_reads s)\<rparr>)),
             token_time := clock s (Suc (clock_reads s))\<rparr>
      else s\<lparr>clock_reads := Suc (clock_reads s)\<rparr>)"
  by (simp add: refresh_token_def time_now_def get_token_state split_beta)

lemma refresh_token_frame [simp]:
  "function_cache (refresh_token s) = function_cache s"
  "function_codes (refresh_token s) = function_codes s"
  "files (refresh_token s) = files s" "log (refresh_token s) = log s"
  "read_only (refresh_token s) = read_only s"
  "completions (refresh_token s) = completions s"
  by (simp_all add: refresh_token_state completions_def)

lemma generate_function_requests:
  "requests (snd (generate_function n d s)) =
     requests (refresh_token s) @ [CompletionRequest (token (refresh_token s)) (prompt n d)]"
  by (simp add: generate_function_def http_send_def log_append_def Let_def split_beta
      split: http_resp.splits option.splits json.splits)

lemma generate_function_raised:
  assumes "http (refresh_token s) (length (requests (refresh_token s)))
             (CompletionRequest (token (refresh_token s)) (prompt n d)) = HttpRaised"
  shows "fst (generate_function n d s) = [] \<and> log (snd (generate_function n d s)) = log s @ [LogGenFailed]"
  using assms by (simp add: generate_function_def http_send_def log_append_def Let_def)

lemma generate_function_frame [simp]:
  "function_cache (snd (generate_function n d s)) = function_cache s"
  "function_codes (snd (generate_function n d s)) = function_codes s"
  "files (snd (generate_function n d s)) = files s"
  "read_only (snd (generate_function n d s)) = read_only s"
  by (simp_all add: generate_function_def http_send_def log_append_def Let_def split_beta
      split: http_resp.splits option.splits json.splits)

lemma generate_function_completions [simp]:
  "completions (snd (generate_function n d s)) = Suc (completions s)"
  using refresh_token_frame(6) [of s]
  by (simp add: generate_function_requests completions_def)

lemma oracles_get_token [simp]: "oracles (snd (get_token w)) = oracles w"
  by (simp add: get_token_state)

lemma oracles_refresh_token [simp]: "oracles (refresh_token s) = oracles s"
  by (simp add: refresh_token_state oracles_def)

lemma oracles_generate_function [simp]: "oracles (snd (generate_function n d s)) = oracles s"
  by (simp add: generate_function_def Let_def split_beta split: http_resp.split option.split json.split)

lemma stdout_generate_function [simp]: "stdout (snd (generate_function n d s)) = stdout s"
  by (simp add: generate_function_def refresh_token_state http_send_def log_append_def Let_def
      split_beta split: http_resp.split option.split json.split)

lemma find_sub_skip:
  assumes "needle \<noteq> []" and "hd needle \<notin> set pre"
  shows "find_sub needle (pre @ rest) = map_option (\<lambda>i. length pre + i) (find_sub needle rest)"
  using assms(2)
proof (induction pre)
  case Nil
  then show ?case by (simp add: option.map_ident)
next
  case (Cons c pre)
  have "take (length needle) (c # pre @ rest) \<noteq> needle"
    using Cons.prems assms(1) by (cases needle) auto
  with Cons show ?case by (simp add: option.map_comp comp_def)
qed

lemma find_sub_prefix: "needle \<noteq> [] \<Longrightarrow> find_sub needle (needle @ rest) = Some 0"
  by (cases needle) simp_all

lemma token_requests_generate_function:
  "token_requests (snd (generate_function n d s)) \<le> Suc (token_requests s)"
  by (simp add: token_requests_def generate_function_requests refresh_token_state)

subsection \<open>Properties: the search of line 107\<close>

lemma find_map_Suc: "find P (map Suc xs) = map_option Suc (find (\<lambda>i. P (Suc i)) xs)"
  by (induction xs) auto

lemma upt_0_Suc: "[0..<Suc n] = 0 # map Suc [0..<n]"
  by (simp add: map_Suc_upt upt_conv_Cons del: upt_Suc)

lemma find_upt_Suc:
  "find P [0..<Suc n] = (if P 0 then Some 0 else map_option Suc (find (\<lambda>i. P (Suc i)) [0..<n]))"
  by (simp only: upt_0_Suc find.simps find_map_Suc)

lemma find_sub_find:
  "find_sub p s = find (\<lambda>i. take (length p) (drop i s) = p) [0..<Suc (length s)]"
proof (induction s)
  case Nil
  then show ?case by simp
next
  case (Cons c cs)
  show ?case
    using Cons by (simp only: find_sub.simps find_upt_Suc length_Cons) simp
qed

lemma find_append_list: "find P (xs @ ys) = (case find P xs of None \<Rightarrow> find P ys | Some x \<Rightarrow> Some x)"
  by (induction xs) auto

lemma find_map_list: "find P (map f xs) = map_option f (find (\<lambda>x. P (f x)) xs)"
  by (induction xs) auto

lemma find_concat_map:
  "find P (concat (map f xs)) =
     (case find (\<lambda>x. \<exists>y\<in>set (f x). P y) xs of None \<Rightarrow> None | Some x \<Rightarrow> find P (f x))"
proof (induction xs)
  case (Cons x xs)
  have "find P (f x) = None \<longleftrightarrow> \<not> (\<exists>y\<in>set (f x). P y)" by (auto simp: find_None_iff)
  with Cons show ?case by (auto simp: find_append_list split: option.split)
qed simp

lemma find_triples:
  "find (\<lambda>(i, j, k). P i j k) [(i, j, k). i \<leftarrow> xs, j \<leftarrow> ys, k \<leftarrow> zs] =
     (case find (\<lambda>i. \<exists>j\<in>set ys. \<exists>k\<in>set zs. P i j k) xs of
       None \<Rightarrow> None
     | Some i \<Rightarrow>
         (case find (\<lambda>j. \<exists>k\<in>set zs. P i j k) ys of
           None \<Rightarrow> None
         | Some j \<Rightarrow> map_option (\<lambda>k. (i, j, k)) (find (P i j) zs)))"
  by (simp add: find_concat_map find_map_list comp_def split: option.split)

lemma find_upt_Some_iff: "find P [0..<n] = Some i \<longleftrightarrow> i < n \<and> P i \<and> (\<forall>j<i. \<not> P j)"
  by (auto simp: find_Some_iff)

lemma find_upt_None_iff: "find P [0..<n] = None \<longleftrightarrow> (\<forall>i<n. \<not> P i)"
  by (auto simp: find_None_iff)

lemma fence_at_bound: "take 3 (drop k txt) = fence \<Longrightarrow> k + 3 \<le> length txt"
proof -
  assume "take 3 (drop k txt) = fence"
  then have "length (take 3 (drop k txt)) = 3" by (simp add: fence_def)
  then show ?thesis by simp
qed

lemma newline_at_bound: "take 1 (drop j txt) = [newline] \<Longrightarrow> j < length txt"
proof -
  assume "take 1 (drop j txt) = [newline]"
  then have "length (take 1 (drop j txt)) = 1" by simp
  then show ?thesis by simp
qed

lemma regex_search_stages:
  "regex_search txt =
     (case find (\<lambda>i. \<exists>j k. regex_match_at txt i j k) [0..<Suc (length txt)] of
       None \<Rightarrow> None
     | Some i \<Rightarrow>
         (case find (\<lambda>j. \<exists>k. regex_match_at txt i j k) [0..<Suc (length txt)] of
           None \<Rightarrow> None
         | Some j \<Rightarrow> map_option (\<lambda>k. (i, j, k)) (find (regex_match_at txt i j) [0..<Suc (length txt)])))"
proof -
  have b: "j < Suc (length txt) \<and> k < Suc (length txt)" if "regex_match_at txt i j k" for i j k
    using that fence_at_bound [of k "txt"] newline_at_bound [of j "txt"] by (auto simp: regex_match_at_def)
  have e1: "(\<exists>j\<in>set [0..<Suc (length txt)]. \<exists>k. regex_match_at txt i j k)
            = (\<exists>j k. regex_match_at txt i j k)" for i
  proof
    assume "\<exists>j k. regex_match_at txt i j k"
    then obtain j k where v: "regex_match_at txt i j k" by blast
    then have "j \<in> set [0..<Suc (length txt)]" using b [OF v] by (simp del: upt_Suc)
    with v show "\<exists>j\<in>set [0..<Suc (length txt)]. \<exists>k. regex_match_at txt i j k" by blast
  qed blast
  have e2: "(\<exists>k\<in>set [0..<Suc (length txt)]. regex_match_at txt i j k) = (\<exists>k. regex_match_at txt i j k)" for i j
  proof
    assume "\<exists>k. regex_match_at txt i j k"
    then obtain k where v: "regex_match_at txt i j k" by blast
    then have "k \<in> set [0..<Suc (length txt)]" using b [OF v] by (simp del: upt_Suc)
    with v show "\<exists>k\<in>set [0..<Suc (length txt)]. regex_match_at txt i j k" by blast
  qed blast
  show ?thesis
    by (simp only: regex_search_def Let_def find_triples [where P = "regex_match_at txt"] e2 e1)
qed

lemma regex_match_after_fence:
  assumes "regex_match_at txt i j k" and "\<forall>i'<i0. take 3 (drop i' txt) \<noteq> fence"
  shows "i0 + 3 \<le> j"
proof -
  from assms(1) have "take 3 (drop i txt) = fence" and "i + 3 \<le> j" by (simp_all add: regex_match_at_def)
  moreover from this(1) assms(2) have "i0 \<le> i" by (meson not_less)
  ultimately show ?thesis by simp
qed

lemma regex_match_after_newline:
  assumes "regex_match_at txt i j k" and "i0 + 3 \<le> j"
      and "\<forall>j'. i0 + 3 \<le> j' \<longrightarrow> j' < j1 \<longrightarrow> take 1 (drop j' txt) \<noteq> [newline]"
  shows "j1 < k"
proof -
  from assms(1) have "take 1 (drop j txt) = [newline]" and "j < k" by (simp_all add: regex_match_at_def)
  moreover from this(1) assms(2,3) have "j1 \<le> j" by (meson not_less)
  ultimately show ?thesis by simp
qed

lemma find_sub_drop:
  "find_sub p (drop a txt) =
     find (\<lambda>k. take (length p) (drop (a + k) txt) = p) [0..<Suc (length txt - a)]"
  by (simp only: find_sub_find drop_drop length_drop add.commute)

lemma find_from_Some:
  assumes "find (\<lambda>k. Q (a + k)) [0..<n] = Some k0"
  shows "Q (a + k0) \<and> (\<forall>k. a \<le> k \<longrightarrow> k < a + k0 \<longrightarrow> \<not> Q k)"
proof -
  from assms have q: "Q (a + k0)" and m: "\<And>d. d < k0 \<Longrightarrow> \<not> Q (a + d)"
    by (simp_all del: upt_Suc add: find_upt_Some_iff)
  have "\<not> Q k" if "a \<le> k" "k < a + k0" for k
  proof -
    have "k - a < k0" using that by simp
    from m [OF this] that show ?thesis by simp
  qed
  with q show ?thesis by blast
qed

lemma find_from_None:
  assumes "find (\<lambda>k. Q (a + k)) [0..<Suc (length txt - a)] = None"
      and "\<And>k. Q k \<Longrightarrow> k \<le> length txt" and "a \<le> k"
  shows "\<not> Q k"
proof
  assume q: "Q k"
  then have "k - a < Suc (length txt - a)" using assms(2) [OF q] by simp
  with assms(1) have "\<not> Q (a + (k - a))" by (simp del: upt_Suc add: find_upt_None_iff)
  with q assms(3) show False by simp
qed

lemma regex_search_None:
  "(\<And>i j k. \<not> regex_match_at txt i j k) \<Longrightarrow> regex_search txt = None"
  unfolding regex_search_def Let_def find_None_iff by auto

lemma regex_search_Some:
  assumes V: "regex_match_at txt i0 j1 k1"
      and Fmin: "\<And>i. i < i0 \<Longrightarrow> take 3 (drop i txt) \<noteq> fence"
      and Nmin: "\<And>j. i0 + 3 \<le> j \<Longrightarrow> j < j1 \<Longrightarrow> take 1 (drop j txt) \<noteq> [newline]"
      and Kmin: "\<And>k. j1 < k \<Longrightarrow> k < k1 \<Longrightarrow> take 3 (drop k txt) \<noteq> fence"
  shows "regex_search txt = Some (i0, j1, k1)"
proof -
  have b: "i0 + 3 \<le> length txt" "j1 < length txt" "k1 + 3 \<le> length txt"
    using V fence_at_bound [of i0 "txt"] newline_at_bound [of j1 "txt"] fence_at_bound [of k1 "txt"]
    by (simp_all add: regex_match_at_def)
  have "find (\<lambda>i. \<exists>j k. regex_match_at txt i j k) [0..<Suc (length txt)] = Some i0"
    using V Fmin b by (auto simp del: upt_Suc simp: find_upt_Some_iff regex_match_at_def)
  moreover have "find (\<lambda>j. \<exists>k. regex_match_at txt i0 j k) [0..<Suc (length txt)] = Some j1"
    using V Nmin b by (auto simp del: upt_Suc simp: find_upt_Some_iff regex_match_at_def)
  moreover have "find (regex_match_at txt i0 j1) [0..<Suc (length txt)] = Some k1"
    using V Kmin b by (auto simp del: upt_Suc simp: find_upt_Some_iff regex_match_at_def)
  ultimately show ?thesis by (simp del: upt_Suc add: regex_search_stages)
qed

lemma find_sub_drop_Some:
  assumes "find_sub p (drop a txt) = Some k0"
  shows "take (length p) (drop (a + k0) txt) = p
         \<and> (\<forall>k. a \<le> k \<longrightarrow> k < a + k0 \<longrightarrow> take (length p) (drop k txt) \<noteq> p)"
proof -
  from assms have "find (\<lambda>k. take (length p) (drop (a + k) txt) = p) [0..<Suc (length txt - a)] = Some k0"
    by (simp only: find_sub_drop)
  from find_from_Some [of "\<lambda>k. take (length p) (drop k txt) = p" a "Suc (length txt - a)" k0, OF this]
  show ?thesis .
qed

lemma find_sub_drop_None:
  assumes "find_sub p (drop a txt) = None" and "p \<noteq> []" and "a \<le> k"
  shows "take (length p) (drop k txt) \<noteq> p"
proof -
  have b: "k \<le> length txt" if "take (length p) (drop k txt) = p" for k
    using that assms(2) by (cases "k \<le> length txt") auto
  from assms(1) have "find (\<lambda>k. take (length p) (drop (a + k) txt) = p) [0..<Suc (length txt - a)] = None"
    by (simp only: find_sub_drop)
  from find_from_None [of "\<lambda>k. take (length p) (drop k txt) = p" a "txt", OF this b assms(3)]
  show ?thesis .
qed

lemma fence_props: "length fence = 3" "fence \<noteq> []"
  by (simp_all add: fence_def)

lemma regex_search_no_fence:
  assumes "find_sub fence txt = None"
  shows "regex_search txt = None"
proof (rule regex_search_None)
  fix i j k
  from assms have "find_sub fence (drop 0 txt) = None" by (simp add: fence_props fence_props)
  from find_sub_drop_None [OF this] show "\<not> regex_match_at txt i j k" by (simp add: fence_props regex_match_at_def)
qed

lemma regex_search_no_newline:
  assumes "find_sub fence txt = Some i0" and "find_sub [newline] (drop (i0 + 3) txt) = None"
  shows "regex_search txt = None"
proof (rule regex_search_None)
  fix i j k
  from assms(1) have "find_sub fence (drop 0 txt) = Some i0" by (simp add: fence_props fence_props)
  note i0 = find_sub_drop_Some [OF this]
  show "\<not> regex_match_at txt i j k"
  proof
    assume v: "regex_match_at txt i j k"
    have "\<forall>i'<i0. take 3 (drop i' txt) \<noteq> fence" using i0 by (simp add: fence_props fence_props)
    with v have "i0 + 3 \<le> j" by (rule regex_match_after_fence)
    with find_sub_drop_None [OF assms(2)] v show False by (simp add: fence_props regex_match_at_def)
  qed
qed

lemma regex_search_no_close:
  assumes "find_sub fence txt = Some i0" and "find_sub [newline] (drop (i0 + 3) txt) = Some j0"
      and "find_sub fence (drop (j0 + 1) (drop (i0 + 3) txt)) = None"
  shows "regex_search txt = None"
proof (rule regex_search_None)
  fix i j k
  from assms(1) have "find_sub fence (drop 0 txt) = Some i0" by (simp add: fence_props fence_props)
  note i0 = find_sub_drop_Some [OF this] and j1 = find_sub_drop_Some [OF assms(2)]
  from assms(3) have "find_sub fence (drop (i0 + 3 + j0 + 1) txt) = None" by (simp add: fence_props ac_simps)
  note n = find_sub_drop_None [OF this]
  show "\<not> regex_match_at txt i j k"
  proof
    assume v: "regex_match_at txt i j k"
    have "\<forall>i'<i0. take 3 (drop i' txt) \<noteq> fence" using i0 by (simp add: fence_props fence_props)
    with v have "i0 + 3 \<le> j" by (rule regex_match_after_fence)
    moreover have "\<forall>j'. i0 + 3 \<le> j' \<longrightarrow> j' < i0 + 3 + j0 \<longrightarrow> take 1 (drop j' txt) \<noteq> [newline]"
      using j1 by (simp add: fence_props fence_props)
    ultimately have "i0 + 3 + j0 < k" using v by (intro regex_match_after_newline)
    with n [of k] v show False by (simp add: fence_props regex_match_at_def)
  qed
qed

lemma regex_search_found:
  assumes "find_sub fence txt = Some i0" and "find_sub [newline] (drop (i0 + 3) txt) = Some j0"
      and "find_sub fence (drop (j0 + 1) (drop (i0 + 3) txt)) = Some k0"
  shows "regex_search txt = Some (i0, i0 + 3 + j0, i0 + 3 + j0 + 1 + k0)"
proof -
  from assms(1) have "find_sub fence (drop 0 txt) = Some i0" by (simp add: fence_props fence_props)
  note i0 = find_sub_drop_Some [OF this] and j1 = find_sub_drop_Some [OF assms(2)]
  from assms(3) have "find_sub fence (drop (i0 + 3 + j0 + 1) txt) = Some k0" by (simp add: fence_props ac_simps)
  note k1 = find_sub_drop_Some [OF this]
  show ?thesis using i0 j1 k1 by (intro regex_search_Some) (auto simp: fence_props regex_match_at_def)
qed

subsection \<open>Properties: the claims of the generation client\<close>

text \<open>C12: the code block of a reply. When the content has a fence, an info string without a
  newline, a newline, a body and a closing fence, and neither the text before the first
  fence nor the body holds a backtick, \<open>extract_code_block\<close> returns exactly the
  body, whatever follows.\<close>

theorem extract_code_block_fenced:
  assumes "CHR ''`'' \<notin> set pre" and "newline \<notin> set info" and "CHR ''`'' \<notin> set body"
  shows "extract_code_block (pre @ fence @ info @ [newline] @ body @ fence @ post) = body"
proof -
  have f: "fence \<noteq> []" "hd fence = CHR ''`''" by (simp_all add: fence_def)
  have "find_sub fence (pre @ fence @ rest) = Some (length pre)" for rest
    using find_sub_skip [OF f(1), of pre] find_sub_prefix [OF f(1)] assms(1) f(2) by simp
  moreover have "find_sub [newline] (info @ [newline] @ rest) = Some (length info)" for rest
    using find_sub_skip [of "[newline]" info] find_sub_prefix [of "[newline]"] assms(2) by simp
  moreover have "find_sub fence (body @ fence @ post) = Some (length body)"
    using find_sub_skip [OF f(1), of body] find_sub_prefix [OF f(1)] assms(3) f(2) by simp
  moreover have "length fence = 3" by (simp add: fence_def)
  ultimately show ?thesis
    by (simp add: extract_code_block_def)
qed

text \<open>C13: a reply with a status other than 200 yields the text \<open>Response 404\<close> as the
  generated function, without any log record: the caller caches and emits it like
  code.\<close>

theorem generate_function_not_ok:
  assumes "http (refresh_token s) (length (requests (refresh_token s)))
             (CompletionRequest (token (refresh_token s)) (prompt n d)) = HttpReply st body"
      and "st \<noteq> 200"
  shows "fst (generate_function n d s) = ''Response 404'' \<and> log (snd (generate_function n d s)) = log s"
  using assms by (simp add: generate_function_def http_send_def Let_def)

text \<open>C14: the order of the requests of one generation. \<open>generate_function\<close> first
  asks for a new token exactly when more than 600 seconds have passed since
  \<open>token_time\<close> at its first clock reading, and then sends one completion request
  that carries the new token in that case and the current one otherwise.\<close>

theorem generate_function_requests_order:
  "requests (snd (generate_function n d s)) =
     requests s @ (if 600 < clock s (clock_reads s) - token_time s then [TokenRequest] else [])
     @ [CompletionRequest
          (if 600 < clock s (clock_reads s) - token_time s
           then fst (get_token (s\<lparr>clock_reads := Suc (clock_reads s)\<rparr>)) else token s)
          (prompt n d)]"
  by (simp add: generate_function_requests refresh_token_state)

text \<open>C21: a 200 reply without a \<open>token\<close> member gives \<open>None\<close>: \<open>get_token\<close> falls off
  the end of its \<open>if\<close> and returns no error value, so the completion requests carry
  the bearer \<open>None\<close>.\<close>

theorem get_token_no_field:
  assumes "http w (length (requests w)) TokenRequest = HttpReply 200 body"
      and "json_loads body = Some (JObj kvs)" and "''token'' \<notin> set (map fst kvs)"
  shows "get_token w = (TokNone, w\<lparr>requests := requests w @ [TokenRequest]\<rparr>)"
  using assms by (simp add: get_token_def http_send_def)

text \<open>C23: the staged search is the regex. \<open>extract_code_block\<close> finds the first fence, then
  the first newline after it, then the first fence after that newline. On every text it
  returns what \<open>re.search(r'```.*?\n(.*?)```', code, re.DOTALL)\<close> and line 108 return:
  the group of the first match in the backtracking order when there is one, and the
  whole text when there is none.\<close>

theorem extract_code_block_regex: "extract_code_block txt = extract_code_block_ref txt"
proof (cases "find_sub fence txt")
  case None
  then show ?thesis by (simp add: fence_props extract_code_block_def extract_code_block_ref_def regex_search_no_fence)
next
  case (Some i0)
  note f1 = Some
  show ?thesis
  proof (cases "find_sub [newline] (drop (i0 + 3) txt)")
    case None
    then show ?thesis using f1
      by (simp add: fence_props extract_code_block_def extract_code_block_ref_def regex_search_no_newline)
  next
    case (Some j0)
    note f2 = Some
    show ?thesis
    proof (cases "find_sub fence (drop (j0 + 1) (drop (i0 + 3) txt))")
      case None
      then show ?thesis using f1 f2 regex_search_no_close [OF f1 f2 None]
        by (simp del: drop_drop add: fence_props extract_code_block_def extract_code_block_ref_def)
    next
      case (Some k0)
      show ?thesis using f1 f2 Some regex_search_found [OF f1 f2 Some]
        by (simp del: drop_drop add: fence_props extract_code_block_def extract_code_block_ref_def) (simp add: fence_props ac_simps)
    qed
  qed
qed

end
