(* ===== verification/Transformer.thy ===== *)
theory Transformer
  imports Generation
begin

text \<open>
  The Marker Transformer: \<open>SidFunctionTransformer\<close> of src/AutoPyFunc.py, an
  \<open>ast.NodeTransformer\<close> whose \<open>visit_Call\<close> (lines 51-79) rewrites the marker
  calls \<open>sid(desc)\<close> and \<open>sid(name, desc)\<close>.
  \<^item> \<open>expr\<close> (theory World) is the syntax tree: \<open>Call\<close> carries its position, callee,
    positional arguments and keywords; \<open>Node\<close> is every other node, with its child
    nodes in the order of its fields, the order \<open>generic_visit\<close> visits them.
  \<^item> \<open>sid_dispatch\<close> is the test at the head of \<open>visit_Call\<close>: not a marker, a
    marker of the wrong arity, a marker whose argument has no \<open>.s\<close> (or whose
    one-argument \<open>.s\<close> has no \<open>.replace\<close>), which raises \<open>AttributeError\<close>, or a
    marker with its name, description and log record.
  \<^item> \<open>sid_site\<close> is lines 68-77: cache lookup, generation and write-through on a miss,
    the log record, the appended fragment, the \<open>Name\<close> that replaces the call.
  \<^item> \<open>visit\<close>, \<open>visit_list\<close>, \<open>visit_kws\<close> are \<open>NodeTransformer.visit\<close> with
    \<open>visit_Call\<close> and \<open>generic_visit\<close>: depth first, fields in order, the state
    threaded from each visit to the next, an exception ending the walk.
  \<^item> \<open>rewrite\<close>, \<open>raises\<close> and \<open>sites\<close> are the abstract specification: the tree the
    walk produces, whether it raises, and the keys of the marker sites in the order they
    are met. The walk refines them, whatever the cache, the clock and the backend do.
  \<^item> \<open>walk_ops\<close> and \<open>run_ops\<close> specify the walk's effect: the operations it runs
    (marker sites and wrong-arity log records) in document order, cut at the first marker
    that raises. The walk is exactly that sequence (C24).
  \<^item> \<open>transformer_init\<close> is \<open>__init__\<close> (lines 45-49).
\<close>

datatype dispatch = NotMarker | WrongArity | BadArgument py_exc | Marker pyconst pyconst log_event

text \<open>The \<open>.s\<close> attribute: only \<open>Constant\<close> nodes have it.\<close>

fun const_s :: "expr \<Rightarrow> pyconst option" where
  "const_s (Constant c) = Some c"
| "const_s _ = None"

definition sid_dispatch :: "expr \<Rightarrow> nat \<Rightarrow> nat \<Rightarrow> expr list \<Rightarrow> dispatch" where
  "sid_dispatch f lno col args =
     (if f \<noteq> Name (PyStr ''sid'') then NotMarker
      else case args of
        [a] \<Rightarrow>
          (case const_s a of
            Some (PyStr d) \<Rightarrow>
              Marker (PyStr (replace_char space (CHR ''_'') d)) (PyStr d) (LogSite lno col (PyStr d))
          | _ \<Rightarrow> BadArgument AttributeError)
      | [a, b] \<Rightarrow>
          (case (const_s a, const_s b) of
            (Some n, Some d) \<Rightarrow> Marker n d (LogSiteNamed lno col n d)
          | _ \<Rightarrow> BadArgument AttributeError)
      | _ \<Rightarrow> WrongArity)"

definition sid_site :: "pyconst \<Rightarrow> pyconst \<Rightarrow> 'z tstate_scheme \<Rightarrow> (py_exc + expr) \<times> 'z tstate_scheme" where
  "sid_site n d s =
     (let key = (n, d);
          (c, s1) =
            (case map_of (function_cache s) key of
              Some c \<Rightarrow> (c, s)
            | None \<Rightarrow>
                (let (g, s') = generate_function n d s
                 in (JStr g, save_cache (s'\<lparr>function_cache := dict_set (function_cache s') key (JStr g)\<rparr>))));
          s2 = log_append (LogGenerated c) s1
      in (Inr (Name n), s2\<lparr>function_codes := function_codes s2 @ [c]\<rparr>))"

fun visit :: "expr \<Rightarrow> 'z tstate_scheme \<Rightarrow> (py_exc + expr) \<times> 'z tstate_scheme"
and visit_list :: "expr list \<Rightarrow> 'z tstate_scheme \<Rightarrow> (py_exc + expr list) \<times> 'z tstate_scheme"
and visit_kws :: "(string option \<times> expr) list \<Rightarrow> 'z tstate_scheme
                   \<Rightarrow> (py_exc + (string option \<times> expr) list) \<times> 'z tstate_scheme"
where
  "visit (Call lno col f args kws) s =
     (let dsp = sid_dispatch f lno col args in
      case dsp of
        Marker n d ev \<Rightarrow> sid_site n d (log_append ev s)
      | BadArgument e \<Rightarrow> (Inl e, s)
      | _ \<Rightarrow>
          pbind (visit f) (\<lambda>f'.
          pbind (visit_list args) (\<lambda>args'.
          pbind (visit_kws kws) (\<lambda>kws'. pret (Call lno col f' args' kws'))))
            (if dsp = WrongArity then log_append (LogWrongArity lno col) s else s))"
| "visit (Node tag cs) s = pbind (visit_list cs) (\<lambda>cs'. pret (Node tag cs')) s"
| "visit (Name x) s = (Inr (Name x), s)"
| "visit (Constant c) s = (Inr (Constant c), s)"
| "visit_list [] s = (Inr [], s)"
| "visit_list (e # es) s = pbind (visit e) (\<lambda>e'. pbind (visit_list es) (\<lambda>es'. pret (e' # es'))) s"
| "visit_kws [] s = (Inr [], s)"
| "visit_kws ((k, e) # kws) s =
     pbind (visit e) (\<lambda>e'. pbind (visit_kws kws) (\<lambda>kws'. pret ((k, e') # kws'))) s"

definition transformer_init :: "'z tstate_scheme \<Rightarrow> 'z tstate_scheme" where
  "transformer_init s =
     (let s1 = load_cache (s\<lparr>function_codes := []\<rparr>);
          (tok, s2) = get_token s1;
          (t, s3) = time_now s2
      in s3\<lparr>token := tok, token_time := t\<rparr>)"

text \<open>The cache as a map, and the callee of a marker.\<close>

abbreviation cache_map :: "'z tstate_scheme \<Rightarrow> gen_key \<rightharpoonup> json" where
  "cache_map s \<equiv> map_of (function_cache s)"

abbreviation sid_name :: expr where
  "sid_name \<equiv> Name (PyStr ''sid'')"

subsection \<open>The abstract specification of the walk\<close>

fun rewrite :: "expr \<Rightarrow> expr" where
  "rewrite (Call lno col f args kws) =
     (case sid_dispatch f lno col args of
        Marker n d ev \<Rightarrow> Name n
      | _ \<Rightarrow> Call lno col (rewrite f) (map rewrite args) (map (\<lambda>(k, e). (k, rewrite e)) kws))"
| "rewrite (Node tag cs) = Node tag (map rewrite cs)"
| "rewrite e = e"

fun raises :: "expr \<Rightarrow> bool" where
  "raises (Call lno col f args kws) =
     (case sid_dispatch f lno col args of
        Marker n d ev \<Rightarrow> False
      | BadArgument e \<Rightarrow> True
      | _ \<Rightarrow> raises f \<or> list_ex raises args \<or> list_ex (\<lambda>(k, e). raises e) kws)"
| "raises (Node tag cs) = list_ex raises cs"
| "raises e = False"

fun sites :: "expr \<Rightarrow> gen_key list" where
  "sites (Call lno col f args kws) =
     (case sid_dispatch f lno col args of
        Marker n d ev \<Rightarrow> [(n, d)]
      | BadArgument e \<Rightarrow> []
      | _ \<Rightarrow> sites f @ concat (map sites args) @ concat (map (\<lambda>(k, e). sites e) kws))"
| "sites (Node tag cs) = concat (map sites cs)"
| "sites e = []"

text \<open>The walk as a sequence of operations. \<open>walk_ops\<close> lists, in document order, the
  state changes the walk makes: a marker site (\<open>sid_site\<close> after its log record) and the
  log record of a marker of the wrong arity. The flag is set when a marker raises; the
  operations after it are not run. \<open>run_ops\<close> runs such a list from left to right.\<close>

datatype walk_op = OpSite pyconst pyconst log_event | OpLog log_event

fun run_op :: "walk_op \<Rightarrow> 'z tstate_scheme \<Rightarrow> 'z tstate_scheme" where
  "run_op (OpSite n d ev) s = snd (sid_site n d (log_append ev s))"
| "run_op (OpLog ev) s = log_append ev s"

definition run_ops :: "walk_op list \<Rightarrow> 'z tstate_scheme \<Rightarrow> 'z tstate_scheme" where
  "run_ops ops s = fold run_op ops s"

definition ops_then :: "walk_op list \<times> bool \<Rightarrow> walk_op list \<times> bool \<Rightarrow> walk_op list \<times> bool" where
  "ops_then a b = (if snd a then a else (fst a @ fst b, snd b))"

fun walk_ops :: "expr \<Rightarrow> walk_op list \<times> bool"
and walk_ops_list :: "expr list \<Rightarrow> walk_op list \<times> bool"
and walk_ops_kws :: "(string option \<times> expr) list \<Rightarrow> walk_op list \<times> bool"
where
  "walk_ops (Call lno col f args kws) =
     (case sid_dispatch f lno col args of
        Marker n d ev \<Rightarrow> ([OpSite n d ev], False)
      | BadArgument e \<Rightarrow> ([], True)
      | WrongArity \<Rightarrow>
          ops_then ([OpLog (LogWrongArity lno col)], False)
            (ops_then (walk_ops f) (ops_then (walk_ops_list args) (walk_ops_kws kws)))
      | NotMarker \<Rightarrow> ops_then (walk_ops f) (ops_then (walk_ops_list args) (walk_ops_kws kws)))"
| "walk_ops (Node tag cs) = walk_ops_list cs"
| "walk_ops (Name x) = ([], False)"
| "walk_ops (Constant c) = ([], False)"
| "walk_ops_list [] = ([], False)"
| "walk_ops_list (e # es) = ops_then (walk_ops e) (walk_ops_list es)"
| "walk_ops_kws [] = ([], False)"
| "walk_ops_kws ((k, e) # kws) = ops_then (walk_ops e) (walk_ops_kws kws)"

subsection \<open>Properties: the walk refines its specification\<close>

lemma fst_pbind:
  "fst (pbind m f s) = (case fst (m s) of Inl e \<Rightarrow> Inl e | Inr a \<Rightarrow> fst (f a (snd (m s))))"
  by (simp add: pbind_def split: prod.splits sum.splits)

lemma fst_sid_site [simp]: "fst (sid_site n d s) = Inr (Name n)"
  by (simp add: sid_site_def Let_def split: option.splits prod.splits)

lemma sid_dispatch_BadArgument: "sid_dispatch f lno col args = BadArgument e \<Longrightarrow> e = AttributeError"
  by (auto simp: sid_dispatch_def split: if_splits list.splits option.splits pyconst.splits)

lemma visit_refines:
  "fst (visit e s) = (if raises e then Inl AttributeError else Inr (rewrite e))"
  "fst (visit_list es s) = (if list_ex raises es then Inl AttributeError else Inr (map rewrite es))"
  "fst (visit_kws kws s) = (if list_ex (\<lambda>(k, e). raises e) kws then Inl AttributeError
                            else Inr (map (\<lambda>(k, e). (k, rewrite e)) kws))"
proof (induction e s and es s and kws s rule: visit_visit_list_visit_kws.induct)
  case (1 lno col f args kws s)
  show ?case
  proof (cases "sid_dispatch f lno col args")
    case NotMarker
    with 1 show ?thesis by (simp add: fst_pbind pret_def split: if_splits)
  next
    case WrongArity
    with 1 show ?thesis by (simp add: fst_pbind pret_def split: if_splits)
  next
    case (BadArgument e)
    then show ?thesis by (simp add: sid_dispatch_BadArgument)
  next
    case (Marker n d ev)
    then show ?thesis by simp
  qed
qed (simp_all add: fst_pbind pret_def split: if_splits)


lemma pbind_fst_Inr: "fst (m s) = Inr a \<Longrightarrow> pbind m f s = f a (snd (m s))"
  by (cases "m s") (simp add: pbind_def)

lemma visit_compose:
  fixes P :: "'z tstate_scheme \<Rightarrow> 'z tstate_scheme \<Rightarrow> gen_key list \<Rightarrow> bool"
  assumes nil: "\<And>s. P s s []"
    and app: "\<And>s1 s2 s3 l1 l2. P s1 s2 l1 \<Longrightarrow> P s2 s3 l2 \<Longrightarrow> P s1 s3 (l1 @ l2)"
    and site: "\<And>n d s ev. P s (snd (sid_site n d (log_append ev s))) [(n, d)]"
    and arity: "\<And>s s' l lno col. P (log_append (LogWrongArity lno col) s) s' l \<Longrightarrow> P s s' l"
  shows "\<not> raises e \<Longrightarrow> P s (snd (visit e s)) (sites e)"
    and "\<not> list_ex raises es \<Longrightarrow> P s (snd (visit_list es s)) (concat (map sites es))"
    and "\<not> list_ex (\<lambda>(k, e). raises e) kws \<Longrightarrow>
         P s (snd (visit_kws kws s)) (concat (map (\<lambda>(k, e). sites e) kws))"
proof (induction e s and es s and kws s rule: visit_visit_list_visit_kws.induct)
  case (1 lno col f args kws s)
  let ?d = "sid_dispatch f lno col args"
  show ?case
  proof (cases ?d)
    case (Marker n d ev)
    then show ?thesis using site by simp
  next
    case (BadArgument e)
    with "1.prems" show ?thesis by simp
  next
    case NotMarker
    let ?s1 = "snd (visit f s)" let ?s2 = "snd (visit_list args ?s1)"
    have nr: "\<not> raises f" "\<not> list_ex raises args" "\<not> list_ex (\<lambda>(k, e). raises e) kws"
      using "1.prems" NotMarker by simp_all
    have "P s ?s1 (sites f)" "P ?s1 ?s2 (concat (map sites args))"
      "P ?s2 (snd (visit_kws kws ?s2)) (concat (map (\<lambda>(k, e). sites e) kws))"
      using "1.IH"(1-3) NotMarker nr by simp_all
    then have "P s (snd (visit_kws kws ?s2)) (sites (Call lno col f args kws))"
      using NotMarker by (simp add: app)
    with NotMarker nr show ?thesis
      by (simp add: pbind_fst_Inr visit_refines pret_def)
  next
    case WrongArity
    let ?s0 = "log_append (LogWrongArity lno col) s"
    let ?s1 = "snd (visit f ?s0)" let ?s2 = "snd (visit_list args ?s1)"
    have nr: "\<not> raises f" "\<not> list_ex raises args" "\<not> list_ex (\<lambda>(k, e). raises e) kws"
      using "1.prems" WrongArity by simp_all
    have "P ?s0 ?s1 (sites f)" "P ?s1 ?s2 (concat (map sites args))"
      "P ?s2 (snd (visit_kws kws ?s2)) (concat (map (\<lambda>(k, e). sites e) kws))"
      using "1.IH"(4-6) WrongArity nr by simp_all
    then have "P ?s0 (snd (visit_kws kws ?s2)) (sites (Call lno col f args kws))"
      using WrongArity by (simp add: app)
    then have "P s (snd (visit_kws kws ?s2)) (sites (Call lno col f args kws))"
      by (rule arity)
    with WrongArity nr show ?thesis
      by (simp add: pbind_fst_Inr visit_refines pret_def)
  qed
next
  case (2 tag cs s)
  then show ?case by (simp add: pbind_fst_Inr visit_refines pret_def)
next
  case (6 e es s)
  then have "P s (snd (visit e s)) (sites e)"
    "P (snd (visit e s)) (snd (visit_list es (snd (visit e s)))) (concat (map sites es))"
    by simp_all
  with "6.prems" show ?case by (simp add: pbind_fst_Inr visit_refines pret_def app)
next
  case (8 k e kws s)
  then have "P s (snd (visit e s)) (sites e)"
    "P (snd (visit e s)) (snd (visit_kws kws (snd (visit e s)))) (concat (map (\<lambda>(k, e). sites e) kws))"
    by simp_all
  with "8.prems" show ?case by (simp add: pbind_fst_Inr visit_refines pret_def app)
qed (simp_all add: nil)

lemma completions_tstate [simp]:
  "completions (s\<lparr>function_cache := c\<rparr>) = completions s"
  "completions (s\<lparr>function_codes := fs\<rparr>) = completions s"
  "completions (s\<lparr>log := l\<rparr>) = completions s"
  "completions (save_cache s) = completions s"
  by (simp_all add: completions_def)

lemma sid_site_hit:
  "map_of (function_cache s) (n, d) = Some c \<Longrightarrow>
   sid_site n d s = (Inr (Name n), s\<lparr>log := log s @ [LogGenerated c], function_codes := function_codes s @ [c]\<rparr>)"
  by (simp add: sid_site_def log_append_def)

lemma sid_site_miss:
  assumes "map_of (function_cache s) (n, d) = None"
  shows "function_cache (snd (sid_site n d s)) = dict_set (function_cache s) (n, d) (JStr (fst (generate_function n d s)))"
    "function_codes (snd (sid_site n d s)) = function_codes s @ [JStr (fst (generate_function n d s))]"
    "completions (snd (sid_site n d s)) = Suc (completions s)"
  using assms by (simp_all add: sid_site_def log_append_def split_beta Let_def)

lemma sid_site_miss_log:
  assumes "map_of (function_cache s) (n, d) = None"
  shows "log (snd (sid_site n d s)) = log (snd (generate_function n d s))
           @ (if read_only s CACHE_FILE then [LogSaveFailed] else [])
           @ [LogGenerated (JStr (fst (generate_function n d s)))]"
  using assms by (simp add: sid_site_def Let_def split_beta log_save_cache log_append_def)

lemma log_append_tstate [simp]:
  "function_cache (log_append e s) = function_cache s"
  "function_codes (log_append e s) = function_codes s"
  "completions (log_append e s) = completions s"
  "files (log_append e s) = files s"
  "requests (log_append e s) = requests s"
  "read_only (log_append e s) = read_only s"
  by (simp_all add: log_append_def completions_def)

lemma card_new_keys_append:
  "card (set l1 \<union> set l2 - D) = card (set l1 - D) + card (set l2 - (D \<union> set l1))"
proof -
  have "set l1 \<union> set l2 - D = (set l1 - D) \<union> (set l2 - (D \<union> set l1))" by auto
  then show ?thesis by (simp add: card_Un_disjoint Diff_Un Int_Diff disjoint_iff)
qed

lemma pbind_preserves:
  assumes "\<And>s. I s \<Longrightarrow> I (snd (m s))" and "\<And>a s. I s \<Longrightarrow> I (snd (f a s))"
  shows "I s \<Longrightarrow> I (snd (pbind m f s))"
proof -
  assume "I s"
  then have "I (snd (m s))" by (rule assms(1))
  then show ?thesis
    by (cases "m s") (auto simp: pbind_def intro: assms(2) split: sum.split)
qed

lemma pret_preserves: "I s \<Longrightarrow> I (snd (pret a s))"
  by (simp add: pret_def)

lemma visit_invariant:
  fixes I :: "'z tstate_scheme \<Rightarrow> bool"
  assumes site: "\<And>n d ev s. I s \<Longrightarrow> I (snd (sid_site n d (log_append ev s)))"
      and arity: "\<And>lno col s. I s \<Longrightarrow> I (log_append (LogWrongArity lno col) s)"
  shows "I s \<Longrightarrow> I (snd (visit e s))"
    and "I s \<Longrightarrow> I (snd (visit_list es s))"
    and "I s \<Longrightarrow> I (snd (visit_kws kws s))"
proof (induction e s and es s and kws s rule: visit_visit_list_visit_kws.induct)
  case (1 lno col f args kws s)
  let ?s = "if sid_dispatch f lno col args = WrongArity then log_append (LogWrongArity lno col) s else s"
  have s: "I ?s" using "1.prems" arity by simp
  show ?case
  proof (cases "sid_dispatch f lno col args")
    case (Marker n d ev)
    then show ?thesis using site "1.prems" by simp
  next
    case (BadArgument e)
    then show ?thesis using "1.prems" by simp
  next
    case NotMarker
    with s show ?thesis
      by (simp, intro pbind_preserves [of I] pret_preserves [of I]) (use "1.IH"(1-3) NotMarker in simp_all)
  next
    case WrongArity
    with s show ?thesis
      by (simp, intro pbind_preserves [of I] pret_preserves [of I]) (use "1.IH"(4-6) WrongArity in simp_all)
  qed
next
  case (2 tag cs s)
  then show ?case by (simp, intro pbind_preserves [of I] pret_preserves [of I]) simp_all
next
  case (6 e es s)
  then show ?case by (simp, intro pbind_preserves [of I] pret_preserves [of I]) simp_all
next
  case (8 k e kws s)
  then show ?case by (simp, intro pbind_preserves [of I] pret_preserves [of I]) simp_all
qed simp_all

lemma sid_site_cache_wf:
  "cache_wf (function_cache s) \<Longrightarrow> cache_wf (function_cache (snd (sid_site n d s)))"
  by (cases "cache_map s (n, d)") (simp_all add: sid_site_miss sid_site_hit cache_wf_dict_set)

lemma sid_site_miss_file:
  assumes "cache_map s (n, d) = None" and "\<not> read_only s CACHE_FILE"
  shows "files (snd (sid_site n d s)) CACHE_FILE = Stored (cache_text (function_cache (snd (sid_site n d s))))"
  using assms by (simp add: sid_site_def log_append_def split_beta Let_def save_cache_writes)

lemma sid_site_write_through:
  assumes "\<not> read_only s CACHE_FILE"
  shows "(files (snd (sid_site n d s)) CACHE_FILE = files s CACHE_FILE
          \<and> function_cache (snd (sid_site n d s)) = function_cache s)
       \<or> files (snd (sid_site n d s)) CACHE_FILE = Stored (cache_text (function_cache (snd (sid_site n d s))))"
proof (cases "cache_map s (n, d)")
  case None
  then show ?thesis using sid_site_miss_file [OF None assms] by simp
next
  case (Some c)
  then show ?thesis using sid_site_hit [of s n d c] by simp
qed

lemma visit_list_constants: "visit_list (map Constant cs) s = (Inr (map Constant cs), s)"
  by (induction cs) (simp_all add: pret_def)

lemma visit_kws_constants:
  "visit_kws (map (\<lambda>(k, c). (k, Constant c)) ks) s = (Inr (map (\<lambda>(k, c). (k, Constant c)) ks), s)"
  by (induction ks) (auto simp: pret_def)

lemma oracles_sid_site [simp]: "oracles (snd (sid_site n d s)) = oracles s"
  by (simp add: sid_site_def Let_def split_beta split: option.split)

lemma oracles_visit: "oracles (snd (visit e s)) = oracles s"
  by (rule visit_invariant(1) [where I = "\<lambda>s'. oracles s' = oracles s"]) simp_all

lemma oracles_transformer_init [simp]: "oracles (transformer_init s) = oracles s"
  by (simp add: transformer_init_def Let_def split_beta)

lemma files_sid_site: "p \<noteq> CACHE_FILE \<Longrightarrow> files (snd (sid_site n d s)) p = files s p"
  by (simp add: sid_site_def Let_def split_beta files_save_cache log_append_def split: option.split)

lemma files_visit: "p \<noteq> CACHE_FILE \<Longrightarrow> files (snd (visit e s)) p = files s p"
  by (rule visit_invariant(1) [where I = "\<lambda>s'. files s' p = files s p"]) (simp_all add: files_sid_site)

lemma files_sid_site_read_only:
  "read_only s CACHE_FILE \<Longrightarrow> files (snd (sid_site n d s)) = files s"
  by (simp add: sid_site_def Let_def split_beta save_cache_read_only log_append_def split: option.split)

lemma files_visit_read_only:
  assumes "read_only s CACHE_FILE"
  shows "files (snd (visit e s)) = files s"
proof -
  have "files (snd (visit e s)) = files s \<and> oracles (snd (visit e s)) = oracles s"
  proof (rule visit_invariant(1) [where I = "\<lambda>s'. files s' = files s \<and> oracles s' = oracles s"])
    fix n d ev and s' :: "'z tstate_scheme"
    assume i: "files s' = files s \<and> oracles s' = oracles s"
    then have ro: "read_only (log_append ev s') CACHE_FILE" using assms oracles_eqD(1) [of s' s] by simp
    then show "files (snd (sid_site n d (log_append ev s'))) = files s
             \<and> oracles (snd (sid_site n d (log_append ev s'))) = oracles s"
      using i files_sid_site_read_only [OF ro, of n d] oracles_sid_site by (simp add: log_append_def)
  qed (simp_all add: log_append_def)
  then show ?thesis ..
qed

lemma files_transformer_init [simp]: "files (transformer_init s) = files s"
  by (simp add: transformer_init_def Let_def split_beta get_token_state time_now_def)

lemma completions_transformer_init [simp]: "completions (transformer_init s) = completions s"
  by (simp add: transformer_init_def Let_def split_beta get_token_state time_now_def
      completions_def load_cache_def load_failed_def log_append_def
      split: sum.split option.split json.split)

lemma stdout_transformer_init [simp]: "stdout (transformer_init s) = stdout s"
  by (simp add: transformer_init_def Let_def split_beta get_token_state time_now_def
      load_cache_def load_failed_def log_append_def split: sum.split option.split json.split)

lemma completions_stdout [simp]: "completions (s\<lparr>stdout := out\<rparr>) = completions s"
  by (simp add: completions_def)

lemma visit_warm:
  assumes "\<not> raises e" and "set (sites e) \<subseteq> dom (cache_map s)"
  shows "requests (snd (visit e s)) = requests s \<and> files (snd (visit e s)) = files s
       \<and> function_cache (snd (visit e s)) = function_cache s \<and> clock_reads (snd (visit e s)) = clock_reads s"
proof -
  let ?Q = "\<lambda>s s'. requests s' = requests s \<and> files s' = files s
       \<and> function_cache s' = function_cache s \<and> clock_reads s' = clock_reads s"
  have "dom (cache_map s) \<subseteq> dom (cache_map (snd (visit e s)))
      \<and> (set (sites e) \<subseteq> dom (cache_map s) \<longrightarrow> ?Q s (snd (visit e s)))"
  proof (rule visit_compose(1)[OF _ _ _ _ assms(1)])
    fix n d ev and s :: "'z tstate_scheme"
    let ?s = "log_append ev s"
    show "dom (cache_map s) \<subseteq> dom (cache_map (snd (sid_site n d ?s)))
      \<and> (set [(n, d)] \<subseteq> dom (cache_map s) \<longrightarrow> ?Q s (snd (sid_site n d ?s)))"
    proof (cases "cache_map s (n, d)")
      case None
      then show ?thesis using sid_site_miss [of ?s n d] by auto
    next
      case (Some c)
      then show ?thesis using sid_site_hit [of ?s n d c] by (auto simp: log_append_def)
    qed
  qed (auto simp: log_append_def)
  with assms(2) show ?thesis by blast
qed

lemma visit_cache_codes_all:
  assumes "\<not> raises e"
  shows "cache_map s \<subseteq>\<^sub>m cache_map (snd (visit e s))
       \<and> dom (cache_map (snd (visit e s))) = dom (cache_map s) \<union> set (sites e)
       \<and> function_codes (snd (visit e s)) =
           function_codes s @ map (\<lambda>k. the (cache_map (snd (visit e s)) k)) (sites e)"
proof (rule visit_compose(1)[OF _ _ _ _ assms])
  fix s1 s2 s3 :: "'z tstate_scheme" and l1 l2
  assume 1: "cache_map s1 \<subseteq>\<^sub>m cache_map s2 \<and> dom (cache_map s2) = dom (cache_map s1) \<union> set l1
           \<and> function_codes s2 = function_codes s1 @ map (\<lambda>k. the (cache_map s2 k)) l1"
     and 2: "cache_map s2 \<subseteq>\<^sub>m cache_map s3 \<and> dom (cache_map s3) = dom (cache_map s2) \<union> set l2
           \<and> function_codes s3 = function_codes s2 @ map (\<lambda>k. the (cache_map s3 k)) l2"
  have "\<forall>k\<in>set l1. cache_map s3 k = cache_map s2 k"
    using 1 2 by (metis UnCI map_le_def)
  then have "map (\<lambda>k. the (cache_map s2 k)) l1 = map (\<lambda>k. the (cache_map s3 k)) l1" by simp
  with 1 2 show "cache_map s1 \<subseteq>\<^sub>m cache_map s3 \<and> dom (cache_map s3) = dom (cache_map s1) \<union> set (l1 @ l2)
           \<and> function_codes s3 = function_codes s1 @ map (\<lambda>k. the (cache_map s3 k)) (l1 @ l2)"
    by (auto intro: map_le_trans)
next
  fix n d ev and s :: "'z tstate_scheme"
  let ?s = "log_append ev s"
  show "cache_map s \<subseteq>\<^sub>m cache_map (snd (sid_site n d ?s))
       \<and> dom (cache_map (snd (sid_site n d ?s))) = dom (cache_map s) \<union> set [(n, d)]
       \<and> function_codes (snd (sid_site n d ?s)) =
           function_codes s @ map (\<lambda>k. the (cache_map (snd (sid_site n d ?s)) k)) [(n, d)]"
  proof (cases "cache_map s (n, d)")
    case None
    then show ?thesis using sid_site_miss [of ?s n d]
      by (auto simp: map_le_def)
  next
    case (Some c)
    then show ?thesis using sid_site_hit [of ?s n d c]
      by (auto simp: log_append_def)
  qed
qed (simp_all add: log_append_def)

lemma visit_completions_all:
  assumes "\<not> raises e"
  shows "completions (snd (visit e s)) = completions s + card (set (sites e) - dom (cache_map s))"
proof -
  have "dom (cache_map (snd (visit e s))) = dom (cache_map s) \<union> set (sites e)
      \<and> completions (snd (visit e s)) = completions s + card (set (sites e) - dom (cache_map s))"
  proof (rule visit_compose(1)[OF _ _ _ _ assms])
    fix s1 s2 s3 :: "'z tstate_scheme" and l1 l2
    assume "dom (cache_map s2) = dom (cache_map s1) \<union> set l1
              \<and> completions s2 = completions s1 + card (set l1 - dom (cache_map s1))"
       and "dom (cache_map s3) = dom (cache_map s2) \<union> set l2
              \<and> completions s3 = completions s2 + card (set l2 - dom (cache_map s2))"
    then show "dom (cache_map s3) = dom (cache_map s1) \<union> set (l1 @ l2)
              \<and> completions s3 = completions s1 + card (set (l1 @ l2) - dom (cache_map s1))"
      by (simp add: card_new_keys_append Un_assoc)
  next
    fix n d ev and s :: "'z tstate_scheme"
    let ?s = "log_append ev s"
    show "dom (cache_map (snd (sid_site n d ?s))) = dom (cache_map s) \<union> set [(n, d)]
        \<and> completions (snd (sid_site n d ?s)) = completions s + card (set [(n, d)] - dom (cache_map s))"
    proof (cases "cache_map s (n, d)")
      case None
      then have "{(n, d)} - dom (cache_map s) = {(n, d)}" by auto
      with None show ?thesis using sid_site_miss [of ?s n d] by auto
    next
      case (Some c)
      then show ?thesis using sid_site_hit [of ?s n d c]
        by (auto simp: log_append_def domI)
    qed
  qed (simp_all add: log_append_def)
  then show ?thesis ..
qed

lemma visit_cached_completions:
  assumes "\<not> raises e" and "set (sites e) \<subseteq> dom (cache_map s)"
  shows "completions (snd (visit e s)) = completions s"
  using visit_warm [OF assms] by (simp add: completions_def)

text \<open>Where the walk leaves the cache file: untouched when every site hit the cache
  (which then did not change), otherwise holding the final cache.\<close>

lemma visit_cache_file:
  assumes "\<not> raises e" and "\<not> read_only s CACHE_FILE"
  shows "(files (snd (visit e s)) CACHE_FILE = files s CACHE_FILE
          \<and> set (sites e) \<subseteq> dom (cache_map s) \<and> function_cache (snd (visit e s)) = function_cache s)
       \<or> (files (snd (visit e s)) CACHE_FILE = Stored (cache_text (function_cache (snd (visit e s))))
          \<and> set (sites e) \<subseteq> dom (cache_map (snd (visit e s))))"
proof -
  let ?Q = "\<lambda>s s' l. (files s' CACHE_FILE = files s CACHE_FILE \<and> set l \<subseteq> dom (cache_map s)
                        \<and> function_cache s' = function_cache s)
      \<or> (files s' CACHE_FILE = Stored (cache_text (function_cache s')) \<and> set l \<subseteq> dom (cache_map s'))"
  let ?P = "\<lambda>s s' l. oracles s' = oracles s \<and> dom (cache_map s) \<subseteq> dom (cache_map s')
                     \<and> (\<not> read_only s CACHE_FILE \<longrightarrow> ?Q s s' l)"
  have "?P s (snd (visit e s)) (sites e)"
  proof (rule visit_compose(1)[OF _ _ _ _ assms(1)])
    fix s1 s2 s3 :: "'z tstate_scheme" and l1 l2
    assume 1: "?P s1 s2 l1" and 2: "?P s2 s3 l2"
    have ro: "read_only s2 = read_only s1"
      using 1 oracles_eqD(1) by metis
    have d12: "dom (cache_map s1) \<subseteq> dom (cache_map s2)" and d23: "dom (cache_map s2) \<subseteq> dom (cache_map s3)"
      using 1 2 by blast+
    have "?Q s1 s3 (l1 @ l2)" if w: "\<not> read_only s1 CACHE_FILE"
    proof -
      have Q1: "?Q s1 s2 l1" using 1 w by blast
      have Q2: "?Q s2 s3 l2" using 2 w ro by simp
      from Q1 show ?thesis
      proof
        assume a1: "files s2 CACHE_FILE = files s1 CACHE_FILE \<and> set l1 \<subseteq> dom (cache_map s1)
                        \<and> function_cache s2 = function_cache s1"
        from Q2 show ?thesis
        proof
          assume "files s3 CACHE_FILE = files s2 CACHE_FILE \<and> set l2 \<subseteq> dom (cache_map s2)
                        \<and> function_cache s3 = function_cache s2"
          with a1 show ?thesis by simp
        next
          assume b2: "files s3 CACHE_FILE = Stored (cache_text (function_cache s3)) \<and> set l2 \<subseteq> dom (cache_map s3)"
          have "set l1 \<subseteq> dom (cache_map s3)" using a1 d12 d23 by blast
          with b2 show ?thesis by simp
        qed
      next
        assume b1: "files s2 CACHE_FILE = Stored (cache_text (function_cache s2)) \<and> set l1 \<subseteq> dom (cache_map s2)"
        have l1: "set l1 \<subseteq> dom (cache_map s3)" using b1 d23 by blast
        from Q2 show ?thesis
        proof
          assume "files s3 CACHE_FILE = files s2 CACHE_FILE \<and> set l2 \<subseteq> dom (cache_map s2)
                        \<and> function_cache s3 = function_cache s2"
          with b1 show ?thesis by simp
        next
          assume "files s3 CACHE_FILE = Stored (cache_text (function_cache s3)) \<and> set l2 \<subseteq> dom (cache_map s3)"
          with l1 show ?thesis by simp
        qed
      qed
    qed
    moreover have "oracles s3 = oracles s1" using 1 2 by simp
    ultimately show "?P s1 s3 (l1 @ l2)" using d12 d23 by blast
  next
    fix n d ev and s :: "'z tstate_scheme"
    let ?s = "log_append ev s"
    show "?P s (snd (sid_site n d ?s)) [(n, d)]"
    proof (cases "cache_map s (n, d)")
      case None
      then show ?thesis using sid_site_miss_file [of ?s n d] sid_site_miss(1) [of ?s n d] by auto
    next
      case (Some c)
      then show ?thesis using sid_site_hit [of ?s n d c] by (auto simp: log_append_def oracles_def)
    qed
  qed (auto simp: log_append_def)
  with assms(2) show ?thesis by blast
qed

lemma function_cache_transformer_init:
  "function_cache (transformer_init s) = function_cache (load_cache s)"
proof -
  have "function_cache (load_cache (s\<lparr>function_codes := []\<rparr>)) = function_cache (load_cache s)"
    by (rule load_cache_same_file) simp
  then show ?thesis
    by (simp add: transformer_init_def Let_def split_beta get_token_state time_now_def)
qed

lemma function_codes_transformer_init: "function_codes (transformer_init s) = []"
proof -
  have "function_codes (load_cache (s\<lparr>function_codes := []\<rparr>)) = []"
    by (simp add: load_cache_def load_failed_def log_append_def split: sum.split option.split json.split)
  then show ?thesis by (simp add: transformer_init_def Let_def split_beta get_token_state time_now_def)
qed

lemma token_requests_tstate [simp]:
  "token_requests (s\<lparr>function_cache := c\<rparr>) = token_requests s"
  "token_requests (s\<lparr>function_codes := fs\<rparr>) = token_requests s"
  "token_requests (s\<lparr>log := l\<rparr>) = token_requests s"
  "token_requests (save_cache s) = token_requests s"
  "token_requests (log_append e s) = token_requests s"
  by (simp_all add: token_requests_def log_append_def)

lemma sid_site_token_bound:
  "completions s \<le> completions (snd (sid_site n d s))
   \<and> token_requests (snd (sid_site n d s)) + completions s \<le> token_requests s + completions (snd (sid_site n d s))"
proof (cases "cache_map s (n, d)")
  case None
  have "token_requests (snd (sid_site n d s)) = token_requests (snd (generate_function n d s))"
    using None by (simp add: sid_site_def Let_def split_beta)
  then show ?thesis
    using None sid_site_miss(3) [OF None] token_requests_generate_function [of n d s] by simp
next
  case (Some c)
  then show ?thesis by (simp add: sid_site_hit)
qed

lemma run_ops_append [simp]: "run_ops (xs @ ys) s = run_ops ys (run_ops xs s)"
  by (simp add: run_ops_def)

lemma run_ops_simps [simp]: "run_ops [] s = s" "run_ops (x # xs) s = run_ops xs (run_op x s)"
  by (simp_all add: run_ops_def)

lemma snd_ops_then [simp]: "snd (ops_then a b) = (snd a \<or> snd b)"
  by (simp add: ops_then_def)

lemma ops_then_continue [simp]: "ops_then (xs, False) b = (xs @ fst b, snd b)"
  by (simp add: ops_then_def)

lemma walk_ops_raises:
  "snd (walk_ops e) = raises e"
  "snd (walk_ops_list es) = list_ex raises es"
  "snd (walk_ops_kws kws) = list_ex (\<lambda>(k, e). raises e) kws"
  by (induction e and es and kws rule: walk_ops_walk_ops_list_walk_ops_kws.induct)
     (auto split: dispatch.split)

lemma pbind_run_ops:
  assumes "snd (m s) = run_ops (fst a) s" and "(\<exists>e. fst (m s) = Inl e) = snd a"
      and "\<And>x. fst (m s) = Inr x \<Longrightarrow> snd (f x (snd (m s))) = run_ops (fst b) (snd (m s))"
  shows "snd (pbind m f s) = run_ops (fst (ops_then a b)) s"
  using assms by (cases "m s"; cases "fst (m s)") (auto simp: pbind_def ops_then_def)

lemma snd_pbind_pret [simp]: "snd (pbind m (\<lambda>x. pret (g x)) s) = snd (m s)"
  by (cases "m s") (auto simp: pbind_def pret_def split: sum.split)

lemma walk_refines_ops:
  "snd (visit e s) = run_ops (fst (walk_ops e)) s"
  "snd (visit_list es s) = run_ops (fst (walk_ops_list es)) s"
  "snd (visit_kws kws s) = run_ops (fst (walk_ops_kws kws)) s"
proof (induction e s and es s and kws s rule: visit_visit_list_visit_kws.induct)
  case (1 lno col f args kws s)
  show ?case
  proof (cases "sid_dispatch f lno col args")
    case NotMarker
    then show ?thesis
      by (simp, intro pbind_run_ops) (use "1.IH"(1-3) NotMarker in \<open>simp_all add: pret_def visit_refines walk_ops_raises\<close>)
  next
    case WrongArity
    then show ?thesis
      by (simp, intro pbind_run_ops)
         (use "1.IH"(4-6) WrongArity in \<open>simp_all add: pret_def visit_refines walk_ops_raises\<close>)
  qed simp_all
qed (auto intro!: pbind_run_ops simp: pret_def visit_refines walk_ops_raises split: if_splits)

subsection \<open>Properties: the claims of the walk\<close>

text \<open>C2: the fragments are the cache's values at the marker sites. A walk that does not raise
  only adds entries to the cache, adds exactly the keys of the marker sites it meets, and
  appends to \<open>function_codes\<close> one fragment per site, in the order the sites occur in
  the tree, each the value the final cache holds for that site's key, hit or miss.\<close>

theorem visit_cache_codes:
  assumes "\<not> raises e"
  shows "cache_map s \<subseteq>\<^sub>m cache_map (snd (visit e s))
       \<and> dom (cache_map (snd (visit e s))) = dom (cache_map s) \<union> set (sites e)
       \<and> function_codes (snd (visit e s)) =
           function_codes s @ map (\<lambda>k. the (cache_map (snd (visit e s)) k)) (sites e)"
  using visit_cache_codes_all [OF assms] .

text \<open>C3: one backend call per distinct uncached key. A walk that does not raise sends exactly
  as many completion requests as there are distinct marker keys in the tree that were not
  in the cache when it started: a repeated marker is generated once.\<close>

theorem visit_completions:
  assumes "\<not> raises e"
  shows "completions (snd (visit e s)) = completions s + card (set (sites e) - dom (cache_map s))"
  using visit_completions_all [OF assms] .

text \<open>C5: a warm cache makes the walk local. When every marker key of the tree is already in
  the cache, the walk sends no HTTP request, reads no clock, writes no file and leaves
  the cache as it was.\<close>

theorem visit_warm_cache:
  assumes "\<not> raises e" and "set (sites e) \<subseteq> dom (cache_map s)"
  shows "requests (snd (visit e s)) = requests s \<and> files (snd (visit e s)) = files s
       \<and> function_cache (snd (visit e s)) = function_cache s \<and> clock_reads (snd (visit e s)) = clock_reads s"
  using visit_warm [OF assms] .

text \<open>C7: a one-argument marker that hits the cache. \<open>sid(desc)\<close> is replaced by the name
  \<open>desc\<close> with every space turned into an underscore; the cached fragment for the key
  (that name, \<open>desc\<close>) is appended, and the two info records are logged, the site
  first; nothing else of the state changes, whatever the keyword arguments.\<close>

theorem visit_marker_hit:
  assumes "cache_map s (PyStr (replace_char space (CHR ''_'') d), PyStr d) = Some c"
  shows "visit (Call lno col sid_name [Constant (PyStr d)] kws) s =
           (Inr (Name (PyStr (replace_char space (CHR ''_'') d))),
            s\<lparr>log := log s @ [LogSite lno col (PyStr d), LogGenerated c],
              function_codes := function_codes s @ [c]\<rparr>)"
  using assms by (simp add: sid_dispatch_def sid_site_hit log_append_def)

text \<open>C8: a two-argument marker that misses the cache. \<open>sid(name, desc)\<close> is replaced by
  \<open>name\<close>; one completion request is sent; the generated text is added to the cache under
  the key at the end of the dict, appended to the fragments, and the whole cache is
  written through to \<open>CACHE_FILE\<close> before the walk goes on.\<close>

theorem visit_marker_miss:
  assumes "cache_map s (n, d) = None" and "\<not> read_only s CACHE_FILE"
      and "visit (Call lno col sid_name [Constant n, Constant d] kws) s = (r, s')"
  shows "r = Inr (Name n)
       \<and> function_cache s' = function_cache s @ [((n, d), JStr (fst (generate_function n d
                               (log_append (LogSiteNamed lno col n d) s))))]
       \<and> function_codes s' = function_codes s @ [the (cache_map s' (n, d))]
       \<and> files s' CACHE_FILE = Stored (cache_text (function_cache s'))
       \<and> completions s' = Suc (completions s)"
proof -
  let ?s = "log_append (LogSiteNamed lno col n d) s"
  have v: "visit (Call lno col sid_name [Constant n, Constant d] kws) s = sid_site n d ?s"
    by (simp add: sid_dispatch_def)
  have rs: "r = fst (sid_site n d ?s)" "s' = snd (sid_site n d ?s)"
    using assms(3) unfolding v by (metis fst_conv, metis snd_conv)
  have N: "cache_map ?s (n, d) = None" and W: "\<not> read_only ?s CACHE_FILE"
    using assms(1,2) by simp_all
  have k: "(n, d) \<notin> set (map fst (function_cache s))"
    using assms(1) by (simp add: map_of_eq_None_iff)
  have c: "function_cache s' = function_cache s @ [((n, d), JStr (fst (generate_function n d ?s)))]"
    using sid_site_miss(1) [OF N] k rs(2) by simp
  then have "the (cache_map s' (n, d)) = JStr (fst (generate_function n d ?s))"
    using assms(1) by (simp add: map_add_def)
  then show ?thesis
    using c rs sid_site_miss(2,3) [OF N] sid_site_miss_file [OF N W] by simp
qed

text \<open>C9: the cache file is written through. After every walk, including one that raises
  half way, with a writable cache file, either the file and the cache are as they were, or
  the file holds exactly the walk's final cache: each insertion is followed by a save of
  the whole cache.\<close>

theorem visit_cache_write_through:
  assumes "\<not> read_only s CACHE_FILE"
  shows "(files (snd (visit e s)) CACHE_FILE = files s CACHE_FILE
          \<and> function_cache (snd (visit e s)) = function_cache s)
       \<or> files (snd (visit e s)) CACHE_FILE = Stored (cache_text (function_cache (snd (visit e s))))"
proof -
  let ?I = "\<lambda>t. oracles t = oracles s \<and>
     ((files t CACHE_FILE = files s CACHE_FILE \<and> function_cache t = function_cache s)
      \<or> files t CACHE_FILE = Stored (cache_text (function_cache t)))"
  have "?I (snd (visit e s))"
  proof (rule visit_invariant(1) [where I = ?I])
    fix n d ev and t :: "'z tstate_scheme"
    assume i: "?I t"
    let ?t = "log_append ev t"
    have w: "\<not> read_only ?t CACHE_FILE" using i assms oracles_eqD(1) [of t s] by simp
    have o: "oracles (snd (sid_site n d ?t)) = oracles s" using i oracles_sid_site [of n d ?t] by simp
    from sid_site_write_through [OF w, of n d] i o
    show "?I (snd (sid_site n d ?t))" by (auto simp: log_append_def)
  qed (auto simp: log_append_def)
  then show ?thesis by blast
qed

text \<open>C10: a marker of the wrong arity is skipped. \<open>sid()\<close> or \<open>sid(a, b, c)\<close> with
  literal arguments is left as it is, with one error record for its position and no
  request.\<close>

theorem visit_wrong_arity:
  assumes "length cs \<notin> {1, 2}"
  shows "visit (Call lno col sid_name (map Constant cs) (map (\<lambda>(k, c). (k, Constant c)) ks)) s =
           (Inr (Call lno col sid_name (map Constant cs) (map (\<lambda>(k, c). (k, Constant c)) ks)),
            log_append (LogWrongArity lno col) s)"
proof -
  have "sid_dispatch sid_name lno col (map Constant cs) = WrongArity"
    using assms by (auto simp: sid_dispatch_def split: list.split)
  then show ?thesis by (simp add: visit_list_constants visit_kws_constants pret_def)
qed

text \<open>C11: a marker whose single argument is not a string literal raises. \<open>sid(x)\<close> with a
  variable, a call or an int literal makes \<open>description.s\<close> or \<open>.replace\<close> raise
  \<open>AttributeError\<close>, before any log record or request: the walk aborts rather than
  skipping the site.\<close>

theorem visit_bad_argument:
  assumes "\<forall>d. a \<noteq> Constant (PyStr d)"
  shows "visit (Call lno col sid_name [a] kws) s = (Inl AttributeError, s)"
  using assms by (cases a) (auto simp: sid_dispatch_def split: pyconst.split)

text \<open>C22: at most one token request per generation. Every walk, including one that
  raises, sends no more token requests than completion requests: a token is refreshed
  only inside \<open>generate_function\<close>, once at most, and only on a cache miss.\<close>

theorem visit_token_bound:
  "completions s \<le> completions (snd (visit e s))
   \<and> token_requests (snd (visit e s)) + completions s \<le> token_requests s + completions (snd (visit e s))"
proof (rule visit_invariant(1) [where I = "\<lambda>s'. completions s \<le> completions s'
            \<and> token_requests s' + completions s \<le> token_requests s + completions s'"])
  fix n d ev and s' :: "'z tstate_scheme"
  assume "completions s \<le> completions s' \<and> token_requests s' + completions s \<le> token_requests s + completions s'"
  then show "completions s \<le> completions (snd (sid_site n d (log_append ev s')))
     \<and> token_requests (snd (sid_site n d (log_append ev s'))) + completions s
        \<le> token_requests s + completions (snd (sid_site n d (log_append ev s')))"
    using sid_site_token_bound [of "log_append ev s'" n d] by simp
qed simp_all

text \<open>C24: the walk is its sequence of operations. For every tree, also one with a marker
  that raises, the state after \<open>visit\<close> is the state after running \<open>walk_ops\<close>: the
  marker sites and wrong-arity log records in document order, stopping at the first
  marker that raises. The walk raises exactly when \<open>walk_ops\<close> says it stops. Nothing
  else of the walk changes the state.\<close>

theorem visit_run_ops:
  "snd (visit e s) = run_ops (fst (walk_ops e)) s
   \<and> (\<exists>x. fst (visit e s) = Inl x) = snd (walk_ops e)"
  using walk_refines_ops(1) [of e s] by (simp add: visit_refines walk_ops_raises)

text \<open>C27: a failed generation still substitutes. When a marker misses the cache and the
  completion request raises, \<open>sid(name, desc)\<close> is still replaced by \<open>name\<close>, the
  empty text is cached under the key and appended to the fragments, and the walk goes on.
  The log has the site record, then the generation error, then the save error if the
  cache file is read-only, then the \<open>Generated code\<close> record of the empty text.\<close>

theorem visit_marker_gen_failed:
  assumes miss: "cache_map s (n, d) = None"
      and raised: "http (refresh_token (log_append (LogSiteNamed lno col n d) s))
             (length (requests (refresh_token (log_append (LogSiteNamed lno col n d) s))))
             (CompletionRequest (token (refresh_token (log_append (LogSiteNamed lno col n d) s))) (prompt n d))
           = HttpRaised"
      and v: "visit (Call lno col sid_name [Constant n, Constant d] kws) s = (r, s')"
  shows "r = Inr (Name n)
       \<and> function_cache s' = function_cache s @ [((n, d), JStr [])]
       \<and> function_codes s' = function_codes s @ [JStr []]
       \<and> log s' = log s @ [LogSiteNamed lno col n d, LogGenFailed]
                  @ (if read_only s CACHE_FILE then [LogSaveFailed] else []) @ [LogGenerated (JStr [])]
       \<and> completions s' = Suc (completions s)"
proof -
  let ?s = "log_append (LogSiteNamed lno col n d) s"
  have "visit (Call lno col sid_name [Constant n, Constant d] kws) s = sid_site n d ?s"
    by (simp add: sid_dispatch_def)
  then have rs: "r = fst (sid_site n d ?s)" "s' = snd (sid_site n d ?s)"
    using v by (metis fst_conv, metis snd_conv)
  have N: "cache_map ?s (n, d) = None" using miss by simp
  have k: "(n, d) \<notin> set (map fst (function_cache s))" using miss by (simp add: map_of_eq_None_iff)
  note g = generate_function_raised [OF raised]
  show ?thesis
    using rs sid_site_miss(1-3) [OF N] sid_site_miss_log [OF N] k g by (simp add: log_append_def)
qed

text \<open>C29: the walk can create a marker. When the callee of a call is the marker
  \<open>sid('sid')\<close> and the call's arguments are constants that form a valid marker, the walk
  replaces the callee by the name \<open>sid\<close> and keeps the call, so the tree it returns holds
  a marker with the arguments' key, whatever the state. Compiling the output again would
  generate another function.\<close>

theorem visit_creates_marker:
  assumes m: "sid_dispatch sid_name lno col (map Constant cs) = Marker n d ev"
      and k: "\<not> list_ex (\<lambda>(k, e). raises e) kws"
  shows "fst (visit (Call lno col (Call l c sid_name [Constant (PyStr ''sid'')] kws0) (map Constant cs) kws) s)
           = Inr (Call lno col sid_name (map Constant cs) (map (\<lambda>(k, e). (k, rewrite e)) kws))
       \<and> sites (Call lno col sid_name (map Constant cs) (map (\<lambda>(k, e). (k, rewrite e)) kws)) = [(n, d)]"
proof -
  have inner: "sid_dispatch sid_name l c [Constant (PyStr ''sid'')]
      = Marker (PyStr ''sid'') (PyStr ''sid'') (LogSite l c (PyStr ''sid''))"
    by (simp add: sid_dispatch_def)
  have outer: "sid_dispatch (Call l c sid_name [Constant (PyStr ''sid'')] kws0) lno col (map Constant cs) = NotMarker"
    by (simp add: sid_dispatch_def)
  have "\<not> list_ex raises (map Constant cs)" by (induction cs) simp_all
  moreover have "map rewrite (map Constant cs) = map Constant cs" by (induction cs) simp_all
  ultimately show ?thesis using m k inner outer
    by (simp del: visit.simps add: visit_refines)
qed

end
