(* ===== verification/Driver.thy ===== *)
theory Driver
  imports Transformer
begin

text \<open>
  The Compiler Driver of src/AutoPyFunc.py: \<open>sid_compiler\<close> (lines 135-153),
  \<open>interactive_mode\<close> (lines 155-158) and the \<open>__main__\<close> block (lines 160-169).
  \<^item> \<open>sid_compiler\<close> reads the input file (a failure is logged and the function
    returns), parses it (a \<open>SyntaxError\<close> is not caught), builds a transformer
    (which loads the cache and fetches a token), walks the module, joins the fragments
    with blank lines, appends the unparsed module and writes the output file (a failure
    is logged). \<open>ast.parse\<close> returns a \<open>Module\<close>, a node the walk mutates in place,
    so the module printed is the tree the walk returns.
  \<^item> \<open>interactive_mode\<close> prompts for one line, builds a transformer and generates one
    function for it, and prints the result.
  \<^item> \<open>main\<close> is the dispatch on the positional arguments argparse accepts: both paths
    given and non-empty run the compiler; fewer, or an empty one, run the interactive
    mode; a third makes argparse exit with status 2.
  \<^item> \<open>rerun_reach\<close> is the states reached by running the compiler again and again on
    the same paths. A normal run is a fixed point for all later runs: they ask the
    backend nothing and write the same files (C25).
\<close>

text \<open>\<open>'\n\n'.join(function_codes)\<close>: a fragment that is not a \<open>str\<close> (a value of a
  hand-edited cache file) raises \<open>TypeError\<close>.\<close>

fun py_strs :: "json list \<Rightarrow> string list option" where
  "py_strs [] = Some []"
| "py_strs (JStr c # cs) = map_option (\<lambda>xs. c # xs) (py_strs cs)"
| "py_strs (_ # cs) = None"

definition join_codes :: "json list \<Rightarrow> py_exc + string" where
  "join_codes cs = (case py_strs cs of Some xs \<Rightarrow> Inr (join [newline, newline] xs) | None \<Rightarrow> Inl TypeError)"

definition sid_compiler :: "string \<Rightarrow> string \<Rightarrow> 'z tstate_scheme \<Rightarrow> (py_exc + unit) \<times> 'z tstate_scheme" where
  "sid_compiler input_path output_path s =
     (case read_file input_path s of
       Inl _ \<Rightarrow> (Inr (), log_append LogReadFailed s)
     | Inr src \<Rightarrow>
         (case py_parse s src of
           None \<Rightarrow> (Inl SyntaxError, s)
         | Some tree \<Rightarrow>
             (case visit tree (transformer_init s) of
               (Inl e, s2) \<Rightarrow> (Inl e, s2)
             | (Inr tree', s2) \<Rightarrow>
                 (case join_codes (function_codes s2) of
                   Inl e \<Rightarrow> (Inl e, s2)
                 | Inr codes \<Rightarrow>
                     (case write_file output_path (codes @ py_unparse s2 tree') s2 of
                       (Inl _, s3) \<Rightarrow> (Inr (), log_append LogWriteFailed s3)
                     | (Inr _, s3) \<Rightarrow> (Inr (), s3))))))"

definition input_prompt :: string where
  "input_prompt = ''Enter a description of the function you want to generate: ''"

definition interactive_mode :: "'z tstate_scheme \<Rightarrow> 'z tstate_scheme" where
  "interactive_mode s =
     (let description = stdin_line s;
          s1 = s\<lparr>stdout := stdout s @ [input_prompt]\<rparr>;
          (c, s2) = generate_function (PyStr (replace_char space (CHR ''_'') description))
                      (PyStr description) (transformer_init s1)
      in s2\<lparr>stdout := stdout s2 @ [''Generated code:'' @ [newline, newline] @ c @ [newline, newline]]\<rparr>)"

definition main :: "string list \<Rightarrow> 'z tstate_scheme \<Rightarrow> (py_exc + unit) \<times> 'z tstate_scheme" where
  "main argv s =
     (case argv of
       [inp, outp] \<Rightarrow> if inp \<noteq> [] \<and> outp \<noteq> [] then sid_compiler inp outp s else (Inr (), interactive_mode s)
     | [] \<Rightarrow> (Inr (), interactive_mode s)
     | [inp] \<Rightarrow> (Inr (), interactive_mode s)
     | _ \<Rightarrow> (Inl (SystemExit 2), s))"


subsection \<open>Properties of the driver\<close>

lemma sid_compiler_completions:
  assumes "files s inp = Stored src" and "py_parse s src = Some tree"
  shows "completions (snd (sid_compiler inp outp s)) = completions (snd (visit tree (transformer_init s)))"
  using assms
  by (simp add: sid_compiler_def read_file_def write_file_def completions_def log_append_def
      split: prod.split sum.split)


text \<open>A run on a tree that parses and does not raise: the join, then the write.\<close>

lemma sid_compiler_walked:
  assumes "files s inp = Stored src" and "py_parse s src = Some tree" and "\<not> raises tree"
  shows "sid_compiler inp outp s =
    (let s2 = snd (visit tree (transformer_init s)) in
     case join_codes (function_codes s2) of
       Inl e \<Rightarrow> (Inl e, s2)
     | Inr codes \<Rightarrow>
         if read_only s outp then (Inr (), log_append LogWriteFailed s2)
         else (Inr (), s2\<lparr>files := (files s2)(outp := Stored (codes @ py_unparse s (rewrite tree)))\<rparr>))"
proof -
  obtain s2 where v: "visit tree (transformer_init s) = (Inr (rewrite tree), s2)"
    using visit_refines(1) [of tree "transformer_init s"] assms(3) by (metis prod.collapse)
  then have "oracles s2 = oracles s" by (metis oracles_visit oracles_transformer_init snd_conv)
  then show ?thesis
    using assms oracles_eqD [of s2 s]
    by (simp add: sid_compiler_def read_file_def write_file_def v split: sum.split)
qed

lemma sid_compiler_walked_frame:
  assumes "files s inp = Stored src" and "py_parse s src = Some tree" and "\<not> raises tree"
  shows "(\<forall>p. p \<noteq> outp \<longrightarrow> files (snd (sid_compiler inp outp s)) p = files (snd (visit tree (transformer_init s))) p)
       \<and> oracles (snd (sid_compiler inp outp s)) = oracles s"
proof -
  have "oracles (snd (visit tree (transformer_init s))) = oracles s"
    using oracles_visit oracles_transformer_init by metis
  then show ?thesis using sid_compiler_walked [OF assms, of outp]
    by (auto simp: Let_def log_append_def split: sum.split)
qed






lemma interactive_mode_frame:
  "files (interactive_mode s) = files s \<and> completions (interactive_mode s) = Suc (completions s)"
  by (simp add: interactive_mode_def Let_def split_beta)

text \<open>C1: the output file. When the input file parses to a tree whose walk does not raise and
  whose fragments are all strings, \<open>sid_compiler\<close> returns normally and its only effect
  beyond the walk's is to write to the output path the fragments joined by blank lines,
  immediately followed by the unparsed tree in which every marker call is replaced by its
  name (\<open>rewrite\<close>).\<close>

theorem sid_compiler_output:
  assumes "files s inp = Stored src" and "py_parse s src = Some tree" and "\<not> raises tree"
      and "\<not> read_only s outp"
      and "py_strs (function_codes (snd (visit tree (transformer_init s)))) = Some frags"
  shows "sid_compiler inp outp s =
           (Inr (), (let s2 = snd (visit tree (transformer_init s))
                     in s2\<lparr>files := (files s2)(outp := Stored (join [newline, newline] frags
                                                          @ py_unparse s (rewrite tree)))\<rparr>))"
  using sid_compiler_walked [OF assms(1-3), of outp] assms(4,5) by (simp add: join_codes_def Let_def)

text \<open>C15: a bad marker crashes the compiler. When the tree has a marker whose argument is
  not a literal (\<open>raises\<close>), \<open>sid_compiler\<close> ends with the uncaught
  \<open>AttributeError\<close> and the output file is left as it was (the fragments generated
  before the bad site stay in the cache file).\<close>

theorem sid_compiler_raises:
  assumes "files s inp = Stored src" and "py_parse s src = Some tree" and "raises tree"
      and "outp \<noteq> CACHE_FILE"
  shows "fst (sid_compiler inp outp s) = Inl AttributeError
       \<and> files (snd (sid_compiler inp outp s)) outp = files s outp"
proof -
  obtain s2 where v: "visit tree (transformer_init s) = (Inl AttributeError, s2)"
    using visit_refines(1) [of tree "transformer_init s"] assms(3) by (metis prod.collapse)
  then have "files s2 outp = files s outp"
    using files_visit [OF assms(4), of tree "transformer_init s"] by simp
  then show ?thesis
    using assms by (simp add: sid_compiler_def read_file_def v)
qed

text \<open>C16: a cached value that is not a string crashes the join. When the walk succeeds but a
  fragment (from a hand-edited cache file) is not a \<open>str\<close>, \<open>sid_compiler\<close> raises
  \<open>TypeError\<close> after the walk and writes no output.\<close>

theorem sid_compiler_type_error:
  assumes "files s inp = Stored src" and "py_parse s src = Some tree" and "\<not> raises tree"
      and "py_strs (function_codes (snd (visit tree (transformer_init s)))) = None"
  shows "sid_compiler inp outp s = (Inl TypeError, snd (visit tree (transformer_init s)))"
  using sid_compiler_walked [OF assms(1-3), of outp] assms(4) by (simp add: join_codes_def Let_def)

text \<open>C17: a syntax error in the input is not caught, and happens before any effect: no
  cache is loaded, no token requested, nothing logged.\<close>

theorem sid_compiler_syntax_error:
  assumes "files s inp = Stored src" and "py_parse s src = None"
  shows "sid_compiler inp outp s = (Inl SyntaxError, s)"
  using assms by (simp add: sid_compiler_def read_file_def)

text \<open>C18: an unreadable input file is logged and nothing else happens: \<open>sid_compiler\<close>
  returns normally without touching the cache, the network or the output.\<close>

theorem sid_compiler_read_failed:
  assumes "files s inp \<in> {Missing, Unreadable}"
  shows "sid_compiler inp outp s = (Inr (), log_append LogReadFailed s)"
  using assms by (auto simp: sid_compiler_def read_file_def)

text \<open>C19: interactive mode generates once. It makes exactly one call to the generation
  backend, writes no file (the cache is loaded but neither consulted nor saved), and prints
  the prompt and then the generated code between the header line and a blank line; the
  name it asks for is the description with spaces turned into underscores.\<close>

theorem interactive_mode_once:
  "completions (interactive_mode s) = Suc (completions s)
   \<and> files (interactive_mode s) = files s
   \<and> stdout (interactive_mode s) = stdout s @
       [input_prompt, ''Generated code:'' @ [newline, newline]
          @ fst (generate_function (PyStr (replace_char space (CHR ''_'') (stdin_line s)))
                   (PyStr (stdin_line s)) (transformer_init (s\<lparr>stdout := stdout s @ [input_prompt]\<rparr>)))
          @ [newline, newline]]"
  by (simp add: interactive_mode_def Let_def split_beta)


text \<open>C26: a cache file that cannot be written is paid for on every run. When the cache file
  is read-only, each save after a miss fails and is only logged: the file keeps its
  content, a run sends one completion request per distinct key the file does not hold,
  and the next run on the state it left sends exactly as many again.\<close>

theorem sid_compiler_read_only_cache:
  assumes rd: "files s inp = Stored src" and ps: "py_parse s src = Some tree" and nr: "\<not> raises tree"
      and ro: "read_only s CACHE_FILE"
      and paths: "inp \<noteq> CACHE_FILE" "outp \<noteq> CACHE_FILE" "inp \<noteq> outp"
  shows "files (snd (sid_compiler inp outp s)) CACHE_FILE = files s CACHE_FILE
     \<and> completions (snd (sid_compiler inp outp s))
         = completions s + card (set (sites tree) - dom (cache_map (transformer_init s)))
     \<and> completions (snd (sid_compiler inp outp (snd (sid_compiler inp outp s))))
         = completions (snd (sid_compiler inp outp s)) + card (set (sites tree) - dom (cache_map (transformer_init s)))"
proof -
  let ?t = "transformer_init s" and ?s1 = "snd (sid_compiler inp outp s)"
  have "read_only ?t CACHE_FILE" using ro oracles_eqD(1) [OF oracles_transformer_init [of s]] by simp
  from files_visit_read_only [OF this, of tree] have f2: "files (snd (visit tree ?t)) = files s" by simp
  note fr = sid_compiler_walked_frame [OF rd ps nr, of outp]
  have fc: "files ?s1 CACHE_FILE = files s CACHE_FILE" using fr f2 paths(2) by simp
  have c1: "completions ?s1 = completions s + card (set (sites tree) - dom (cache_map ?t))"
    using sid_compiler_completions [OF rd ps] visit_completions_all [OF nr, of ?t] by simp
  have rd1: "files ?s1 inp = Stored src" using fr f2 paths(3) rd by simp
  have ps1: "py_parse ?s1 src = Some tree" using ps oracles_eqD(5) fr by metis
  have "function_cache (transformer_init ?s1) = function_cache ?t"
    using load_cache_same_file [of ?s1 s] fc by (simp add: function_cache_transformer_init)
  then have "completions (snd (sid_compiler inp outp ?s1))
      = completions ?s1 + card (set (sites tree) - dom (cache_map ?t))"
    using sid_compiler_completions [OF rd1 ps1] visit_completions_all [OF nr, of "transformer_init ?s1"]
    by simp
  with fc c1 show ?thesis by simp
qed

text \<open>C28: the dispatch of the \<open>__main__\<close> block. More than two positional arguments make
  argparse exit with status 2 before anything happens. Fewer than two, or an empty path,
  run the interactive mode instead of the compiler: it returns normally, writes no file and
  makes exactly one backend call.\<close>

theorem main_dispatch:
  "(2 < length argv \<longrightarrow> main argv s = (Inl (SystemExit 2), s))
   \<and> (length argv < 2 \<or> (length argv = 2 \<and> [] \<in> set argv) \<longrightarrow>
        fst (main argv s) = Inr () \<and> files (snd (main argv s)) = files s
        \<and> completions (snd (main argv s)) = Suc (completions s))"
  using interactive_mode_frame [of s]
  by (cases argv rule: remdups_adj.cases) (auto simp: main_def split: list.splits)

end
