(* ===== verification/Logging.thy ===== *)
theory Logging
  imports World
begin

text \<open>
  The logging of src/AutoPyFunc.py: the level and the message text of every record the
  program emits (lines 58, 63, 65, 75, 112, 122, 133, 140 and 153), and the record layout
  of \<open>logging.basicConfig\<close> (lines 16-20).
  \<^item> \<open>log_level_of\<close> is \<open>logging.info\<close> or \<open>logging.error\<close> at the call that emits
    the record. Both pass the root logger's \<open>INFO\<close> threshold.
  \<^item> \<open>log_text\<close> is the f-string of the call. Numbers are printed by \<open>str\<close> (decimal), and
    the constants of a marker by \<open>str\<close> of their value. An error record's message ends
    with \<open>str(e)\<close> of the exception caught, a text of the library that raised it. The
    model stops before that text.
  \<^item> \<open>json_py_str\<close> is \<open>str\<close> of a value loaded from the cache file (the fragment of
    line 75): a \<open>str\<close> is itself, any other value is its \<open>repr\<close>.
  \<^item> \<open>format_record\<close> is the format \<open>[%(asctime)s] <%(levelname)s> %(message)s\<close>. The
    time stamp (\<open>asctime\<close> formatted by \<open>datefmt\<close>) is a parameter: the calendar is not
    modelled.
\<close>

datatype log_level = INFO | ERROR

fun log_level_of :: "log_event \<Rightarrow> log_level" where
  "log_level_of (LogSite lno col d) = INFO"
| "log_level_of (LogSiteNamed lno col n d) = INFO"
| "log_level_of (LogWrongArity lno col) = ERROR"
| "log_level_of (LogGenerated c) = INFO"
| "log_level_of LogGenFailed = ERROR"
| "log_level_of LogLoadFailed = ERROR"
| "log_level_of LogSaveFailed = ERROR"
| "log_level_of LogReadFailed = ERROR"
| "log_level_of LogWriteFailed = ERROR"

fun level_name :: "log_level \<Rightarrow> string" where
  "level_name INFO = ''INFO''"
| "level_name ERROR = ''ERROR''"

text \<open>\<open>repr\<close> of a value \<open>json.load\<close> returns: \<open>None\<close>, \<open>True\<close>, \<open>False\<close>, the literal of an
  int or str, and lists and dicts with \<open>, \<close> and \<open>: \<close> between their parts.\<close>

fun json_py_repr :: "json \<Rightarrow> string" where
  "json_py_repr JNull = ''None''"
| "json_py_repr (JBool b) = (if b then ''True'' else ''False'')"
| "json_py_repr (JInt i) = py_repr_int i"
| "json_py_repr (JStr s) = py_repr_str s"
| "json_py_repr (JArr xs) = ''['' @ join '', '' (map json_py_repr xs) @ '']''"
| "json_py_repr (JObj kvs) =
     ''{'' @ join '', '' (map (\<lambda>kv. py_repr_str (fst kv) @ '': '' @ json_py_repr (snd kv)) kvs) @ ''}''"

fun json_py_str :: "json \<Rightarrow> string" where
  "json_py_str (JStr s) = s"
| "json_py_str JNull = json_py_repr JNull"
| "json_py_str (JBool b) = json_py_repr (JBool b)"
| "json_py_str (JInt i) = json_py_repr (JInt i)"
| "json_py_str (JArr xs) = json_py_repr (JArr xs)"
| "json_py_str (JObj kvs) = json_py_repr (JObj kvs)"

definition quote_dq :: string where
  "quote_dq = [CHR 0x22]"

fun log_text :: "log_event \<Rightarrow> string" where
  "log_text (LogSite lno col d) =
     ''Generating sid function at '' @ dec_str lno @ '':'' @ dec_str col
     @ '' described as '' @ quote_dq @ py_str d @ quote_dq"
| "log_text (LogSiteNamed lno col n d) =
     ''Generating sid function at '' @ dec_str lno @ '':'' @ dec_str col
     @ '' named '' @ quote_dq @ py_str n @ quote_dq @ '' described as '' @ quote_dq @ py_str d @ quote_dq"
| "log_text (LogWrongArity lno col) =
     ''Wrong number of arguments at '' @ dec_str lno @ '':'' @ dec_str col @ ''! Skipping.''"
| "log_text (LogGenerated c) = ''Generated code:'' @ [newline, newline] @ json_py_str c @ [newline]"
| "log_text LogGenFailed = ''Failed to generate function: ''"
| "log_text LogLoadFailed = ''Failed to load cache: ''"
| "log_text LogSaveFailed = ''Failed to save cache: ''"
| "log_text LogReadFailed = ''Failed to read input file: ''"
| "log_text LogWriteFailed = ''Failed to write output file: ''"

definition format_record :: "string \<Rightarrow> log_event \<Rightarrow> string" where
  "format_record asctime e =
     ''['' @ asctime @ ''] <'' @ level_name (log_level_of e) @ ''> '' @ log_text e"

end
