(* ===== verification/Scenarios.thy ===== *)
theory Scenarios
  imports Driver Logging
begin

text \<open>
  Concrete runs of the program, on a small world: an input file \<open>in.py\<close> with one
  marker, a backend that answers every token request with a token and every completion
  request with one function, a clock that advances one second per reading, and variants
  of it (a warm cache, a hand-edited cache file, a failing or raising backend, an
  unparsable input, a read-only cache file, an explicit name, an empty description).
  Each claim of the development with a hypothesis is applied here to one of these worlds.
\<close>

text \<open>A stand-in for \<open>astunparse.unparse\<close> on the nodes of the scenarios. As in
  astunparse, each statement starts on a new line (the unparser's \<open>fill\<close>) and the
  text ends with a newline.\<close>

fun demo_unparse :: "expr \<Rightarrow> string" where
  "demo_unparse (Name c) = py_str c"
| "demo_unparse (Constant c) = py_repr c"
| "demo_unparse (Call lno col f args kws) =
     demo_unparse f @ ''('' @ join '', '' (map demo_unparse args) @ '')''"
| "demo_unparse (Node tag cs) =
     (if tag = ''Assign'' then [newline] @ join '' = '' (map demo_unparse cs)
      else concat (map demo_unparse cs))"

definition demo_fragment :: string where
  "demo_fragment = ''def add_two_numbers(a, b): return a + b''"

definition demo_token_body :: string where
  "demo_token_body = ''{\"token\": \"tid=abc\"}''"

definition demo_reply_body :: string where
  "demo_reply_body =
     ''{\"choices\": [{\"message\": {\"content\": \"def add_two_numbers(a, b): return a + b\"}}]}''"

definition demo_http :: "nat \<Rightarrow> http_req \<Rightarrow> http_resp" where
  "demo_http n r = (case r of TokenRequest \<Rightarrow> HttpReply 200 demo_token_body
                            | CompletionRequest t p \<Rightarrow> HttpReply 200 demo_reply_body)"

definition demo_tree :: expr where
  "demo_tree = Node ''Module''
     [Node ''Assign'' [Name (PyStr ''x''), Call 1 4 sid_name [Constant (PyStr ''add two numbers'')] []]]"

definition demo_bad_tree :: expr where
  "demo_bad_tree = Node ''Module'' [Node ''Expr'' [Call 2 0 sid_name [Name (PyStr ''y'')] []]]"

definition demo_key :: gen_key where
  "demo_key = (PyStr ''add_two_numbers'', PyStr ''add two numbers'')"

definition demo_n :: pyconst where
  "demo_n = PyStr ''add_two_numbers''"

definition demo_d :: pyconst where
  "demo_d = PyStr ''add two numbers''"

definition demo :: tstate where
  "demo = \<lparr>files = (\<lambda>p. Missing)(''in.py'' := Stored ''x = sid('add two numbers')''),
           read_only = (\<lambda>p. False), clock = of_nat, clock_reads = 0, http = demo_http,
           requests = [], log = [], stdin_line = ''add two numbers'', stdout = [],
           py_compiles = (\<lambda>c. True), py_parse = (\<lambda>c. Some demo_tree), py_unparse = (\<lambda>e. demo_unparse e @ [newline]),
           function_codes = [], function_cache = [], token = TokNone, token_time = 0\<rparr>"

definition demo_warm :: tstate where
  "demo_warm = demo\<lparr>function_cache := [(demo_key, JStr demo_fragment)]\<rparr>"

definition demo_hand_edited :: tstate where
  "demo_hand_edited = demo\<lparr>files := (files demo)(CACHE_FILE :=
     Stored ''{\"('add_two_numbers', 'add two numbers')\": 42}'')\<rparr>"

definition demo_bad :: tstate where
  "demo_bad = demo\<lparr>py_parse := (\<lambda>c. Some demo_bad_tree)\<rparr>"

definition demo_unparsable :: tstate where
  "demo_unparsable = demo\<lparr>py_parse := (\<lambda>c. None)\<rparr>"

definition demo_down :: tstate where
  "demo_down = demo\<lparr>http := (\<lambda>n r. HttpReply 404 [])\<rparr>"

definition demo_status_body :: string where
  "demo_status_body = ''{\"status\": \"ok\"}''"

definition demo_no_token :: tstate where
  "demo_no_token = demo\<lparr>http := (\<lambda>n r. HttpReply 200 demo_status_body)\<rparr>"

definition demo_list_cache :: tstate where
  "demo_list_cache = demo\<lparr>files := (files demo)(CACHE_FILE := Stored ''[1, 2]'')\<rparr>"

definition demo_raising :: tstate where
  "demo_raising = demo\<lparr>http := (\<lambda>n r. case r of TokenRequest \<Rightarrow> HttpReply 200 demo_token_body
                                              | CompletionRequest t p \<Rightarrow> HttpRaised)\<rparr>"

definition demo_ro_cache :: tstate where
  "demo_ro_cache = demo\<lparr>read_only := (\<lambda>p. p = CACHE_FILE)\<rparr>"

subsection \<open>Witnesses\<close>

theorem sid_compiler_output_witness:
  "files demo ''in.py'' = Stored ''x = sid('add two numbers')''
   \<and> py_parse demo ''x = sid('add two numbers')'' = Some demo_tree \<and> \<not> raises demo_tree
   \<and> \<not> read_only demo ''out.py''
   \<and> py_strs (function_codes (snd (visit demo_tree (transformer_init demo)))) = Some [demo_fragment]
   \<and> files (snd (sid_compiler ''in.py'' ''out.py'' demo)) ''out.py''
       = Stored (demo_fragment @ [newline] @ ''x = add_two_numbers'' @ [newline])"
proof -
  have h1: "files demo ''in.py'' = Stored ''x = sid('add two numbers')''"
    and h2: "py_parse demo ''x = sid('add two numbers')'' = Some demo_tree"
    and h3: "\<not> raises demo_tree" and h4: "\<not> read_only demo ''out.py''"
    by (simp_all add: demo_def demo_tree_def sid_dispatch_def)
  have h5: "py_strs (function_codes (snd (visit demo_tree (transformer_init demo)))) = Some [demo_fragment]"
    by code_simp
  have "files (snd (sid_compiler ''in.py'' ''out.py'' demo)) ''out.py''
      = Stored (join [newline, newline] [demo_fragment] @ py_unparse demo (rewrite demo_tree))"
    by (simp add: sid_compiler_output [OF h1 h2 h3 h4 h5] Let_def)
  also have "\<dots> = Stored (demo_fragment @ [newline] @ ''x = add_two_numbers'' @ [newline])"
    by code_simp
  finally show ?thesis using h1 h2 h3 h4 h5 by blast
qed

theorem visit_cache_codes_witness:
  "\<not> raises demo_tree
   \<and> cache_map demo \<subseteq>\<^sub>m cache_map (snd (visit demo_tree demo))
   \<and> dom (cache_map (snd (visit demo_tree demo))) = dom (cache_map demo) \<union> set (sites demo_tree)
   \<and> function_codes (snd (visit demo_tree demo)) =
       function_codes demo @ map (\<lambda>k. the (cache_map (snd (visit demo_tree demo)) k)) (sites demo_tree)"
proof -
  have h: "\<not> raises demo_tree" by (simp add: demo_tree_def sid_dispatch_def)
  show ?thesis using h visit_cache_codes [OF h, of demo] by blast
qed

theorem visit_completions_witness:
  "\<not> raises demo_tree \<and> completions (snd (visit demo_tree demo)) = 1"
proof -
  have h: "\<not> raises demo_tree" by (simp add: demo_tree_def sid_dispatch_def)
  have "completions (snd (visit demo_tree demo)) =
          completions demo + card (set (sites demo_tree) - dom (cache_map demo))"
    by (rule visit_completions [OF h])
  also have "\<dots> = 1" by (simp add: demo_def demo_tree_def sid_dispatch_def completions_def)
  finally show ?thesis using h by blast
qed

theorem load_save_cache_witness:
  "cache_wf (function_cache demo_warm) \<and> \<not> read_only demo_warm CACHE_FILE
   \<and> function_cache (load_cache (save_cache demo_warm)) = function_cache demo_warm
   \<and> log (load_cache (save_cache demo_warm)) = log demo_warm"
proof -
  have h1: "cache_wf (function_cache demo_warm)" and h2: "\<not> read_only demo_warm CACHE_FILE"
    by (simp_all add: demo_warm_def demo_def cache_wf_def)
  show ?thesis using h1 h2 load_save_cache [OF h1 h2] by blast
qed

theorem visit_warm_cache_witness:
  "\<not> raises demo_tree \<and> set (sites demo_tree) \<subseteq> dom (cache_map demo_warm)
   \<and> requests (snd (visit demo_tree demo_warm)) = requests demo_warm
   \<and> files (snd (visit demo_tree demo_warm)) = files demo_warm
   \<and> function_cache (snd (visit demo_tree demo_warm)) = function_cache demo_warm
   \<and> clock_reads (snd (visit demo_tree demo_warm)) = clock_reads demo_warm"
proof -
  have h1: "\<not> raises demo_tree" by (simp add: demo_tree_def sid_dispatch_def)
  have h2: "set (sites demo_tree) \<subseteq> dom (cache_map demo_warm)"
    by (simp add: demo_tree_def sid_dispatch_def demo_warm_def demo_key_def) code_simp
  show ?thesis using h1 h2 visit_warm_cache [OF h1 h2] by blast
qed

theorem visit_marker_hit_witness:
  "cache_map demo_warm (PyStr (replace_char space (CHR ''_'') ''add two numbers''), PyStr ''add two numbers'')
     = Some (JStr demo_fragment)
   \<and> visit (Call 1 4 sid_name [Constant (PyStr ''add two numbers'')] []) demo_warm =
       (Inr (Name (PyStr (replace_char space (CHR ''_'') ''add two numbers''))),
        demo_warm\<lparr>log := log demo_warm @ [LogSite 1 4 (PyStr ''add two numbers''), LogGenerated (JStr demo_fragment)],
          function_codes := function_codes demo_warm @ [JStr demo_fragment]\<rparr>)"
proof -
  have h: "cache_map demo_warm (PyStr (replace_char space (CHR ''_'') ''add two numbers''), PyStr ''add two numbers'')
     = Some (JStr demo_fragment)"
    by code_simp
  show ?thesis using h visit_marker_hit [OF h] by blast
qed

theorem visit_marker_miss_witness:
  "cache_map demo (PyStr ''add'', PyStr ''add two numbers'') = None \<and> \<not> read_only demo CACHE_FILE
   \<and> visit (Call 5 0 sid_name [Constant (PyStr ''add''), Constant (PyStr ''add two numbers'')] []) demo
       = (fst (visit (Call 5 0 sid_name [Constant (PyStr ''add''), Constant (PyStr ''add two numbers'')] []) demo),
          snd (visit (Call 5 0 sid_name [Constant (PyStr ''add''), Constant (PyStr ''add two numbers'')] []) demo))
   \<and> completions (snd (visit (Call 5 0 sid_name [Constant (PyStr ''add''), Constant (PyStr ''add two numbers'')] []) demo))
       = Suc (completions demo)"
proof -
  let ?v = "visit (Call 5 0 sid_name [Constant (PyStr ''add''), Constant (PyStr ''add two numbers'')] []) demo"
  have h1: "cache_map demo (PyStr ''add'', PyStr ''add two numbers'') = None"
    and h2: "\<not> read_only demo CACHE_FILE" and h3: "?v = (fst ?v, snd ?v)"
    by (simp_all add: demo_def)
  show ?thesis using h1 h2 h3 visit_marker_miss [OF h1 h2 h3] by blast
qed

theorem visit_wrong_arity_witness:
  "length [PyStr ''a'', PyStr ''b'', PyStr ''c''] \<notin> {1, 2}
   \<and> visit (Call 3 0 sid_name (map Constant [PyStr ''a'', PyStr ''b'', PyStr ''c''])
              (map (\<lambda>(k, c). (k, Constant c)) [])) demo =
       (Inr (Call 3 0 sid_name (map Constant [PyStr ''a'', PyStr ''b'', PyStr ''c''])
              (map (\<lambda>(k, c). (k, Constant c)) [])), log_append (LogWrongArity 3 0) demo)"
proof -
  have h: "length [PyStr ''a'', PyStr ''b'', PyStr ''c''] \<notin> {1, 2}" by simp
  show ?thesis using h visit_wrong_arity [OF h] by blast
qed

theorem visit_bad_argument_witness:
  "(\<forall>d. Name (PyStr ''y'') \<noteq> Constant (PyStr d))
   \<and> visit (Call 2 0 sid_name [Name (PyStr ''y'')] []) demo = (Inl AttributeError, demo)"
proof -
  have h: "\<forall>d. Name (PyStr ''y'') \<noteq> Constant (PyStr d)" by simp
  show ?thesis using h visit_bad_argument [OF h] by blast
qed

theorem extract_code_block_fenced_witness:
  "CHR ''`'' \<notin> set ''Sure. '' \<and> newline \<notin> set ''python'' \<and> CHR ''`'' \<notin> set demo_fragment
   \<and> extract_code_block (''Sure. '' @ fence @ ''python'' @ [newline] @ demo_fragment @ fence @ '' Done.'')
       = demo_fragment"
proof -
  have h1: "CHR ''`'' \<notin> set ''Sure. ''" and h2: "newline \<notin> set ''python''"
    and h3: "CHR ''`'' \<notin> set demo_fragment"
    by (simp_all add: demo_fragment_def)
  show ?thesis using h1 h2 h3 extract_code_block_fenced [OF h1 h2 h3] by blast
qed

theorem generate_function_not_ok_witness:
  "http (refresh_token demo_down) (length (requests (refresh_token demo_down)))
     (CompletionRequest (token (refresh_token demo_down)) (prompt demo_n demo_d)) = HttpReply 404 []
   \<and> (404::int) \<noteq> 200
   \<and> fst (generate_function demo_n demo_d demo_down) = ''Response 404''
   \<and> log (snd (generate_function demo_n demo_d demo_down)) = log demo_down"
proof -
  have h1: "http (refresh_token demo_down) (length (requests (refresh_token demo_down)))
     (CompletionRequest (token (refresh_token demo_down)) (prompt demo_n demo_d)) = HttpReply 404 []"
    using oracles_eqD(3) [OF oracles_refresh_token [of demo_down]] by (simp add: demo_down_def)
  have h2: "(404::int) \<noteq> 200" by simp
  show ?thesis using h1 h2 generate_function_not_ok [OF h1 h2] by blast
qed

theorem sid_compiler_raises_witness:
  "files demo_bad ''in.py'' = Stored ''x = sid('add two numbers')''
   \<and> py_parse demo_bad ''x = sid('add two numbers')'' = Some demo_bad_tree \<and> raises demo_bad_tree
   \<and> ''out.py'' \<noteq> CACHE_FILE
   \<and> fst (sid_compiler ''in.py'' ''out.py'' demo_bad) = Inl AttributeError
   \<and> files (snd (sid_compiler ''in.py'' ''out.py'' demo_bad)) ''out.py'' = files demo_bad ''out.py''"
proof -
  have h1: "files demo_bad ''in.py'' = Stored ''x = sid('add two numbers')''"
    and h2: "py_parse demo_bad ''x = sid('add two numbers')'' = Some demo_bad_tree"
    and h3: "raises demo_bad_tree" and h4: "''out.py'' \<noteq> CACHE_FILE"
    by (simp_all add: demo_bad_def demo_def demo_bad_tree_def sid_dispatch_def CACHE_FILE_def)
  show ?thesis using h1 h2 h3 h4 sid_compiler_raises [OF h1 h2 h3 h4] by blast
qed

theorem sid_compiler_type_error_witness:
  "files demo_hand_edited ''in.py'' = Stored ''x = sid('add two numbers')''
   \<and> py_parse demo_hand_edited ''x = sid('add two numbers')'' = Some demo_tree \<and> \<not> raises demo_tree
   \<and> py_strs (function_codes (snd (visit demo_tree (transformer_init demo_hand_edited)))) = None
   \<and> sid_compiler ''in.py'' ''out.py'' demo_hand_edited
       = (Inl TypeError, snd (visit demo_tree (transformer_init demo_hand_edited)))"
proof -
  have h1: "files demo_hand_edited ''in.py'' = Stored ''x = sid('add two numbers')''"
    and h2: "py_parse demo_hand_edited ''x = sid('add two numbers')'' = Some demo_tree"
    and h3: "\<not> raises demo_tree"
    by (simp_all add: demo_hand_edited_def demo_def demo_tree_def sid_dispatch_def CACHE_FILE_def)
  have h4: "py_strs (function_codes (snd (visit demo_tree (transformer_init demo_hand_edited)))) = None"
    by code_simp
  show ?thesis using h1 h2 h3 h4 sid_compiler_type_error [OF h1 h2 h3 h4] by blast
qed

theorem sid_compiler_syntax_error_witness:
  "files demo_unparsable ''in.py'' = Stored ''x = sid('add two numbers')''
   \<and> py_parse demo_unparsable ''x = sid('add two numbers')'' = None
   \<and> sid_compiler ''in.py'' ''out.py'' demo_unparsable = (Inl SyntaxError, demo_unparsable)"
proof -
  have h1: "files demo_unparsable ''in.py'' = Stored ''x = sid('add two numbers')''"
    and h2: "py_parse demo_unparsable ''x = sid('add two numbers')'' = None"
    by (simp_all add: demo_unparsable_def demo_def)
  show ?thesis using h1 h2 sid_compiler_syntax_error [OF h1 h2] by blast
qed

theorem sid_compiler_read_failed_witness:
  "files demo ''missing.py'' \<in> {Missing, Unreadable}
   \<and> sid_compiler ''missing.py'' ''out.py'' demo = (Inr (), log_append LogReadFailed demo)"
proof -
  have h: "files demo ''missing.py'' \<in> {Missing, Unreadable}" by (simp add: demo_def)
  show ?thesis using h sid_compiler_read_failed [OF h] by blast
qed

theorem load_cache_not_object_witness:
  "files demo_list_cache CACHE_FILE = Stored ''[1, 2]''
   \<and> json_loads ''[1, 2]'' = Some (JArr [JInt 1, JInt 2]) \<and> (\<forall>kvs. JArr [JInt 1, JInt 2] \<noteq> JObj kvs)
   \<and> load_cache demo_list_cache = (log_append LogLoadFailed demo_list_cache)\<lparr>function_cache := []\<rparr>"
proof -
  have h1: "files demo_list_cache CACHE_FILE = Stored ''[1, 2]''"
    by (simp add: demo_list_cache_def)
  have h2: "json_loads ''[1, 2]'' = Some (JArr [JInt 1, JInt 2])" by code_simp
  have h3: "\<forall>kvs. JArr [JInt 1, JInt 2] \<noteq> JObj kvs" by simp
  show ?thesis using h1 h2 h3 load_cache_not_object [OF h1 h2 h3] by blast
qed

theorem get_token_no_field_witness:
  "http demo_no_token (length (requests demo_no_token)) TokenRequest = HttpReply 200 demo_status_body
   \<and> json_loads demo_status_body = Some (JObj [(''status'', JStr ''ok'')])
   \<and> ''token'' \<notin> set (map fst [(''status'', JStr ''ok'')])
   \<and> get_token demo_no_token = (TokNone, demo_no_token\<lparr>requests := requests demo_no_token @ [TokenRequest]\<rparr>)"
proof -
  have h1: "http demo_no_token (length (requests demo_no_token)) TokenRequest = HttpReply 200 demo_status_body"
    by (simp add: demo_no_token_def)
  have h2: "json_loads demo_status_body = Some (JObj [(''status'', JStr ''ok'')])"
    by code_simp
  have h3: "''token'' \<notin> set (map fst [(''status'', JStr ''ok'')])" by simp
  show ?thesis using h1 h2 h3 get_token_no_field [OF h1 h2 h3] by blast
qed


theorem sid_compiler_read_only_cache_witness:
  "files demo_ro_cache ''in.py'' = Stored ''x = sid('add two numbers')''
   \<and> py_parse demo_ro_cache ''x = sid('add two numbers')'' = Some demo_tree \<and> \<not> raises demo_tree
   \<and> read_only demo_ro_cache CACHE_FILE
   \<and> ''in.py'' \<noteq> CACHE_FILE \<and> ''out.py'' \<noteq> CACHE_FILE \<and> ''in.py'' \<noteq> ''out.py''
   \<and> files (snd (sid_compiler ''in.py'' ''out.py'' demo_ro_cache)) CACHE_FILE = Missing
   \<and> completions (snd (sid_compiler ''in.py'' ''out.py'' demo_ro_cache)) = 1
   \<and> completions (snd (sid_compiler ''in.py'' ''out.py'' (snd (sid_compiler ''in.py'' ''out.py'' demo_ro_cache))))
       = 2"
proof -
  have h1: "files demo_ro_cache ''in.py'' = Stored ''x = sid('add two numbers')''"
    and h2: "py_parse demo_ro_cache ''x = sid('add two numbers')'' = Some demo_tree"
    and h3: "\<not> raises demo_tree" and h4: "read_only demo_ro_cache CACHE_FILE"
    by (simp_all add: demo_ro_cache_def demo_def demo_tree_def sid_dispatch_def)
  have h5: "''in.py'' \<noteq> CACHE_FILE" "''out.py'' \<noteq> CACHE_FILE" "''in.py'' \<noteq> ''out.py''"
    by (simp_all add: CACHE_FILE_def)
  have n: "card (set (sites demo_tree) - dom (cache_map (transformer_init demo_ro_cache))) = 1"
  proof -
    have "function_cache (transformer_init demo_ro_cache) = []" by code_simp
    then show ?thesis by (simp add: demo_tree_def sid_dispatch_def)
  qed
  have c0: "completions demo_ro_cache = 0" by (simp add: demo_ro_cache_def demo_def completions_def)
  have f0: "files demo_ro_cache CACHE_FILE = Missing" by (simp add: demo_ro_cache_def demo_def CACHE_FILE_def)
  show ?thesis using h1 h2 h3 h4 h5 sid_compiler_read_only_cache [OF h1 h2 h3 h4 h5] n c0 f0 by simp
qed

theorem visit_marker_gen_failed_witness:
  "cache_map demo_raising (demo_n, demo_d) = None
   \<and> http (refresh_token (log_append (LogSiteNamed 1 0 demo_n demo_d) demo_raising))
       (length (requests (refresh_token (log_append (LogSiteNamed 1 0 demo_n demo_d) demo_raising))))
       (CompletionRequest (token (refresh_token (log_append (LogSiteNamed 1 0 demo_n demo_d) demo_raising)))
          (prompt demo_n demo_d))
     = HttpRaised
   \<and> function_cache (snd (visit (Call 1 0 sid_name [Constant demo_n, Constant demo_d] []) demo_raising))
       = [((demo_n, demo_d), JStr [])]
   \<and> log (snd (visit (Call 1 0 sid_name [Constant demo_n, Constant demo_d] []) demo_raising))
       = [LogSiteNamed 1 0 demo_n demo_d, LogGenFailed, LogGenerated (JStr [])]"
proof -
  have h1: "cache_map demo_raising (demo_n, demo_d) = None" by (simp add: demo_raising_def demo_def)
  have h2: "http (refresh_token (log_append (LogSiteNamed 1 0 demo_n demo_d) demo_raising))
       (length (requests (refresh_token (log_append (LogSiteNamed 1 0 demo_n demo_d) demo_raising))))
       (CompletionRequest (token (refresh_token (log_append (LogSiteNamed 1 0 demo_n demo_d) demo_raising)))
          (prompt demo_n demo_d))
     = HttpRaised"
    by (simp add: refresh_token_state demo_raising_def demo_def log_append_def)
  have h3: "visit (Call 1 0 sid_name [Constant demo_n, Constant demo_d] []) demo_raising
      = (fst (visit (Call 1 0 sid_name [Constant demo_n, Constant demo_d] []) demo_raising),
         snd (visit (Call 1 0 sid_name [Constant demo_n, Constant demo_d] []) demo_raising))"
    by simp
  have h4: "\<not> read_only demo_raising CACHE_FILE" "log demo_raising = []" "function_cache demo_raising = []"
    by (simp_all add: demo_raising_def demo_def)
  show ?thesis using h1 h2 visit_marker_gen_failed [OF h1 h2 h3] h4 by simp
qed

theorem visit_cache_write_through_witness:
  "\<not> read_only demo CACHE_FILE
   \<and> files (snd (visit demo_tree demo)) CACHE_FILE
       = Stored (cache_text (function_cache (snd (visit demo_tree demo))))"
proof -
  have h: "\<not> read_only demo CACHE_FILE" by (simp add: demo_def)
  have c: "function_cache (snd (visit demo_tree demo)) \<noteq> function_cache demo" by code_simp
  show ?thesis using h c visit_cache_write_through [OF h, of demo_tree] by blast
qed

theorem visit_creates_marker_witness:
  "sid_dispatch sid_name 1 0 (map Constant [PyStr ''x'']) = Marker (PyStr ''x'') (PyStr ''x'') (LogSite 1 0 (PyStr ''x''))
   \<and> fst (visit (Call 1 0 (Call 1 0 sid_name [Constant (PyStr ''sid'')] []) (map Constant [PyStr ''x'']) []) demo)
       = Inr (Call 1 0 sid_name [Constant (PyStr ''x'')] [])
   \<and> sites (Call 1 0 sid_name [Constant (PyStr ''x'')] []) = [(PyStr ''x'', PyStr ''x'')]"
proof -
  have h1: "sid_dispatch sid_name 1 0 (map Constant [PyStr ''x''])
      = Marker (PyStr ''x'') (PyStr ''x'') (LogSite 1 0 (PyStr ''x''))"
    by (simp add: sid_dispatch_def)
  have h2: "\<not> list_ex (\<lambda>(k, e). raises e) ([] :: (string option \<times> expr) list)" by simp
  show ?thesis using h1 visit_creates_marker [OF h1 h2, of 1 0 "[]" demo] by simp
qed

theorem main_dispatch_witness:
  "main [''a.py'', ''b.py'', ''c.py''] demo = (Inl (SystemExit 2), demo)
   \<and> fst (main [''in.py''] demo) = Inr () \<and> files (snd (main [''in.py''] demo)) = files demo
   \<and> completions (snd (main [''in.py''] demo)) = 1"
  using main_dispatch [of "[''a.py'', ''b.py'', ''c.py'']" demo] main_dispatch [of "[''in.py'']" demo]
  by (simp add: demo_def completions_def)

end
