(* ===== verification/Spec2Isabelle.thy ===== *)
theory Spec2Isabelle
  imports Scenarios
begin

text \<open>
  \<^bold>\<open>AutoPyFunc, src/AutoPyFunc.py: a verification development.\<close>

  The program rewrites a Python module. Each marker call \<open>sid("description")\<close> or
  \<open>sid("name", "description")\<close> is replaced by a reference to a function name, and the
  functions themselves are generated by a chat-completion backend and put in front of the
  rewritten module. Generated text is cached by the key \<open>(name, description)\<close> in
  \<open>function_cache.json\<close>. The parts and how they interact:

  \<^item> \<^bold>\<open>Compiler Driver\<close> (theory \<open>Driver\<close>): \<open>sid_compiler\<close>,
    \<open>interactive_mode\<close>, and \<open>main\<close> for the \<open>__main__\<close> block (lines 135-169).
    It reads the input file, parses it, and builds a transformer (which loads the cache
    and fetches a token). It then walks the tree, joins the fragments and writes the
    output. \<open>join_codes\<close> is the \<open>'\n\n'.join\<close>, which raises \<open>TypeError\<close> on a
    fragment that is not a string.
  \<^item> \<^bold>\<open>Marker Transformer\<close> (theory \<open>Transformer\<close>): \<open>SidFunctionTransformer.visit_Call\<close>
    and the \<open>NodeTransformer\<close> walk (lines 44-79).
    \<^item> \<open>sid_dispatch\<close> is the marker test and arity switch (lines 53-66).
    \<^item> \<open>sid_site\<close> does the cache lookup, the generation and write-through on a
      miss, the log record and the pooled fragment (lines 68-77).
    \<^item> \<open>visit\<close>, \<open>visit_list\<close>, \<open>visit_kws\<close> are the depth-first walk. The state is
      threaded through it, and an exception ends it.
    \<^item> \<open>transformer_init\<close> is \<open>__init__\<close>.
    \<^item> \<open>rewrite\<close>, \<open>raises\<close> and \<open>sites\<close> are the abstract specification of the walk:
      the tree it returns, whether it raises, and the marker keys in document order.
    \<^item> \<open>walk_ops\<close> and \<open>run_ops\<close> specify its effect on the state: the operations it
      runs, in order.
  \<^item> \<^bold>\<open>Cache Store\<close> (theory \<open>CacheStore\<close>): \<open>load_cache\<close> and \<open>save_cache\<close>
    (lines 115-133).
    \<^item> The transformer object is the record \<open>tstate\<close>, an extension of the world
      with \<open>function_codes\<close>, \<open>function_cache\<close>, \<open>token\<close> and \<open>token_time\<close>.
    \<^item> The dict is an association list: \<open>dict_set\<close> updates an existing key in
      place and appends a new one.
    \<^item> The key codec \<open>str((fname, desc))\<close> / \<open>eval(k)\<close> is \<open>encode_key\<close> /
      \<open>decode_key\<close> (theory \<open>PyLiteral\<close>: CPython's \<open>repr\<close> of str and int, and a
      reader for the literal language it prints).
    \<^item> \<open>json.dump\<close> / \<open>json.load\<close> is \<open>json_dumps\<close> (theory \<open>Json\<close>) /
      \<open>json_loads\<close> (theory \<open>JsonRead\<close>: the reader, its fuel and the well-formedness
      \<open>json_wf\<close> of what it returns).
  \<^item> \<^bold>\<open>Generation Client\<close> (theory \<open>Generation\<close>): \<open>get_token\<close> (lines 25-42) and
    \<open>generate_function\<close> (lines 81-113). This covers the token refresh after 600 seconds,
    one completion request, the \<open>Response 404\<close> text for a status other than 200, the
    extraction of the first fenced block, and the compile check. The regex of line 107
    is modelled twice: \<open>extract_code_block\<close> is the staged search (first fence, first
    newline, next fence), and \<open>regex_search\<close> / \<open>extract_code_block_ref\<close> is the
    matcher's own order (the first triple of positions that matches, in lexicographic
    order).
  \<^item> \<^bold>\<open>World\<close> (theory \<open>World\<close>): the environment as an explicit state. It holds the
    files, the clock readings, the HTTP requests sent (answered by an oracle), the log,
    stdin and stdout, and Python's compiler, parser and unparser as oracles. Statements
    that may raise return \<open>py_exc + 'a\<close> and are sequenced by \<open>pbind\<close>.
  \<^item> \<^bold>\<open>Logging\<close> (theory \<open>Logging\<close>): the level and the f-string text of every
    logging call (\<open>log_level_of\<close>, \<open>log_text\<close>), \<open>str\<close> of a cached value
    (\<open>json_py_str\<close>), and the \<open>basicConfig\<close> record layout (\<open>format_record\<close>, lines
    16-20), with the time stamp as a parameter.
  \<^item> \<^bold>\<open>Prelude\<close>: characters, \<open>str.replace\<close>, dicts, decimal and hex digits.
  \<^item> \<^bold>\<open>Scenarios\<close>: a concrete world (one marker, a backend that answers with one
    function) on which every claim with a hypothesis is applied. Its unparser is a
    stand-in for \<open>astunparse.unparse\<close> on that one tree: like astunparse, it starts
    the module text with a newline.

  \<^bold>\<open>What is proved.\<close>
  \<^item> The output file is the joined fragments followed by the unparsed \<open>rewrite\<close> of the
    tree (C1).
  \<^item> The fragments are the final cache's values at the marker sites, in document order,
    and the cache only grows by exactly those keys (C2).
  \<^item> There is one backend call per distinct uncached key (C3).
  \<^item> A saved cache loads back identically (C4), and the key text is injective (C6).
  \<^item> With a warm cache, the walk sends no request, writes no file and leaves the cache
    as it was (C5).
  \<^item> Exact behaviour of a single marker: hit (C7), miss with write-through (C8), wrong
    arity (C10), non-literal argument (C11).
  \<^item> Write-through holds on every walk, including one that raises: with a writable cache
    file, either the file and the in-memory cache are unchanged, or the file holds exactly
    the final cache (C9).
  \<^item> Generation: code-block extraction (C12), the reply with a status other than 200
    (C13), the request order of a token refresh (C14), and a token reply without a
    token field (C21).
  \<^item> Driver failure paths: an uncaught \<open>AttributeError\<close> (C15), \<open>TypeError\<close> (C16)
    and \<open>SyntaxError\<close> (C17), and the logged read failure (C18).
  \<^item> Interactive mode (C19) and cache-file fallback (C20).
  \<^item> A walk sends no more token requests than completion requests (C22).
  \<^item> The staged code-block search equals the regex's backtracking semantics on every
    text (C23).
  \<^item> The walk is a flat sequence of operations (\<open>walk_ops\<close>, \<open>run_ops\<close>): the marker
    sites and wrong-arity log records in document order, cut at the first raising
    marker. Every walk runs exactly that sequence (C24).
  \<^item> Repeated runs converge (C25). \<open>rerun_reach\<close> is the set of states reached by running
    the compiler again on the state the last run left. After one normal run, every later
    run returns normally, sends no completion request and leaves all files as they are.
    The proof is rule induction over \<open>rerun_reach\<close>, with the invariant that the files
    and the oracles are those after the first run. The step from one run to the next
    uses \<open>visit_cache_file\<close> (the cache file either already held every key or was
    written through with the final cache) and \<open>load_cache_text\<close> (\<open>load_cache\<close> reads
    that file back).
  \<^item> A read-only cache file: each failed save is logged and swallowed, nothing persists,
    and every run pays again for the keys the file lacks (C26).
  \<^item> A marker whose completion request raises is still substituted. The empty text is
    cached and pooled, and the log order is site, generation error, save error (only
    for a read-only cache file), then the \<open>Generated\<close> record (C27).
  \<^item> The \<open>__main__\<close> dispatch: more than two arguments exit with status 2. Fewer, or an
    empty path, run the interactive mode, which writes no file and calls the backend
    once (C28).
  \<^item> The walk can create a marker: a call whose callee is the marker \<open>sid('sid')\<close>
    and whose constant arguments form a valid marker comes back as a marker call of
    \<open>sid\<close> with those arguments, whatever the state. The output of one run can
    therefore hold markers, and the program does one pass only (C29).
  \<^item> Library lemmas that the claims rest on:
    \<^item> \<open>json_value_fuel_enough\<close>: the JSON reader's answer does not depend on the fuel
      once the fuel exceeds the length of the text.
    \<^item> \<open>json_loads_dumps_loads\<close>: every value \<open>json.load\<close> returns is well-formed and
      prints back to itself.
    \<^item> \<open>function_codes_transformer_init\<close>: the constructor starts with no fragments.

  The walk's theorems are instances of two generic lemmas, \<open>visit_compose\<close> (a property
  of runs that composes along the walk) and \<open>visit_invariant\<close>. The refinement
  \<open>visit_refines\<close> shows the walk's result is \<open>rewrite\<close> or the exception \<open>raises\<close>
  predicts, whatever the cache, the clock and the backend do.

  \<^bold>\<open>Fuel and termination.\<close>
  \<^item> Every loop of the program is structural, and so is every recursion of the model.
    The one exception is the JSON reader \<open>json_value\<close>, which takes fuel.
  \<^item> \<open>json_loads\<close> gives \<open>json_value\<close> the fuel \<open>Suc (length s)\<close>. Each level of
    nesting consumes at least one character of the text (\<open>json_value_shorter\<close>), so
    every fuel above \<open>length s\<close> gives the same answer (lemma
    \<open>json_value_fuel_enough\<close>): running out of fuel never decides the result.
    \<open>jfuel_le_length\<close> bounds the fuel a value needs by the length of its printed form.
  \<^item> \<open>lit_body\<close> terminates by the measure of the remaining text.

  \<^bold>\<open>Not modelled.\<close>
  \<^item> Python's grammar. \<open>ast.parse\<close>, \<open>astunparse.unparse\<close> and \<open>compile\<close> are
    oracles. The tree is abstracted to \<open>Call\<close> nodes and generic nodes with ordered
    children.
  \<^item> The HTTP libraries and \<open>asyncio\<close>. Each request is recorded and answered by an
    oracle; headers, temperature and timeouts are not modelled.
  \<^item> The time stamps of log records, the \<open>str(e)\<close> text that ends each error message,
    and the records that libraries (httpx) write to the same root logger.
  \<^item> argparse options. \<open>main\<close> takes the positional arguments.
  \<^item> Code points above U+00FF.
  \<^item> JSON floats: \<open>json_loads\<close> rejects them, while Python accepts them.
  \<^item> \<open>eval\<close> on anything other than a tuple of two literals. Such text in a hand-edited
    cache file is treated as a failing \<open>eval\<close>; Python would evaluate it. For a key
    such as \<open>"1"\<close>, Python's \<open>load_cache\<close> inserts the int key \<open>1\<close>, and
    \<open>save_cache\<close> then truncates the cache file before the unpacking of
    \<open>(fname, desc)\<close> raises, so the cache is lost. The model does not follow that path.
  \<^item> The \<open>Logging\<close> theory models the text of the records. No claim is stated about
    it: the claims state which records are appended to the log, in order.
\<close>

end
